theory Spec2Isabelle
  imports Main "HOL-Library.AList" "HOL-Library.Code_Target_Numeral"
begin

section \<open>JavaScript values\<close>

text \<open>
  The importers read rows decoded by PapaParse and SheetJS and bind the cells to
  fixed-width fields. A cell is a JavaScript scalar. Strings are lists of code
  units; numbers are the integer-valued ones, which print in decimal notation.
\<close>

datatype jsval = Undefined | Null | Bool bool | Num int | Str string

text \<open>A thrown or rejected value, with its \<open>message\<close>.\<close>

datatype js_error = TypeError string | Error string

fun errorMessage :: "js_error \<Rightarrow> string" where
  "errorMessage (TypeError m) = m"
| "errorMessage (Error m) = m"

fun truthy :: "jsval \<Rightarrow> bool" where
  "truthy Undefined = False"
| "truthy Null = False"
| "truthy (Bool b) = b"
| "truthy (Num n) = (n \<noteq> 0)"
| "truthy (Str s) = (s \<noteq> [])"

text \<open>\<open>a || b\<close>\<close>

definition jsOr :: "jsval \<Rightarrow> jsval \<Rightarrow> jsval" where
  "jsOr a b = (if truthy a then a else b)"

definition digitChar :: "nat \<Rightarrow> char" where
  "digitChar d = ''0123456789'' ! d"

fun digitsOf :: "nat \<Rightarrow> string" where
  "digitsOf n = (if n < 10 then [digitChar n] else digitsOf (n div 10) @ [digitChar (n mod 10)])"

declare digitsOf.simps [simp del]

text \<open>
  \<open>Number.prototype.toString\<close> of an integer: the decimal digits below \<open>10^21\<close>, and from
  there on exponent notation, the digits without their trailing zeros, a point after the
  first of them when there are more, and \<open>e+\<close> with the exponent (\<open>1e+21\<close>,
  \<open>1.5e+21\<close>). A \<open>Num\<close> stands for a number whose shortest decimal form is the digits of
  the integer.
\<close>

definition exponentForm :: "string \<Rightarrow> string" where
  "exponentForm ds =
     (let m = rev (dropWhile (\<lambda>c. c = CHR ''0'') (rev ds))
      in hd m # (if length m > 1 then CHR ''.'' # tl m else []) @ ''e+'' @ digitsOf (length ds - 1))"

definition magnitudeText :: "nat \<Rightarrow> string" where
  "magnitudeText n = (let ds = digitsOf n in if length ds \<le> 21 then ds else exponentForm ds)"

definition numToString :: "int \<Rightarrow> string" where
  "numToString n = (if n < 0 then CHR ''-'' # magnitudeText (nat (- n)) else magnitudeText (nat n))"

text \<open>The string form of a value, as template literals and \<open>String(v)\<close> build it.\<close>

fun toText :: "jsval \<Rightarrow> string" where
  "toText Undefined = ''undefined''"
| "toText Null = ''null''"
| "toText (Bool b) = (if b then ''true'' else ''false'')"
| "toText (Num n) = numToString n"
| "toText (Str s) = s"

text \<open>The method call \<open>v.toString()\<close>: \<open>undefined\<close> and \<open>null\<close> have no methods.\<close>

fun toString :: "jsval \<Rightarrow> js_error + string" where
  "toString Undefined = Inl (TypeError ''Cannot read properties of undefined (reading 'toString')'')"
| "toString Null = Inl (TypeError ''Cannot read properties of null (reading 'toString')'')"
| "toString v = Inr (toText v)"

section \<open>The positional encoder\<close>

text \<open>A field definition \<open>{ value, pos, len }\<close> with a 1-based position.\<close>

record field_def =
  val :: jsval
  pos :: nat
  len :: nat

type_synonym record_instance = "(string \<times> field_def) list"

text \<open>
  \<open>if (pos + i < line.length) line[pos + i] = c\<close>. An index below zero (a field with
  \<open>pos: 0\<close>) sets a property of the array object that \<open>join\<close> does not read.
\<close>

definition putChar :: "string \<Rightarrow> int \<Rightarrow> char \<Rightarrow> string" where
  "putChar line j c = (if j < int (length line) then (if 0 \<le> j then line[nat j := c] else line) else line)"

text \<open>\<open>for (let i = 0; i < Math.min(len, value.length); i++) ...\<close>\<close>

definition placeValue :: "string \<Rightarrow> nat \<Rightarrow> nat \<Rightarrow> string \<Rightarrow> string" where
  "placeValue line p l v =
     fold (\<lambda>i ln. putChar ln (int p - 1 + int i) (v ! i)) [0 ..< min l (length v)] line"

text \<open>The job and WIP encoders write a field only when its value is truthy.\<close>

definition writeJobField :: "string \<Rightarrow> field_def \<Rightarrow> js_error + string" where
  "writeJobField line d =
     (if truthy (val d)
      then (case toString (val d) of
              Inl e \<Rightarrow> Inl e
            | Inr v \<Rightarrow> Inr (placeValue line (pos d) (len d) v))
      else Inr line)"

text \<open>The customer encoder writes every value that is not \<open>undefined\<close>.\<close>

definition writeCustomerField :: "string \<Rightarrow> field_def \<Rightarrow> js_error + string" where
  "writeCustomerField line d =
     (if val d \<noteq> Undefined
      then (case toString (val d) of
              Inl e \<Rightarrow> Inl e
            | Inr v \<Rightarrow> Inr (placeValue line (pos d) (len d) v))
      else Inr line)"

text \<open>The loop over \<open>Object.entries(record)\<close>; an exception ends it.\<close>

fun writeFields :: "(string \<Rightarrow> field_def \<Rightarrow> js_error + string) \<Rightarrow> string \<Rightarrow> record_instance
    \<Rightarrow> js_error + string" where
  "writeFields w line [] = Inr line"
| "writeFields w line ((name, d) # fs) =
     (case w line d of Inl e \<Rightarrow> Inl e | Inr line' \<Rightarrow> writeFields w line' fs)"

text \<open>\<open>new Array(560 + 1).join(' ').split('')\<close>: 561 empty slots joined by 560 spaces.\<close>

definition jobBlankLine :: string where
  "jobBlankLine = replicate (561 - 1) CHR '' ''"

text \<open>\<open>new Array(758).fill(' ')\<close>\<close>

definition customerBlankLine :: string where
  "customerBlankLine = replicate 758 CHR '' ''"

definition encodeJob :: "record_instance \<Rightarrow> js_error + string" where
  "encodeJob job = writeFields writeJobField jobBlankLine job"

definition encodeCustomer :: "record_instance \<Rightarrow> js_error + string" where
  "encodeCustomer customer = writeFields writeCustomerField customerBlankLine customer"

text \<open>\<open>result += line.join('') + '\n'\<close> for each record, in order.\<close>

fun encodeAll :: "(record_instance \<Rightarrow> js_error + string) \<Rightarrow> record_instance list
    \<Rightarrow> js_error + string" where
  "encodeAll enc [] = Inr []"
| "encodeAll enc (r # rs) =
     (case enc r of
        Inl e \<Rightarrow> Inl e
      | Inr line \<Rightarrow> (case encodeAll enc rs of
                       Inl e \<Rightarrow> Inl e
                     | Inr rest \<Rightarrow> Inr (line @ [CHR 0x0A] @ rest)))"

text \<open>\<open>MonarchImporter.generateFixedWidthFile(jobs)\<close>\<close>

definition generateFixedWidthFile :: "record_instance list \<Rightarrow> js_error + string" where
  "generateFixedWidthFile jobs = encodeAll encodeJob jobs"


section \<open>String methods\<close>

text \<open>\<open>s.substring(0, n)\<close>\<close>

definition substring0 :: "string \<Rightarrow> nat \<Rightarrow> string" where
  "substring0 s n = take n s"

text \<open>\<open>s.padEnd(n, c)\<close>\<close>

definition padEnd :: "nat \<Rightarrow> char \<Rightarrow> string \<Rightarrow> string" where
  "padEnd n c s = s @ replicate (n - length s) c"


text \<open>White space and line terminators among the code units below 256.\<close>

definition isSpace :: "char \<Rightarrow> bool" where
  "isSpace c = (c \<in> set [CHR 0x09, CHR 0x0A, CHR 0x0B, CHR 0x0C, CHR 0x0D, CHR 0x20, CHR 0xA0])"

definition trim :: "string \<Rightarrow> string" where
  "trim s = rev (dropWhile isSpace (rev (dropWhile isSpace s)))"

definition lowerChar :: "char \<Rightarrow> char" where
  "lowerChar c =
     (let n = (of_char c :: nat)
      in if (65 \<le> n \<and> n \<le> 90) \<or> (192 \<le> n \<and> n \<le> 222 \<and> n \<noteq> 215)
         then char_of (n + 32) else c)"

definition toLowerCase :: "string \<Rightarrow> string" where
  "toLowerCase s = map lowerChar s"

text \<open>\<open>s.includes(sep)\<close>\<close>

fun includesStr :: "string \<Rightarrow> string \<Rightarrow> bool" where
  "includesStr sep [] = (sep = [])"
| "includesStr sep (c # cs) = (take (length sep) (c # cs) = sep \<or> includesStr sep cs)"

text \<open>\<open>s.split(sep)\<close> for a separator that is not empty; \<open>acc\<close> is the part being read, reversed.\<close>

fun splitAux :: "string \<Rightarrow> string \<Rightarrow> string \<Rightarrow> string list" where
  "splitAux sep acc [] = [rev acc]"
| "splitAux sep acc (c # cs) =
     (if take (length sep) (c # cs) = sep
      then rev acc # splitAux sep [] (drop (length sep - 1) cs)
      else splitAux sep (c # acc) cs)"

definition split :: "string \<Rightarrow> string \<Rightarrow> string list" where
  "split sep s = splitAux sep [] s"

text \<open>\<open>s.replace(/"/g, '""')\<close>\<close>

definition doubleQuotes :: "string \<Rightarrow> string" where
  "doubleQuotes s = concat (map (\<lambda>c. if c = CHR 0x22 then [CHR 0x22, CHR 0x22] else [c]) s)"

text \<open>\<open>s.replace(/^0+/, match => ' '.repeat(match.length))\<close>\<close>

definition blankLeadingZeros :: "string \<Rightarrow> string" where
  "blankLeadingZeros s =
     replicate (length (takeWhile (\<lambda>c. c = CHR ''0'') s)) CHR '' '' @ dropWhile (\<lambda>c. c = CHR ''0'') s"

text \<open>\<open>parts.join(sep)\<close> on strings\<close>

fun joinWith :: "string \<Rightarrow> string list \<Rightarrow> string" where
  "joinWith sep [] = []"
| "joinWith sep [x] = x"
| "joinWith sep (x # y # ys) = x @ sep @ joinWith sep (y # ys)"

section \<open>Rows\<close>

text \<open>
  A decoded row is an object whose keys are the header names, kept in the order of
  their first insertion. \<open>row[k]\<close> is \<open>undefined\<close> for an absent key.
\<close>

type_synonym row = "(string \<times> jsval) list"

definition getProp :: "row \<Rightarrow> string \<Rightarrow> jsval" where
  "getProp r k = (case map_of r k of None \<Rightarrow> Undefined | Some v \<Rightarrow> v)"

section \<open>CustomerListImporter\<close>

text \<open>\<open>(customer.k || d).toString().substring(0, n)\<close>; the receiver of \<open>toString\<close> is truthy or the literal \<open>d\<close>.\<close>

definition textOr :: "row \<Rightarrow> string \<Rightarrow> string \<Rightarrow> nat \<Rightarrow> string" where
  "textOr customer k d n = substring0 (toText (jsOr (getProp customer k) (Str d))) n"

text \<open>\<open>customer.k ? customer.k.toString().substring(0, n) : ''\<close>\<close>

definition textIf :: "row \<Rightarrow> string \<Rightarrow> nat \<Rightarrow> string" where
  "textIf customer k n =
     (if truthy (getProp customer k) then substring0 (toText (getProp customer k)) n else [])"

definition fld :: "jsval \<Rightarrow> nat \<Rightarrow> nat \<Rightarrow> field_def" where
  "fld v p l = \<lparr>val = v, pos = p, len = l\<rparr>"

text \<open>
  The body of the \<open>map\<close> callback of \<open>mapCustomerListToMonarch\<close>. \<open>custCode\<close> is the
  counter after its increment and \<open>today\<close> is \<open>this.formatDate(new Date())\<close>.
\<close>

definition mapCustomer :: "string \<Rightarrow> int \<Rightarrow> row \<Rightarrow> record_instance" where
  "mapCustomer today custCode customer =
    (let custName = textOr customer ''accountName'' [] 40;
         address1 = textOr customer ''btStreet'' [] 40;
         address2 = textOr customer ''btAddress2'' [] 40;
         address3 = textOr customer ''btAddress3'' [] 40;
         city = textOr customer ''btCity'' [] 40;
         state = textOr customer ''btState'' [] 3;
         zip = textOr customer ''btZip'' [] 10;
         country = textOr customer ''btCountry'' ''USA'' 40;
         phone = textOr customer ''btTelephone'' [] 20;
         fax = textOr customer ''btFax'' [] 20;
         email = [];
         arTaxCode = textOr customer ''taxItem'' [] 10;
         termsCode = textOr customer ''btTerms'' [] 20;
         salesAgentId = textOr customer ''salesmanID'' ''000000000'' 8;
         csrId = textOr customer ''csrID'' ''000'' 3;
         poRequired = (if getProp customer ''requirePO'' = Str ''Y'' then ''1'' else ''0'')
     in [(''Cust-code'', fld (Num custCode) 1 8),
         (''Cust-name'', fld (Str custName) 9 40),
         (''Address-1'', fld (Str address1) 49 40),
         (''Address-2'', fld (Str address2) 89 40),
         (''Address-3'', fld (Str address3) 129 40),
         (''City'', fld (Str city) 169 40),
         (''State'', fld (Str state) 209 3),
         (''Zip'', fld (Str zip) 212 10),
         (''Country'', fld (Str country) 222 40),
         (''Phone'', fld (Str phone) 262 20),
         (''FAX'', fld (Str fax) 282 20),
         (''E-Mail-Address'', fld (Str email) 302 80),
         (''AR-Tax-Code'', fld (Str arTaxCode) 382 10),
         (''Terms-Code'', fld (Str termsCode) 392 20),
         (''Sales-agent-id'', fld (Str salesAgentId) 412 8),
         (''CSR-ID'', fld (Str csrId) 420 3),
         (''territory-id'', fld (Str []) 423 12),
         (''Cust-ID-Bill-to'', fld (Str []) 435 8),
         (''Group-ID'', fld (Str []) 443 12),
         (''Priority'', fld (Str ''Normal'') 455 10),
         (''Estimate-Markup-Pct'', fld (Str []) 465 6),
         (''Overs-Allowed'', fld (Str []) 471 5),
         (''Date-First-Order'', fld (Str today) 476 10),
         (''PO-Required'', fld (Str poRequired) 486 1),
         (''AR-Stmt'', fld (Str ''1'') 487 1),
         (''AR-Stmt-Dunning-Msg'', fld (Str ''0'') 488 1),
         (''Inter-company'', fld (Str ''0'') 489 1),
         (''System-ID-Inter-company'', fld (Str []) 490 12),
         (''Bank'', fld (Str []) 502 20),
         (''Bank-acct-num'', fld (Str []) 522 20),
         (''Sales-tax-exempt'',
            fld (Str (if truthy (getProp customer ''taxExemptionCertificate'') then ''1'' else ''0'')) 542 20),
         (''Credit-Limit'', fld (Str ''0'') 562 14),
         (''Shipment-Method-ID'', fld (Str (textIf customer ''shipMethod'' 8)) 576 8),
         (''Tax-Number'', fld (jsOr (getProp customer ''taxExemptionCertificate'') (Str [])) 584 20),
         (''Addl-Tax-Number'', fld (Str []) 604 20),
         (''Industry-Code'', fld (Str (textIf customer ''accountType'' 8)) 624 8),
         (''Locale-ID'', fld (Str ''en_US'') 632 6),
         (''Prograph-Customer-Type'', fld (Str ''0'') 638 1),
         (''Prograph-Shipper'', fld (Str ''0'') 639 1),
         (''Prograph-Paper-Owner'', fld (Str ''0'') 640 1),
         (''Prograph-Advertiser'', fld (Str ''0'') 641 1),
         (''Prograph-Advertising-Agency'', fld (Str ''0'') 642 1),
         (''Allow-PSF-Access'', fld (Str ''0'') 643 1),
         (''PSF-Auto-Accept-Orders'', fld (Str ''0'') 644 1),
         (''PrinterSite-Exchange'', fld (Str ''0'') 645 1),
         (''Available-in-PrintStream'', fld (Str ''0'') 646 1),
         (''PS-Fulfillment'', fld (Str []) 647 8),
         (''PS-Franchise-Number'', fld (Str []) 655 30),
         (''PS-Store-Number'', fld (Str []) 685 30),
         (''PS-Credit-Hold'', fld (Str ''0'') 715 1),
         (''AR-Stmt-Finance-Chrg'', fld (Str ''0'') 716 1),
         (''Allow-OPS'', fld (Str ''0'') 717 1),
         (''iQuote-Customer-ID'', fld (Str []) 718 15),
         (''ARStatementDelivery'', fld (Str ''Printer'') 733 7),
         (''BatchCloseInvDelivery'', fld (Str ''Printer'') 740 7),
         (''PointOfTitleTransfer'', fld (Str ''Origin'') 747 11)])"

text \<open>
  \<open>mapCustomerListToMonarch\<close>: \<open>custCode\<close> starts at 0 and is incremented before each
  row; \<open>clock i\<close> is the formatted current date read while row \<open>i\<close> is mapped.
\<close>

definition mapCustomerListToMonarch :: "(nat \<Rightarrow> string) \<Rightarrow> row list \<Rightarrow> record_instance list" where
  "mapCustomerListToMonarch clock customerListData =
     map (\<lambda>i. mapCustomer (clock i) (int i + 1) (customerListData ! i)) [0 ..< length customerListData]"

definition generateCustomerImportFile :: "(nat \<Rightarrow> string) \<Rightarrow> row list \<Rightarrow> js_error + string" where
  "generateCustomerImportFile clock customerListData =
     encodeAll encodeCustomer (mapCustomerListToMonarch clock customerListData)"

text \<open>The layout of a record: name, position and length of each field, in order.\<close>

definition layoutOf :: "record_instance \<Rightarrow> (string \<times> nat \<times> nat) list" where
  "layoutOf r = map (\<lambda>(name, d). (name, pos d, len d)) r"

section \<open>Byte ranges and layouts\<close>

text \<open>The characters \<open>[a, a + n)\<close> of a line, and a value cut or padded with spaces to \<open>n\<close> characters.\<close>

definition slice :: "string \<Rightarrow> nat \<Rightarrow> nat \<Rightarrow> string" where
  "slice line a n = take n (drop a line)"

definition fixedWidth :: "nat \<Rightarrow> string \<Rightarrow> string" where
  "fixedWidth n v = take n v @ replicate (n - length v) CHR '' ''"

fun contiguousFrom :: "nat \<Rightarrow> (string \<times> nat \<times> nat) list \<Rightarrow> bool" where
  "contiguousFrom s [] = True"
| "contiguousFrom s ((name, p, l) # fs) = (p = s \<and> contiguousFrom (s + l) fs)"

fun layoutEnd :: "nat \<Rightarrow> (string \<times> nat \<times> nat) list \<Rightarrow> nat" where
  "layoutEnd s [] = s"
| "layoutEnd s ((name, p, l) # fs) = layoutEnd (p + l) fs"

definition writeField :: "(jsval \<Rightarrow> bool) \<Rightarrow> string \<Rightarrow> field_def \<Rightarrow> js_error + string" where
  "writeField g line d =
     (if g (val d)
      then (case toString (val d) of
              Inl e \<Rightarrow> Inl e
            | Inr v \<Rightarrow> Inr (placeValue line (pos d) (len d) v))
      else Inr line)"

text \<open>The byte range of a field in the outcome of an encoder.\<close>

definition fieldRange :: "js_error + string \<Rightarrow> field_def \<Rightarrow> js_error + string" where
  "fieldRange r d = (case r of Inl e \<Rightarrow> Inl e | Inr line \<Rightarrow> Inr (slice line (pos d - 1) (len d)))"

text \<open>No two fields of a layout share a byte.\<close>

fun nonOverlapping :: "(string \<times> nat \<times> nat) list \<Rightarrow> bool" where
  "nonOverlapping [] = True"
| "nonOverlapping ((name, p, l) # fs) =
     ((\<forall>(name', p', l') \<in> set fs. p + l \<le> p' \<or> p' + l' \<le> p) \<and> nonOverlapping fs)"

text \<open>No value of the record is \<open>null\<close>.\<close>

definition noNull :: "record_instance \<Rightarrow> bool" where
  "noNull r = list_all (\<lambda>(name, d). val d \<noteq> Null) r"

text \<open>What a field leaves in its byte range under an encoder that writes the values passing \<open>g\<close>.\<close>

definition fieldImage :: "(jsval \<Rightarrow> bool) \<Rightarrow> field_def \<Rightarrow> string" where
  "fieldImage g d =
     (if g (val d) then fixedWidth (len d) (toText (val d)) else replicate (len d) CHR '' '')"


section \<open>MonarchImporter\<close>

text \<open>
  \<open>parseCSV\<close> runs PapaParse with \<open>header: true\<close> and a \<open>transform\<close> that trims, and
  without dynamic typing: every cell of a customer or order row is a string.
\<close>

type_synonym srow = "(string \<times> string) list"

definition cell :: "srow \<Rightarrow> string \<Rightarrow> jsval" where
  "cell r k = (case map_of r k of None \<Rightarrow> Undefined | Some s \<Rightarrow> Str s)"

text \<open>\<open>r[k] || d\<close>, a string since the cell is one\<close>

definition cellOr :: "srow \<Rightarrow> string \<Rightarrow> string \<Rightarrow> string" where
  "cellOr r k d = toText (jsOr (cell r k) (Str d))"

definition cleanProductDescription :: "string \<Rightarrow> string" where
  "cleanProductDescription description =
     (if description = [] then []
      else if toLowerCase (trim description) = ''shipping'' then description
      else if includesStr '' : '' description then
        (case split '' : '' description of
           p0 # p1 # _ \<Rightarrow>
             (let pre = trim p0
              in if includesStr '' - Sample'' p1
                 then pre @ '' : '' @ trim (hd (split '' - Sample'' p1))
                 else if includesStr '' - '' p1
                 then pre @ '' : '' @ trim (hd (split '' - '' p1))
                 else description)
         | _ \<Rightarrow> description)
      else description)"

text \<open>
  What the claims do not depend on is taken as given: the rendering of a date string by
  \<open>this.formatDate(new Date(s))\<close>, the rendering of \<open>parseFloat(s).toFixed(n)\<close>, and the
  customer directory. \<open>searchCustomers n q\<close> is the outcome of the call number \<open>n\<close> (from 0)
  of one run, made with the query \<open>q\<close>.
\<close>

text \<open>
  The outcome of \<open>await searchCustomers(q)\<close>: a rejection with \<open>error.message\<close>, or the
  decoded JSON. \<open>Returned None\<close> is a value that is falsy or not an array;
  \<open>Returned (Some ids)\<close> is an array of objects, given by the \<open>customer_id\<close> of each
  (\<open>Undefined\<close> where the object has none).
\<close>

datatype search_outcome = Threw string | Returned "jsval list option"

record env =
  formatDateOf :: "string \<Rightarrow> string"
  toFixed :: "nat \<Rightarrow> string \<Rightarrow> string"
  searchCustomers :: "nat \<Rightarrow> jsval \<Rightarrow> search_outcome"

record rejected_order =
  rj_invoiceNumber :: string
  rj_customerName :: string
  rj_productName :: string
  rj_poNumber :: string
  rj_dueDate :: string
  rj_amount :: string
  rj_reason :: string

text \<open>\<open>invoiceNumber.toString().padEnd(8, ' ').substring(0, 8)\<close>, then the leading zeros blanked\<close>

definition jobIdOfInvoice :: "string \<Rightarrow> string" where
  "jobIdOfInvoice invoiceNumber = blankLeadingZeros (substring0 (padEnd 8 CHR '' '' invoiceNumber) 8)"

text \<open>\<open>i.toString().padEnd(4, ' ').substring(0, 4)\<close>\<close>

definition subJobIdOf :: "nat \<Rightarrow> string" where
  "subJobIdOf i = substring0 (padEnd 4 CHR '' '' (numToString (int i))) 4"

definition contactNameOf :: "srow list \<Rightarrow> string \<Rightarrow> string" where
  "contactNameOf customerData customerName =
     (case find (\<lambda>c. cell c ''Customer ID'' = Str customerName) customerData of
        None \<Rightarrow> []
      | Some c \<Rightarrow> trim (cellOr c ''Bill to Contact First Name'' [] @ '' '' @
                         cellOr c ''Bill to Contact Last Name'' []))"

definition qtyOf :: "env \<Rightarrow> srow \<Rightarrow> string" where
  "qtyOf e order =
     (if truthy (cell order ''Line: Quantity'')
      then toFixed e 0 (cellOr order ''Line: Quantity'' []) else ''0'')"

definition priceOf :: "env \<Rightarrow> srow \<Rightarrow> string" where
  "priceOf e order =
     (if truthy (cell order ''Line: Unit price'')
      then toFixed e 2 (cellOr order ''Line: Unit price'' []) else ''0.00'')"

definition amountOf :: "env \<Rightarrow> srow \<Rightarrow> string" where
  "amountOf e order =
     (if truthy (cell order ''Line: Amount'')
      then toFixed e 2 (cellOr order ''Line: Amount'' []) else ''0.00'')"

text \<open>
  The object literal pushed for a job. The main job and the sub-jobs use the same
  literal; they differ in \<open>sub_job_id\<close> and in the order line the quantities, prices
  and product name are read from.
\<close>

definition jobRecord :: "env \<Rightarrow> string \<Rightarrow> string \<Rightarrow> string \<Rightarrow> string \<Rightarrow> string \<Rightarrow> string
    \<Rightarrow> string \<Rightarrow> srow \<Rightarrow> record_instance" where
  "jobRecord e jobId subJobId monarchCustomerId poNumber dueDate shipDate contactName order =
    (let productName = cleanProductDescription (cellOr order ''Line: Product Name'' [])
     in [(''job_id'', fld (Str jobId) 1 8),
         (''sub_job_id'', fld (Str subJobId) 9 4),
         (''job_description'', fld (Str (substring0 productName 254)) 13 254),
         (''job_type'', fld (Str ''Production'') 267 19),
         (''item_id'', fld (Str []) 286 15),
         (''cust_ordered_by'', fld (Str monarchCustomerId) 301 8),
         (''cust_billed_to'', fld (Str monarchCustomerId) 309 8),
         (''sales_class_id'', fld (Str ''113'') 317 8),
         (''po_number'', fld (Str (substring0 poNumber 20)) 325 20),
         (''date_promised'', fld (Str dueDate) 345 10),
         (''ship_date'', fld (Str shipDate) 355 10),
         (''qty_ordered'', fld (Str (qtyOf e order)) 365 11),
         (''priority'', fld (Str []) 376 10),
         (''contact_name'', fld (Str (substring0 contactName 30)) 386 30),
         (''expense_code'', fld (Str []) 416 24),
         (''shop_floor_active'', fld (Str ''0'') 440 1),
         (''form_number'', fld (Str []) 441 20),
         (''quotation_amount'', fld (Str (amountOf e order)) 461 15),
         (''unit_of_measure_id'', fld (Str ''Each'') 476 4),
         (''unit_price'', fld (Str (priceOf e order)) 480 16),
         (''job_title'', fld (Str (substring0 productName 50)) 496 50),
         (''forest_type_id'', fld (Str []) 546 15)])"

datatype group_result = Rejected rejected_order | Accepted record_instance "record_instance list"

text \<open>
  One pass of the loop over the invoices, for a group \<open>firstOrder # rest\<close>. The
  conversion \<open>monarchCustomerId.toString()\<close> stands after the \<open>try\<close> block: its
  exception leaves \<open>mapOrdersToMonarch\<close>.
\<close>

definition processInvoice :: "env \<Rightarrow> srow list \<Rightarrow> nat \<Rightarrow> string \<Rightarrow> srow \<Rightarrow> srow list
    \<Rightarrow> js_error + group_result" where
  "processInvoice e customerData callNo invoiceNumber firstOrder rest =
    (let orders = firstOrder # rest;
         jobId = jobIdOfInvoice invoiceNumber;
         dueDate = (if truthy (cell firstOrder ''Due date'')
                    then formatDateOf e (cellOr firstOrder ''Due date'' []) else []);
         shipDate = (if truthy (cell firstOrder ''Shipping date'')
                     then formatDateOf e (cellOr firstOrder ''Shipping date'' []) else []);
         poNumber = cellOr firstOrder ''Custom Field 1-po#'' [];
         customerName = cellOr firstOrder ''Customer Name'' [];
         rejectedOrder = (\<lambda>why.
            \<lparr>rj_invoiceNumber = invoiceNumber,
             rj_customerName = customerName,
             rj_productName = cellOr firstOrder ''Line: Product Name'' [],
             rj_poNumber = poNumber,
             rj_dueDate = dueDate,
             rj_amount = cellOr firstOrder ''Line: Amount'' [],
             rj_reason = why\<rparr>)
     in case searchCustomers e callNo (Str customerName) of
          Threw msg \<Rightarrow> Inr (Rejected (rejectedOrder (''API Error: '' @ msg)))
        | Returned None \<Rightarrow> Inr (Rejected (rejectedOrder ''Customer not found in Monarch database''))
        | Returned (Some []) \<Rightarrow> Inr (Rejected (rejectedOrder ''Customer not found in Monarch database''))
        | Returned (Some (customer_id # _)) \<Rightarrow>
            (case toString customer_id of
               Inl err \<Rightarrow> Inl err
             | Inr idText \<Rightarrow>
                 (let monarchCustomerId = substring0 idText 8;
                      contactName = contactNameOf customerData customerName
                  in Inr (Accepted
                       (jobRecord e jobId ''    '' monarchCustomerId poNumber dueDate shipDate
                          contactName firstOrder)
                       (map (\<lambda>i. jobRecord e jobId (subJobIdOf i) monarchCustomerId poNumber dueDate
                                   shipDate contactName (orders ! i))
                            [1 ..< length orders])))))"

text \<open>
  \<open>ordersByInvoice\<close> is a plain object. For a key that \<open>Object.prototype\<close> defines, the
  test \<open>!ordersByInvoice[invoiceNumber]\<close> reads the inherited member, which is truthy
  and has no \<open>push\<close>.
\<close>

definition protoKeys :: "string list" where
  "protoKeys = [''constructor'', ''hasOwnProperty'', ''isPrototypeOf'', ''propertyIsEnumerable'',
     ''toLocaleString'', ''toString'', ''valueOf'', ''__defineGetter__'', ''__defineSetter__'',
     ''__lookupGetter__'', ''__lookupSetter__'', ''__proto__'']"

fun groupOrders :: "(string \<times> srow list) list \<Rightarrow> srow list \<Rightarrow> js_error + (string \<times> srow list) list" where
  "groupOrders groups [] = Inr groups"
| "groupOrders groups (order # orders) =
     (let invoiceNumber = cellOr order ''Invoice Number'' []
      in case map_of groups invoiceNumber of
           Some os \<Rightarrow> groupOrders (AList.update invoiceNumber (os @ [order]) groups) orders
         | None \<Rightarrow>
             if invoiceNumber \<in> set protoKeys
             then Inl (TypeError ''ordersByInvoice[invoiceNumber].push is not a function'')
             else groupOrders (groups @ [(invoiceNumber, [order])]) orders)"

text \<open>
  \<open>Object.entries\<close> lists the keys that are array indices (canonical decimal numerals
  below \<open>2^32 - 1\<close>) in ascending order, then the other keys in insertion order.
\<close>

definition isDigit :: "char \<Rightarrow> bool" where
  "isDigit c = (c \<in> set ''0123456789'')"

definition natOfDigits :: "string \<Rightarrow> nat" where
  "natOfDigits s = foldl (\<lambda>n c. 10 * n + (of_char c - 48)) 0 s"

definition isArrayIndex :: "string \<Rightarrow> bool" where
  "isArrayIndex k =
     (k \<noteq> [] \<and> list_all isDigit k \<and> (k = ''0'' \<or> hd k \<noteq> CHR ''0'') \<and> natOfDigits k < 2 ^ 32 - 1)"

definition objectEntries :: "(string \<times> 'a) list \<Rightarrow> (string \<times> 'a) list" where
  "objectEntries obj =
     sort_key (\<lambda>(k, v). natOfDigits k) (filter (\<lambda>(k, v). isArrayIndex k) obj)
     @ filter (\<lambda>(k, v). \<not> isArrayIndex k) obj"

record map_state =
  mainJobs :: "record_instance list"
  subJobs :: "record_instance list"
  rejectedOrders :: "rejected_order list"

fun processGroups :: "env \<Rightarrow> srow list \<Rightarrow> nat \<Rightarrow> (string \<times> srow list) list \<Rightarrow> map_state
    \<Rightarrow> js_error + map_state" where
  "processGroups e customerData callNo [] st = Inr st"
| "processGroups e customerData callNo ((invoiceNumber, orders) # gs) st =
     (case orders of
        [] \<Rightarrow> processGroups e customerData callNo gs st
      | firstOrder # rest \<Rightarrow>
          (case processInvoice e customerData callNo invoiceNumber firstOrder rest of
             Inl err \<Rightarrow> Inl err
           | Inr (Rejected r) \<Rightarrow>
               processGroups e customerData (Suc callNo) gs
                 (st\<lparr>rejectedOrders := rejectedOrders st @ [r]\<rparr>)
           | Inr (Accepted m subs) \<Rightarrow>
               processGroups e customerData (Suc callNo) gs
                 (st\<lparr>mainJobs := mainJobs st @ [m], subJobs := subJobs st @ subs\<rparr>)))"

definition mapOrdersToMonarch :: "env \<Rightarrow> srow list \<Rightarrow> srow list \<Rightarrow> js_error + map_state" where
  "mapOrdersToMonarch e customerData orderData =
     (case groupOrders [] orderData of
        Inl err \<Rightarrow> Inl err
      | Inr ordersByInvoice \<Rightarrow>
          processGroups e customerData 0 (objectEntries ordersByInvoice)
            \<lparr>mainJobs = [], subJobs = [], rejectedOrders = []\<rparr>)"

text \<open>The layout of the job, sub-job and WIP records.\<close>

definition jobLayout :: "(string \<times> nat \<times> nat) list" where
  "jobLayout =
    [(''job_id'', 1, 8), (''sub_job_id'', 9, 4), (''job_description'', 13, 254),
     (''job_type'', 267, 19), (''item_id'', 286, 15), (''cust_ordered_by'', 301, 8),
     (''cust_billed_to'', 309, 8), (''sales_class_id'', 317, 8), (''po_number'', 325, 20),
     (''date_promised'', 345, 10), (''ship_date'', 355, 10), (''qty_ordered'', 365, 11),
     (''priority'', 376, 10), (''contact_name'', 386, 30), (''expense_code'', 416, 24),
     (''shop_floor_active'', 440, 1), (''form_number'', 441, 20), (''quotation_amount'', 461, 15),
     (''unit_of_measure_id'', 476, 4), (''unit_price'', 480, 16), (''job_title'', 496, 50),
     (''forest_type_id'', 546, 15)]"

text \<open>The layout of the customer record.\<close>

definition customerLayout :: "(string \<times> nat \<times> nat) list" where
  "customerLayout =
    [(''Cust-code'', 1, 8), (''Cust-name'', 9, 40), (''Address-1'', 49, 40), (''Address-2'', 89, 40),
     (''Address-3'', 129, 40), (''City'', 169, 40), (''State'', 209, 3), (''Zip'', 212, 10),
     (''Country'', 222, 40), (''Phone'', 262, 20), (''FAX'', 282, 20), (''E-Mail-Address'', 302, 80),
     (''AR-Tax-Code'', 382, 10), (''Terms-Code'', 392, 20), (''Sales-agent-id'', 412, 8),
     (''CSR-ID'', 420, 3), (''territory-id'', 423, 12), (''Cust-ID-Bill-to'', 435, 8),
     (''Group-ID'', 443, 12), (''Priority'', 455, 10), (''Estimate-Markup-Pct'', 465, 6),
     (''Overs-Allowed'', 471, 5), (''Date-First-Order'', 476, 10), (''PO-Required'', 486, 1),
     (''AR-Stmt'', 487, 1), (''AR-Stmt-Dunning-Msg'', 488, 1), (''Inter-company'', 489, 1),
     (''System-ID-Inter-company'', 490, 12), (''Bank'', 502, 20), (''Bank-acct-num'', 522, 20),
     (''Sales-tax-exempt'', 542, 20), (''Credit-Limit'', 562, 14), (''Shipment-Method-ID'', 576, 8),
     (''Tax-Number'', 584, 20), (''Addl-Tax-Number'', 604, 20), (''Industry-Code'', 624, 8),
     (''Locale-ID'', 632, 6), (''Prograph-Customer-Type'', 638, 1), (''Prograph-Shipper'', 639, 1),
     (''Prograph-Paper-Owner'', 640, 1), (''Prograph-Advertiser'', 641, 1),
     (''Prograph-Advertising-Agency'', 642, 1), (''Allow-PSF-Access'', 643, 1),
     (''PSF-Auto-Accept-Orders'', 644, 1), (''PrinterSite-Exchange'', 645, 1),
     (''Available-in-PrintStream'', 646, 1), (''PS-Fulfillment'', 647, 8),
     (''PS-Franchise-Number'', 655, 30), (''PS-Store-Number'', 685, 30), (''PS-Credit-Hold'', 715, 1),
     (''AR-Stmt-Finance-Chrg'', 716, 1), (''Allow-OPS'', 717, 1), (''iQuote-Customer-ID'', 718, 15),
     (''ARStatementDelivery'', 733, 7), (''BatchCloseInvDelivery'', 740, 7),
     (''PointOfTitleTransfer'', 747, 11)]"

subsection \<open>The rejection report of the job import\<close>

definition csvQuote :: "string \<Rightarrow> string" where
  "csvQuote s = [CHR 0x22] @ doubleQuotes s @ [CHR 0x22]"

definition rejectionHeaders :: "string list" where
  "rejectionHeaders = [''Invoice Number'', ''Customer Name'', ''Product'', ''PO Number'',
     ''Due Date'', ''Amount'', ''Rejection Reason'']"

definition rejectionRow :: "rejected_order \<Rightarrow> string" where
  "rejectionRow order =
     joinWith '','' [rj_invoiceNumber order, csvQuote (rj_customerName order),
       csvQuote (rj_productName order), csvQuote (rj_poNumber order), rj_dueDate order,
       rj_amount order, csvQuote (rj_reason order)]"

definition generateRejectionFile :: "rejected_order list \<Rightarrow> string" where
  "generateRejectionFile rejected =
     (if length rejected = 0 then ''No rejected orders.''
      else joinWith '','' rejectionHeaders @ [CHR 0x0A]
           @ concat (map (\<lambda>order. rejectionRow order @ [CHR 0x0A]) rejected))"

section \<open>WIPImporter\<close>

text \<open>
  A row of the sheet is an object built from the header cells; a cell is a string, a
  number or a boolean as SheetJS decodes it, and \<open>''\<close> where the sheet has none.
\<close>

definition nonEmpty :: "jsval \<Rightarrow> bool" where
  "nonEmpty v = (v \<noteq> Undefined \<and> v \<noteq> Str [])"

text \<open>
  \<open>findColumn\<close>: for each candidate name the exact key, then the keys of the row in
  order, compared in lower case and trimmed.
\<close>

fun findColumn :: "row \<Rightarrow> string list \<Rightarrow> jsval" where
  "findColumn r [] = Str []"
| "findColumn r (name # names) =
     (if nonEmpty (getProp r name) then getProp r name
      else (case find (\<lambda>key. trim (toLowerCase key) = trim (toLowerCase name) \<and> nonEmpty (getProp r key))
                   (map fst r) of
              Some key \<Rightarrow> getProp r key
            | None \<Rightarrow> findColumn r names))"

text \<open>The pattern \<open>/^\d{4,7}$/\<close>: the whole string is four to seven decimal digits.\<close>

definition matchesOrderIdPattern :: "string \<Rightarrow> bool" where
  "matchesOrderIdPattern s = (4 \<le> length s \<and> length s \<le> 7 \<and> list_all isDigit s)"

definition isValidOrderId :: "jsval \<Rightarrow> bool" where
  "isValidOrderId orderId =
     (if \<not> truthy orderId then False
      else matchesOrderIdPattern (trim (toText orderId)))"

definition orderIdColumns :: "string list" where
  "orderIdColumns = [''Order ID'', ''OrderID'', ''Order Id'', ''order id'', ''ORDER ID'', ''Job ID'',
     ''JobID'', ''Job Number'', ''Order Number'', ''Order #'']"

definition customerNameColumns :: "string list" where
  "customerNameColumns = [''Customer Name'', ''CustomerName'', ''Customer'', ''customer name'',
     ''CUSTOMER NAME'', ''Client Name'', ''Client'']"

definition salespersonColumns :: "string list" where
  "salespersonColumns = [''Salesperson'', ''Sales Person'', ''Sales Rep'', ''SalesRep'', ''salesperson'',
     ''SALESPERSON'', ''Rep'']"

definition csrColumns :: "string list" where
  "csrColumns = [''CSR'', ''csr'', ''Customer Service Rep'', ''Service Rep'']"

definition projectNameColumns :: "string list" where
  "projectNameColumns = [''Project Name'', ''ProjectName'', ''Project'', ''project name'',
     ''PROJECT NAME'', ''Job Name'', ''Description'', ''Job Description'']"

definition orderDateColumns :: "string list" where
  "orderDateColumns = [''Order Date'', ''OrderDate'', ''order date'', ''ORDER DATE'', ''Date Ordered'',
     ''Created Date'']"

definition dueDateColumns :: "string list" where
  "dueDateColumns = [''Due Date'', ''DueDate'', ''due date'', ''DUE DATE'', ''Date Due'', ''Deadline'']"

definition orderValueColumns :: "string list" where
  "orderValueColumns = [''Order Value'', ''OrderValue'', ''order value'', ''ORDER VALUE'', ''Value'',
     ''Amount'', ''Total'', ''Price'']"

record skipped_row =
  sk_rowNumber :: nat
  sk_orderId :: jsval
  sk_customerName :: jsval
  sk_reason :: string

text \<open>
  The body of the \<open>forEach\<close> of \<open>filterValidOrders\<close> for the row at \<open>index\<close>: the row,
  with \<open>_orderId\<close> and \<open>_customerName\<close> stored in it, for \<open>filteredData\<close>, or the entry
  for \<open>skippedRows\<close>.
\<close>

definition filterRow :: "nat \<Rightarrow> row \<Rightarrow> skipped_row + row" where
  "filterRow index r =
     (let orderId = findColumn r orderIdColumns;
          customerName = findColumn r customerNameColumns
      in if isValidOrderId orderId
         then Inr (AList.update ''_customerName'' customerName (AList.update ''_orderId'' orderId r))
         else Inl \<lparr>sk_rowNumber = index + 2,
                   sk_orderId = jsOr orderId (Str ''(empty)''),
                   sk_customerName = jsOr customerName (Str []),
                   sk_reason = (if truthy orderId then ''Invalid Order ID format: '' @ toText orderId
                                else ''Missing Order ID'')\<rparr>)"

record filter_state =
  filteredData :: "row list"
  skippedRows :: "skipped_row list"

fun filterFrom :: "nat \<Rightarrow> row list \<Rightarrow> filter_state \<Rightarrow> filter_state" where
  "filterFrom index [] st = st"
| "filterFrom index (r # rs) st =
     (case filterRow index r of
        Inr kept \<Rightarrow> filterFrom (Suc index) rs (st\<lparr>filteredData := filteredData st @ [kept]\<rparr>)
      | Inl skipped \<Rightarrow> filterFrom (Suc index) rs (st\<lparr>skippedRows := skippedRows st @ [skipped]\<rparr>))"

definition filterValidOrders :: "row list \<Rightarrow> filter_state" where
  "filterValidOrders wipData = filterFrom 0 wipData \<lparr>filteredData = [], skippedRows = []\<rparr>"

text \<open>
  Taken as given: the text \<open>formatDate\<close> builds from a truthy cell through \<open>Date\<close>, the
  text \<open>formatCurrency\<close> builds from a cleaned string through \<open>parseFloat\<close> and
  \<open>toFixed(2)\<close>, and the customer directory.
\<close>

record wip_env =
  dateText :: "jsval \<Rightarrow> string"
  fixed2 :: "string \<Rightarrow> string"
  wipSearchCustomers :: "nat \<Rightarrow> jsval \<Rightarrow> search_outcome"

definition formatDate :: "wip_env \<Rightarrow> jsval \<Rightarrow> string" where
  "formatDate e dateValue = (if \<not> truthy dateValue then [] else dateText e dateValue)"

definition formatCurrency :: "wip_env \<Rightarrow> jsval \<Rightarrow> string" where
  "formatCurrency e v =
     (if \<not> truthy v then ''0.00''
      else fixed2 e (filter (\<lambda>c. c \<noteq> CHR ''$'' \<and> c \<noteq> CHR '','') (toText v)))"

record wip_rejected =
  wr_orderId :: string
  wr_customerName :: jsval
  wr_projectName :: jsval
  wr_dueDate :: string
  wr_orderValue :: string
  wr_reason :: string

record wip_metadata =
  md_customerName :: jsval
  md_salesperson :: jsval
  md_csr :: jsval
  md_orderDate :: string

text \<open>A WIP job: the fields with a position, and the entry \<open>_metadata\<close> that follows them.\<close>

record wip_job =
  wj_fields :: record_instance
  wj_metadata :: wip_metadata

text \<open>\<open>v.substring(0, n)\<close> on a cell: only a string has the method.\<close>

fun substringOf :: "jsval \<Rightarrow> nat \<Rightarrow> js_error + string" where
  "substringOf (Str s) n = Inr (substring0 s n)"
| "substringOf Undefined n = Inl (TypeError ''Cannot read properties of undefined (reading 'substring')'')"
| "substringOf Null n = Inl (TypeError ''Cannot read properties of null (reading 'substring')'')"
| "substringOf v n = Inl (TypeError ''projectName.substring is not a function'')"

datatype wip_result = WipRejected wip_rejected | WipAccepted wip_job

text \<open>\<open>('N' + orderId).padEnd(8, ' ').substring(0, 8)\<close>\<close>

definition wipJobIdOf :: "string \<Rightarrow> string" where
  "wipJobIdOf orderId = substring0 (padEnd 8 CHR '' '' (''N'' @ orderId)) 8"

text \<open>
  One pass of the loop of \<open>mapToMonarchFormat\<close>. The conversions \<open>monarchCustomerId.toString()\<close>
  and \<open>projectName.substring\<close> stand after the \<open>try\<close> block.
\<close>

definition mapWipRow :: "wip_env \<Rightarrow> nat \<Rightarrow> row \<Rightarrow> js_error + wip_result" where
  "mapWipRow e callNo r =
    (let orderId = trim (toText (jsOr (getProp r ''_orderId'') (Str [])));
         customerName = jsOr (getProp r ''_customerName'') (Str []);
         salesperson = findColumn r salespersonColumns;
         csr = findColumn r csrColumns;
         projectName = findColumn r projectNameColumns;
         orderDate = formatDate e (findColumn r orderDateColumns);
         dueDate = formatDate e (findColumn r dueDateColumns);
         orderValue = formatCurrency e (findColumn r orderValueColumns);
         jobId = wipJobIdOf orderId;
         rejectedOrder = (\<lambda>why.
            \<lparr>wr_orderId = orderId, wr_customerName = customerName, wr_projectName = projectName,
             wr_dueDate = dueDate, wr_orderValue = orderValue, wr_reason = why\<rparr>)
     in case wipSearchCustomers e callNo customerName of
          Threw msg \<Rightarrow> Inr (WipRejected (rejectedOrder (''API Error: '' @ msg)))
        | Returned None \<Rightarrow> Inr (WipRejected (rejectedOrder ''Customer not found in Monarch database''))
        | Returned (Some []) \<Rightarrow> Inr (WipRejected (rejectedOrder ''Customer not found in Monarch database''))
        | Returned (Some (customer_id # _)) \<Rightarrow>
            (case toString customer_id of
               Inl err \<Rightarrow> Inl err
             | Inr idText \<Rightarrow>
                 (let monarchCustomerId = substring0 idText 8
                  in case substringOf projectName 254 of
                       Inl err \<Rightarrow> Inl err
                     | Inr description \<Rightarrow>
                         (case substringOf projectName 50 of
                            Inl err \<Rightarrow> Inl err
                          | Inr title \<Rightarrow>
                              Inr (WipAccepted
                                \<lparr>wj_fields =
                                   [(''job_id'', fld (Str jobId) 1 8),
                                    (''sub_job_id'', fld (Str ''    '') 9 4),
                                    (''job_description'', fld (Str description) 13 254),
                                    (''job_type'', fld (Str ''Production'') 267 19),
                                    (''item_id'', fld (Str []) 286 15),
                                    (''cust_ordered_by'', fld (Str monarchCustomerId) 301 8),
                                    (''cust_billed_to'', fld (Str monarchCustomerId) 309 8),
                                    (''sales_class_id'', fld (Str ''113'') 317 8),
                                    (''po_number'', fld (Str []) 325 20),
                                    (''date_promised'', fld (Str dueDate) 345 10),
                                    (''ship_date'', fld (Str []) 355 10),
                                    (''qty_ordered'', fld (Str ''1'') 365 11),
                                    (''priority'', fld (Str []) 376 10),
                                    (''contact_name'', fld (Str []) 386 30),
                                    (''expense_code'', fld (Str []) 416 24),
                                    (''shop_floor_active'', fld (Str ''0'') 440 1),
                                    (''form_number'', fld (Str []) 441 20),
                                    (''quotation_amount'', fld (Str orderValue) 461 15),
                                    (''unit_of_measure_id'', fld (Str ''Each'') 476 4),
                                    (''unit_price'', fld (Str orderValue) 480 16),
                                    (''job_title'', fld (Str title) 496 50),
                                    (''forest_type_id'', fld (Str []) 546 15)],
                                 wj_metadata =
                                   \<lparr>md_customerName = customerName, md_salesperson = salesperson,
                                    md_csr = csr, md_orderDate = orderDate\<rparr>\<rparr>)))))"

text \<open>
  The state of the loop: the jobs and the rejected orders built so far, and the queries
  sent to the customer directory, in order.
\<close>

record wip_state =
  jobs :: "wip_job list"
  wipRejected :: "wip_rejected list"
  queries :: "jsval list"

fun mapWipRows :: "wip_env \<Rightarrow> nat \<Rightarrow> row list \<Rightarrow> wip_state \<Rightarrow> js_error + wip_state" where
  "mapWipRows e callNo [] st = Inr st"
| "mapWipRows e callNo (r # rs) st =
     (let st1 = st\<lparr>queries := queries st @ [jsOr (getProp r ''_customerName'') (Str [])]\<rparr>
      in case mapWipRow e callNo r of
           Inl err \<Rightarrow> Inl err
         | Inr (WipRejected rej) \<Rightarrow>
             mapWipRows e (Suc callNo) rs (st1\<lparr>wipRejected := wipRejected st1 @ [rej]\<rparr>)
         | Inr (WipAccepted job) \<Rightarrow>
             mapWipRows e (Suc callNo) rs (st1\<lparr>jobs := jobs st1 @ [job]\<rparr>))"

definition mapToMonarchFormat :: "wip_env \<Rightarrow> row list \<Rightarrow> js_error + wip_state" where
  "mapToMonarchFormat e filtered = mapWipRows e 0 filtered \<lparr>jobs = [], wipRejected = [], queries = []\<rparr>"

text \<open>The WIP encoder passes over the entry \<open>_metadata\<close> by its name.\<close>

fun writeWipFields :: "string \<Rightarrow> record_instance \<Rightarrow> js_error + string" where
  "writeWipFields line [] = Inr line"
| "writeWipFields line ((name, d) # fs) =
     (if name = ''_metadata'' then writeWipFields line fs
      else (case writeJobField line d of Inl e \<Rightarrow> Inl e | Inr line' \<Rightarrow> writeWipFields line' fs))"

definition encodeWip :: "wip_job \<Rightarrow> js_error + string" where
  "encodeWip job = writeWipFields jobBlankLine (wj_fields job)"

fun encodeAllWip :: "wip_job list \<Rightarrow> js_error + string" where
  "encodeAllWip [] = Inr []"
| "encodeAllWip (j # js) =
     (case encodeWip j of
        Inl e \<Rightarrow> Inl e
      | Inr line \<Rightarrow> (case encodeAllWip js of
                       Inl e \<Rightarrow> Inl e
                     | Inr rest \<Rightarrow> Inr (line @ [CHR 0x0A] @ rest)))"






section \<open>The batch orchestrators\<close>

text \<open>
  The result object: \<open>{ success: true, message, ... }\<close> with the further members of
  the importer, or \<open>{ success: false, message }\<close>.
\<close>

datatype 'a outcome = Success string 'a | Failure string

text \<open>\<open>try { body } catch (error) { handler }\<close>\<close>

definition tryCatch :: "js_error + 'a \<Rightarrow> (js_error \<Rightarrow> js_error + 'a) \<Rightarrow> js_error + 'a" where
  "tryCatch body handler = (case body of Inl err \<Rightarrow> handler err | Inr v \<Rightarrow> Inr v)"

text \<open>Sequencing: an exception of the first statement skips the rest.\<close>

definition bindE :: "js_error + 'a \<Rightarrow> ('a \<Rightarrow> js_error + 'b) \<Rightarrow> js_error + 'b" where
  "bindE m f = (case m of Inl err \<Rightarrow> Inl err | Inr v \<Rightarrow> f v)"

definition thenE :: "js_error option \<Rightarrow> js_error + 'b \<Rightarrow> js_error + 'b" where
  "thenE m k = (case m of Some err \<Rightarrow> Inl err | None \<Rightarrow> k)"

text \<open>
  The browser: \<open>downloadTextFile content filename\<close> and \<open>localStorage.setItem key value\<close>
  may throw (\<open>Some\<close> the exception).
\<close>

record browser =
  downloadTextFile :: "string \<Rightarrow> string \<Rightarrow> js_error option"
  setItem :: "string \<Rightarrow> string \<Rightarrow> js_error option"

record job_files =
  mainJobsFile :: string
  subJobsFile :: string
  rejectionFile :: string

definition generateJobImportFiles :: "env \<Rightarrow> srow list \<Rightarrow> srow list
    \<Rightarrow> js_error + job_files \<times> rejected_order list" where
  "generateJobImportFiles e customerData orderData =
     bindE (mapOrdersToMonarch e customerData orderData) (\<lambda>st.
     bindE (generateFixedWidthFile (mainJobs st)) (\<lambda>mainFile.
     bindE (generateFixedWidthFile (subJobs st)) (\<lambda>subFile.
       Inr (\<lparr>mainJobsFile = mainFile, subJobsFile = subFile,
              rejectionFile = generateRejectionFile (rejectedOrders st)\<rparr>,
            rejectedOrders st))))"

text \<open>
  \<open>MonarchImporter.processFiles\<close>. \<open>parsed\<close> is the outcome of awaiting the parsers: a
  rejection, or the customer and order rows the importer holds afterwards. The
  success carries \<open>rejectedCount\<close>.
\<close>

definition processFiles :: "env \<Rightarrow> browser \<Rightarrow> js_error + srow list \<times> srow list
    \<Rightarrow> js_error + nat outcome" where
  "processFiles e b parsed =
     tryCatch
       (bindE parsed (\<lambda>(customerData, orderData).
        bindE (generateJobImportFiles e customerData orderData) (\<lambda>(files, rejected).
        thenE (downloadTextFile b (mainJobsFile files) ''monarch_main_jobs.txt'')
       (thenE (downloadTextFile b (subJobsFile files) ''monarch_sub_jobs.txt'')
       (thenE (if length rejected > 0
               then downloadTextFile b (rejectionFile files) ''monarch_rejected_orders.txt''
               else None)
       (thenE (setItem b ''monarch_job_import'' (mainJobsFile files @ subJobsFile files))
          (Inr (Success
             (''Monarch job import files generated successfully!'' @
               (if length rejected > 0
                then '' '' @ numToString (int (length rejected)) @
                     '' orders were rejected due to missing customer data.''
                else []))
             (length rejected)))))))))
       (\<lambda>error. Inr (Failure (''Error processing files: '' @ errorMessage error)))"

definition endsWith :: "string \<Rightarrow> string \<Rightarrow> bool" where
  "endsWith suffix s = (length suffix \<le> length s \<and> drop (length s - length suffix) s = suffix)"

text \<open>\<open>parseCustomerListFile\<close>; \<open>csvParse\<close> is the outcome of reading and parsing the CSV text.\<close>

definition parseCustomerListFile :: "string \<Rightarrow> js_error + row list \<Rightarrow> js_error + row list" where
  "parseCustomerListFile fileName csvParse =
     (if endsWith ''.csv'' fileName then csvParse
      else if endsWith ''.xlsx'' fileName \<or> endsWith ''.xls'' fileName
      then Inl (Error ''Excel parsing not implemented. Please use CSV format instead.'')
      else Inl (Error ''Unsupported file format. Please upload a CSV or Excel file.''))"

text \<open>\<open>CustomerListImporter.processFile\<close>\<close>

definition customerProcessFile :: "(nat \<Rightarrow> string) \<Rightarrow> browser \<Rightarrow> string \<Rightarrow> js_error + row list
    \<Rightarrow> js_error + unit outcome" where
  "customerProcessFile clock b fileName csvParse =
     tryCatch
       (bindE (parseCustomerListFile fileName csvParse) (\<lambda>customerListData.
        bindE (generateCustomerImportFile clock customerListData) (\<lambda>customerImport.
        thenE (downloadTextFile b customerImport ''monarch_customer_import.txt'')
       (thenE (setItem b ''monarch_customer_import'' customerImport)
          (Inr (Success ''Customer import file generated successfully!'' ()))))))
       (\<lambda>error. Inr (Failure (''Error processing customer list: '' @ errorMessage error)))"

text \<open>\<open>cells.join(sep)\<close>: \<open>undefined\<close> and \<open>null\<close> give the empty string.\<close>

definition arrayJoin :: "string \<Rightarrow> jsval list \<Rightarrow> string" where
  "arrayJoin sep vs = joinWith sep (map (\<lambda>v. if v = Undefined \<or> v = Null then [] else toText v) vs)"

record wip_summary =
  recordCount :: int
  skippedCount :: nat
  summarySkippedRows :: "skipped_row list"
  rejectedCount :: nat
  summaryRejectedOrders :: "wip_rejected list"

definition generateWIPImportFile :: "wip_env \<Rightarrow> row list \<Rightarrow> js_error + string \<times> wip_state" where
  "generateWIPImportFile e filtered =
     bindE (mapToMonarchFormat e filtered) (\<lambda>st.
     bindE (encodeAllWip (jobs st)) (\<lambda>text. Inr (text, st)))"

text \<open>
  \<open>WIPImporter.processFile\<close>. \<open>parsed\<close> is the outcome of \<open>parseXLSFile\<close>: a rejection, or
  the header cells and the rows.
\<close>

definition wipProcessFile :: "wip_env \<Rightarrow> browser \<Rightarrow> js_error + jsval list \<times> row list
    \<Rightarrow> js_error + wip_summary outcome" where
  "wipProcessFile e b parsed =
     tryCatch
       (bindE parsed (\<lambda>(rawHeaders, wipData).
        if length wipData = 0 then Inr (Failure ''No data found in XLS file'')
        else
          (let fs = filterValidOrders wipData;
               validCount = length (filteredData fs);
               skipped = length (skippedRows fs)
           in if length (filteredData fs) = 0
              then Inr (Failure
                     (''No valid orders found. All '' @ numToString (int skipped) @
                      '' rows were skipped (Order ID must be 4-7 digits).'' @ [CHR 0x0A, CHR 0x0A] @
                      ''Columns found: '' @ arrayJoin '', '' rawHeaders @ [CHR 0x0A, CHR 0x0A] @
                      ''Check browser console (F12) for more details.''))
              else
                bindE (generateWIPImportFile e (filteredData fs)) (\<lambda>(wipImportData, st).
                thenE (setItem b ''wipImportData'' wipImportData)
                  (let rejected = length (wipRejected st);
                       successfulRecords = int validCount - int rejected
                   in Inr (Success
                        (''WIP import file generated successfully with '' @
                           numToString successfulRecords @ '' records'' @
                           (if skipped > 0
                            then '' ('' @ numToString (int skipped) @
                                 '' rows skipped - invalid Order ID format)''
                            else []) @
                           (if rejected > 0
                            then '' ('' @ numToString (int rejected) @
                                 '' orders rejected - customer not found)''
                            else []))
                        \<lparr>recordCount = successfulRecords, skippedCount = skipped,
                         summarySkippedRows = skippedRows fs, rejectedCount = rejected,
                         summaryRejectedOrders = wipRejected st\<rparr>))))))
       (\<lambda>error. Inr (Failure (''Error processing XLS file: '' @ errorMessage error)))"

section \<open>The claims' own words\<close>


text \<open>
  The order-id field of a sheet row after trimming, which C5 tests against the
  pattern.
\<close>

definition orderIdText :: "row \<Rightarrow> string" where
  "orderIdText r = trim (toText (findColumn r orderIdColumns))"

text \<open>The invoice number an order line is grouped under.\<close>

definition invoiceKey :: "srow \<Rightarrow> string" where
  "invoiceKey order = cellOr order ''Invoice Number'' []"

text \<open>
  What one pass of the loop over the invoices adds to the main jobs, to the sub-jobs and
  to the rejected orders; the pass for the group \<open>g\<close> when it is the call number \<open>i\<close>.
\<close>

fun mainOf :: "group_result \<Rightarrow> record_instance list" where
  "mainOf (Accepted m subs) = [m]"
| "mainOf (Rejected r) = []"

fun subsOf :: "group_result \<Rightarrow> record_instance list" where
  "subsOf (Accepted m subs) = subs"
| "subsOf (Rejected r) = []"

fun rejectedOf :: "group_result \<Rightarrow> rejected_order list" where
  "rejectedOf (Accepted m subs) = []"
| "rejectedOf (Rejected r) = [r]"

definition groupPass :: "env \<Rightarrow> srow list \<Rightarrow> nat \<Rightarrow> string \<times> srow list \<Rightarrow> js_error + group_result" where
  "groupPass e customerData i g = processInvoice e customerData i (fst g) (hd (snd g)) (tl (snd g))"

text \<open>
  The groups hold the lines seen so far: one group for each invoice number, with the
  lines of that number in the order of the file.
\<close>

definition groupsInv :: "(string \<times> srow list) list \<Rightarrow> srow list \<Rightarrow> bool" where
  "groupsInv groups seen =
     (distinct (map fst groups) \<and> fst ` set groups = invoiceKey ` set seen \<and>
      (\<forall>(k, os) \<in> set groups. os = filter (\<lambda>ln. invoiceKey ln = k) seen))"

text \<open>The row as \<open>filterValidOrders\<close> keeps it, with \<open>_orderId\<close> and \<open>_customerName\<close> stored in it.\<close>

definition keptRow :: "row \<Rightarrow> row" where
  "keptRow r = AList.update ''_customerName'' (findColumn r customerNameColumns)
                 (AList.update ''_orderId'' (findColumn r orderIdColumns) r)"

text \<open>
  Standard CSV quoting, as C9 names it, seen from the reader of a row. After an opening
  quote a field runs to the first quote that is not doubled, and a doubled quote stands
  for one; a field that does not open with a quote runs to the next comma.
  \<open>readQuoted\<close> returns the field and what follows its closing quote.
\<close>

fun readQuoted :: "string \<Rightarrow> (string \<times> string) option" where
  "readQuoted [] = None"
| "readQuoted [c] = (if c = CHR 0x22 then Some ([], []) else None)"
| "readQuoted (c # c' # cs) =
     (if c = CHR 0x22
      then (if c' = CHR 0x22
            then (case readQuoted cs of None \<Rightarrow> None | Some (f, rest) \<Rightarrow> Some (CHR 0x22 # f, rest))
            else Some ([], c' # cs))
      else (case readQuoted (c' # cs) of None \<Rightarrow> None | Some (f, rest) \<Rightarrow> Some (c # f, rest)))"




section \<open>Example data\<close>

text \<open>A directory that knows Acme Co, fails for Down Inc and finds no one else.\<close>

definition exampleSearch :: "nat \<Rightarrow> jsval \<Rightarrow> search_outcome" where
  "exampleSearch n q =
     (if q = Str ''Acme Co'' then Returned (Some [Str ''ACME0001XYZ'', Str ''ACME0002''])
      else if q = Str ''Down Inc'' then Threw ''API error: 500''
      else Returned (Some []))"

definition exampleEnv :: env where
  "exampleEnv = \<lparr>formatDateOf = (\<lambda>s. s), toFixed = (\<lambda>n s. s), searchCustomers = exampleSearch\<rparr>"

definition exampleOrder :: srow where
  "exampleOrder = [(''Invoice Number'', ''520''), (''Customer Name'', ''Acme Co''),
     (''Line: Product Name'', ''Booklet - 6.5in : mailing - Sample''), (''Line: Quantity'', ''250''),
     (''Line: Unit price'', ''1.20''), (''Line: Amount'', ''300.00''), (''Due date'', ''03/01/2025''),
     (''Custom Field 1-po#'', ''PO-7'')]"

definition exampleShipping :: srow where
  "exampleShipping = [(''Invoice Number'', ''520''), (''Customer Name'', ''Acme Co''),
     (''Line: Product Name'', ''Shipping''), (''Line: Quantity'', ''1''),
     (''Line: Unit price'', ''12.00''), (''Line: Amount'', ''12.00'')]"

definition exampleCustomerData :: "srow list" where
  "exampleCustomerData = [[(''Customer ID'', ''Acme Co''), (''Bill to Contact First Name'', ''Pat''),
     (''Bill to Contact Last Name'', ''Lee'')]]"

definition exampleJob :: record_instance where
  "exampleJob = jobRecord exampleEnv (jobIdOfInvoice ''520'') ''    '' ''ACME0001'' ''PO-7''
     ''03/01/2025'' [] ''Pat Lee'' exampleOrder"

definition exampleSubJob :: record_instance where
  "exampleSubJob = jobRecord exampleEnv (jobIdOfInvoice ''520'') (subJobIdOf 1) ''ACME0001'' ''PO-7''
     ''03/01/2025'' [] ''Pat Lee'' exampleShipping"

text \<open>The same record with the quantity bound to the number zero.\<close>

definition exampleZeroJob :: record_instance where
  "exampleZeroJob =
     map (\<lambda>(name, d). if name = ''qty_ordered'' then (name, d\<lparr>val := Num 0\<rparr>) else (name, d)) exampleJob"

definition exampleCustomer :: row where
  "exampleCustomer = [(''accountName'', Str ''Acme Co''), (''btCity'', Str ''Reno''),
     (''btZip'', Num 89501), (''requirePO'', Str ''Y''), (''taxExemptionCertificate'', Num 0),
     (''shipMethod'', Null)]"

definition exampleCustomerRecord :: record_instance where
  "exampleCustomerRecord = mapCustomer ''11/02/2026'' 1 exampleCustomer"

text \<open>A sheet row with a numeric order number, and the job \<open>mapWipRow\<close> builds from it.\<close>

definition exampleWipRow :: row where
  "exampleWipRow = [(''Order ID'', Num 12345), (''customer name '', Str ''Acme Co''),
     (''Project Name'', Str ''Spring mailer''), (''Due Date'', Num 45717),
     (''Order Value'', Str ''$1,250.50'')]"

definition exampleWipEnv :: wip_env where
  "exampleWipEnv = \<lparr>dateText = (\<lambda>v. ''03/01/2025''), fixed2 = (\<lambda>s. s),
     wipSearchCustomers = exampleSearch\<rparr>"

definition exampleFilteredRow :: row where
  "exampleFilteredRow = exampleWipRow @ [(''_orderId'', Num 12345), (''_customerName'', Str ''Acme Co'')]"

definition exampleWipJob :: wip_job where
  "exampleWipJob =
     \<lparr>wj_fields =
        [(''job_id'', fld (Str ''N12345  '') 1 8),
         (''sub_job_id'', fld (Str ''    '') 9 4),
         (''job_description'', fld (Str ''Spring mailer'') 13 254),
         (''job_type'', fld (Str ''Production'') 267 19),
         (''item_id'', fld (Str []) 286 15),
         (''cust_ordered_by'', fld (Str ''ACME0001'') 301 8),
         (''cust_billed_to'', fld (Str ''ACME0001'') 309 8),
         (''sales_class_id'', fld (Str ''113'') 317 8),
         (''po_number'', fld (Str []) 325 20),
         (''date_promised'', fld (Str ''03/01/2025'') 345 10),
         (''ship_date'', fld (Str []) 355 10),
         (''qty_ordered'', fld (Str ''1'') 365 11),
         (''priority'', fld (Str []) 376 10),
         (''contact_name'', fld (Str []) 386 30),
         (''expense_code'', fld (Str []) 416 24),
         (''shop_floor_active'', fld (Str ''0'') 440 1),
         (''form_number'', fld (Str []) 441 20),
         (''quotation_amount'', fld (Str ''1250.50'') 461 15),
         (''unit_of_measure_id'', fld (Str ''Each'') 476 4),
         (''unit_price'', fld (Str ''1250.50'') 480 16),
         (''job_title'', fld (Str ''Spring mailer'') 496 50),
         (''forest_type_id'', fld (Str []) 546 15)],
      wj_metadata =
        \<lparr>md_customerName = Str ''Acme Co'', md_salesperson = Str [], md_csr = Str [],
         md_orderDate = []\<rparr>\<rparr>"

text \<open>An order rejected for an unknown customer, with a thousands separator in its amount.\<close>

definition exampleRejected :: rejected_order where
  "exampleRejected =
     \<lparr>rj_invoiceNumber = ''00123'', rj_customerName = ''Unknown Corp'', rj_productName = ''Flyer, A5'',
      rj_poNumber = [], rj_dueDate = ''03/01/2025'', rj_amount = ''1,234.56'',
      rj_reason = ''Customer not found in Monarch database''\<rparr>"

text \<open>A sheet with a numeric order number and, in its second row, the order id ABC12.\<close>

definition exampleWipData :: "row list" where
  "exampleWipData = [exampleWipRow,
     [(''Order ID'', Str ''ABC12''), (''Customer Name'', Str ''Acme Co''),
      (''Project Name'', Str ''Autumn mailer'')]]"



text \<open>
  An order file: two lines of invoice 520 for Acme Co around a line of invoice 00123
  for an unknown customer, and a line of invoice 777 for a customer whose lookup fails.
\<close>

definition exampleUnknown :: srow where
  "exampleUnknown = [(''Invoice Number'', ''00123''), (''Customer Name'', ''Unknown Corp''),
     (''Line: Product Name'', ''Flyer, A5''), (''Line: Amount'', ''1,234.56''),
     (''Due date'', ''03/01/2025'')]"

definition exampleDown :: srow where
  "exampleDown = [(''Invoice Number'', ''777''), (''Customer Name'', ''Down Inc''),
     (''Line: Product Name'', ''Poster''), (''Line: Amount'', ''80.00''),
     (''Custom Field 1-po#'', ''PO-9'')]"

definition exampleOrders :: "srow list" where
  "exampleOrders = [exampleOrder, exampleUnknown, exampleShipping, exampleDown]"

definition exampleDownRejected :: rejected_order where
  "exampleDownRejected =
     \<lparr>rj_invoiceNumber = ''777'', rj_customerName = ''Down Inc'', rj_productName = ''Poster'',
      rj_poNumber = ''PO-9'', rj_dueDate = [], rj_amount = ''80.00'',
      rj_reason = ''API Error: API error: 500''\<rparr>"

text \<open>
  A sheet whose first row has a numeric cell as its project name, followed by the row of
  order 12345; its header cells; and a browser in which nothing fails.
\<close>

definition exampleNumericRow :: row where
  "exampleNumericRow = [(''Order ID'', Num 23456), (''Customer Name'', Str ''Acme Co''),
     (''Project Name'', Num 2024), (''Order Value'', Num 150)]"

definition exampleNumericSheet :: "row list" where
  "exampleNumericSheet = [exampleNumericRow, exampleWipRow]"

definition exampleHeaders :: "jsval list" where
  "exampleHeaders = [Str ''Order ID'', Str ''Customer Name'', Str ''Project Name'', Str ''Order Value'']"

definition exampleBrowser :: browser where
  "exampleBrowser = \<lparr>downloadTextFile = (\<lambda>content filename. None), setItem = (\<lambda>k v. None)\<rparr>"

text \<open>A browser whose storage is full.\<close>

definition fullBrowser :: browser where
  "fullBrowser = \<lparr>downloadTextFile = (\<lambda>content filename. None),
     setItem = (\<lambda>k v. Some (Error ''The quota has been exceeded.''))\<rparr>"

text \<open>An export row whose invoice number is the name of an inherited property.\<close>

definition exampleProtoOrder :: srow where
  "exampleProtoOrder = [(''Invoice Number'', ''constructor''), (''Customer Name'', ''Acme Co'')]"
section \<open>Length of an encoded line\<close>

lemma length_putChar [simp]: "length (putChar line j c) = length line"
  by (simp add: putChar_def)

lemma length_placeValue [simp]: "length (placeValue line p l v) = length line"
proof -
  have "length (fold (\<lambda>i ln. putChar ln (int p - 1 + int i) (v ! i)) is line) = length line" for "is"
    by (induction "is" arbitrary: line) simp_all
  then show ?thesis by (simp add: placeValue_def)
qed

lemma toString_truthy: "truthy v \<Longrightarrow> toString v = Inr (toText v)"
  by (cases v) simp_all

lemma writeJobField_total: "\<exists>line'. writeJobField line d = Inr line' \<and> length line' = length line"
  by (simp add: writeJobField_def toString_truthy)

lemma writeFields_job_total:
  "\<exists>line'. writeFields writeJobField line fs = Inr line' \<and> length line' = length line"
proof (induction fs arbitrary: line)
  case Nil
  show ?case by simp
next
  case (Cons f fs)
  obtain name d where f: "f = (name, d)" by (cases f)
  obtain l1 where l1: "writeJobField line d = Inr l1" "length l1 = length line"
    using writeJobField_total by blast
  from Cons.IH [of l1] l1 f show ?case by simp
qed

lemma writeCustomerField_length:
  "writeCustomerField line d = Inr line' \<Longrightarrow> length line' = length line"
  by (auto simp: writeCustomerField_def split: if_splits sum.splits)

lemma writeFields_customer_length:
  "writeFields writeCustomerField line fs = Inr line' \<Longrightarrow> length line' = length line"
proof (induction fs arbitrary: line)
  case Nil
  then show ?case by simp
next
  case (Cons f fs)
  obtain name d where f: "f = (name, d)" by (cases f)
  from Cons.prems f obtain l1 where l1: "writeCustomerField line d = Inr l1"
    and rest: "writeFields writeCustomerField l1 fs = Inr line'"
    by (auto split: sum.splits)
  from Cons.IH [OF rest] writeCustomerField_length [OF l1] show ?case by simp
qed

lemma writeJobField_eq: "writeJobField = writeField truthy"
  by (intro ext) (simp add: writeJobField_def writeField_def)

lemma writeCustomerField_eq: "writeCustomerField = writeField (\<lambda>v. v \<noteq> Undefined)"
  by (intro ext) (simp add: writeCustomerField_def writeField_def)

lemma nth_putChar:
  "k < length line \<Longrightarrow> putChar line j c ! k = (if j = int k then c else line ! k)"
  by (auto simp: putChar_def nth_list_update)

lemma nth_fold_putChar:
  "k < length line \<Longrightarrow>
   fold (\<lambda>i ln. putChar ln (q + int i) (v ! i)) [0 ..< m] line ! k =
     (if 0 \<le> int k - q \<and> int k - q < int m then v ! nat (int k - q) else line ! k)"
proof (induction m)
  case 0
  then show ?case by auto
next
  case (Suc m)
  have len: "k < length (fold (\<lambda>i ln. putChar ln (q + int i) (v ! i)) [0 ..< m] line)"
    using Suc.prems by (induction m) simp_all
  show ?case
  proof (cases "q + int m = int k")
    case True
    then have a: "0 \<le> int k - q" "int k - q < int (Suc m)" and b: "nat (int k - q) = m"
      by linarith+
    have "fold (\<lambda>i ln. putChar ln (q + int i) (v ! i)) [0 ..< Suc m] line ! k = v ! m"
      using len True by (simp add: nth_putChar)
    with a b show ?thesis by (simp only: if_True simp_thms)
  next
    case False
    then have c: "(0 \<le> int k - q \<and> int k - q < int (Suc m)) = (0 \<le> int k - q \<and> int k - q < int m)"
      by auto
    have "fold (\<lambda>i ln. putChar ln (q + int i) (v ! i)) [0 ..< Suc m] line ! k
        = fold (\<lambda>i ln. putChar ln (q + int i) (v ! i)) [0 ..< m] line ! k"
      using len False by (simp add: nth_putChar)
    with Suc.IH [OF Suc.prems] c show ?thesis by (simp only:)
  qed
qed

lemma nth_placeValue:
  "k < length line \<Longrightarrow>
   placeValue line p l v ! k =
     (if int p \<le> int k + 1 \<and> int k + 1 < int p + int (min l (length v))
      then v ! (k + 1 - p) else line ! k)"
  unfolding placeValue_def
  using nth_fold_putChar [of k line "int p - 1" v "min l (length v)"]
  by (auto simp: nat_diff_distrib algebra_simps intro: arg_cong [where f = "nth v"])

lemma toString_Inr: "toString v = Inr s \<Longrightarrow> s = toText v"
  by (cases v) auto

lemma writeField_length: "writeField g line d = Inr line' \<Longrightarrow> length line' = length line"
  by (auto simp: writeField_def split: if_splits sum.splits)

lemma writeField_nth_outside:
  "writeField g line d = Inr line' \<Longrightarrow> k < length line \<Longrightarrow>
   k + 1 < pos d \<or> pos d + len d \<le> k + 1 \<Longrightarrow> line' ! k = line ! k"
  by (auto simp: writeField_def nth_placeValue split: if_splits sum.splits)

lemma length_fixedWidth [simp]: "length (fixedWidth n v) = n"
  by (simp add: fixedWidth_def)

lemma nth_fixedWidth:
  "j < n \<Longrightarrow> fixedWidth n v ! j = (if j < length v then v ! j else CHR '' '')"
  by (simp add: fixedWidth_def nth_append)

lemma length_fieldImage [simp]: "length (fieldImage g d) = len d"
  by (simp add: fieldImage_def)

lemma writeField_nth_inside:
  assumes w: "writeField g line d = Inr line'" and k: "k < length line"
    and lo: "pos d \<le> k + 1" and hi: "k + 1 < pos d + len d" and blank: "line ! k = CHR '' ''"
  shows "line' ! k = fieldImage g d ! (k + 1 - pos d)"
proof (cases "g (val d)")
  case False
  with w have "line' = line" by (simp add: writeField_def)
  with False blank lo hi show ?thesis by (simp add: fieldImage_def)
next
  case True
  with w obtain v where v: "toString (val d) = Inr v" and l': "line' = placeValue line (pos d) (len d) v"
    by (auto simp: writeField_def split: sum.splits)
  from v have tv: "v = toText (val d)" by (rule toString_Inr)
  have j: "k + 1 - pos d < len d" using lo hi by simp
  show ?thesis
    using True k lo hi blank j unfolding l' fieldImage_def tv [symmetric]
    by (auto simp: nth_placeValue nth_fixedWidth)
qed

lemma writeFields_append:
  "writeFields w line (xs @ ys) =
     (case writeFields w line xs of Inl e \<Rightarrow> Inl e | Inr l \<Rightarrow> writeFields w l ys)"
  by (induction xs arbitrary: line) (auto split: sum.splits)

lemma writeFields_length:
  "writeFields (writeField g) line fs = Inr line' \<Longrightarrow> length line' = length line"
proof (induction fs arbitrary: line)
  case Nil
  then show ?case by simp
next
  case (Cons f fs)
  obtain name d where f: "f = (name, d)" by (cases f)
  from Cons.prems f obtain l1 where l1: "writeField g line d = Inr l1"
    and rest: "writeFields (writeField g) l1 fs = Inr line'"
    by (auto split: sum.splits)
  from Cons.IH [OF rest] writeField_length [OF l1] show ?case by simp
qed

lemma writeFields_untouched:
  "writeFields (writeField g) line fs = Inr line' \<Longrightarrow> k < length line \<Longrightarrow>
   \<forall>(name, d) \<in> set fs. k + 1 < pos d \<or> pos d + len d \<le> k + 1 \<Longrightarrow>
   line' ! k = line ! k"
proof (induction fs arbitrary: line)
  case Nil
  then show ?case by simp
next
  case (Cons f fs)
  obtain name d where f: "f = (name, d)" by (cases f)
  from Cons.prems(1) f obtain l1 where l1: "writeField g line d = Inr l1"
    and rest: "writeFields (writeField g) l1 fs = Inr line'"
    by (auto split: sum.splits)
  have k1: "k < length l1" using writeField_length [OF l1] Cons.prems(2) by simp
  have out: "k + 1 < pos d \<or> pos d + len d \<le> k + 1" using Cons.prems(3) f by auto
  have "line' ! k = l1 ! k" using Cons.IH [OF rest k1] Cons.prems(3) by auto
  also have "\<dots> = line ! k" using writeField_nth_outside [OF l1 Cons.prems(2) out] .
  finally show ?case .
qed

lemma contiguous_bounds:
  "contiguousFrom s (layoutOf fs) \<Longrightarrow> (name, d) \<in> set fs \<Longrightarrow>
   s \<le> pos d \<and> pos d + len d \<le> layoutEnd s (layoutOf fs)"
proof (induction fs arbitrary: s)
  case Nil
  then show ?case by simp
next
  case (Cons f fs)
  obtain n0 d0 where f: "f = (n0, d0)" by (cases f)
  from Cons.prems(1) f have p0: "pos d0 = s" and c: "contiguousFrom (s + len d0) (layoutOf fs)"
    by (simp_all add: layoutOf_def)
  have e: "layoutEnd s (layoutOf (f # fs)) = layoutEnd (s + len d0) (layoutOf fs)"
    using f p0 by (simp add: layoutOf_def)
  have mono: "s' \<le> layoutEnd s' (layoutOf gs)" if "contiguousFrom s' (layoutOf gs)" for s' gs
    using that
  proof (induction gs arbitrary: s')
    case Nil
    then show ?case by (simp add: layoutOf_def)
  next
    case (Cons g gs)
    obtain n1 d1 where g: "g = (n1, d1)" by (cases g)
    from Cons.prems g have "pos d1 = s'" "contiguousFrom (s' + len d1) (layoutOf gs)"
      by (simp_all add: layoutOf_def)
    with Cons.IH [of "s' + len d1"] g show ?case by (simp add: layoutOf_def)
  qed
  show ?case
  proof (cases "(name, d) = (n0, d0)")
    case True
    with p0 e mono [OF c] show ?thesis by simp
  next
    case False
    with Cons.prems(2) f have "(name, d) \<in> set fs" by auto
    from Cons.IH [OF c this] e show ?thesis by simp
  qed
qed

lemma contiguous_append:
  "contiguousFrom s (layoutOf (xs @ ys)) \<Longrightarrow>
   contiguousFrom s (layoutOf xs) \<and> contiguousFrom (layoutEnd s (layoutOf xs)) (layoutOf ys)"
proof (induction xs arbitrary: s)
  case Nil
  then show ?case by (simp add: layoutOf_def)
next
  case (Cons f xs)
  obtain n0 d0 where f: "f = (n0, d0)" by (cases f)
  from Cons.prems f have p0: "pos d0 = s" and c: "contiguousFrom (s + len d0) (layoutOf (xs @ ys))"
    by (simp_all add: layoutOf_def)
  from Cons.IH [OF c] f p0 show ?case by (simp add: layoutOf_def)
qed

lemma writeFields_slice:
  assumes cont: "contiguousFrom s (layoutOf fs)" and s1: "1 \<le> s"
    and fits: "layoutEnd s (layoutOf fs) \<le> length line + 1"
    and blank: "\<forall>k < length line. line ! k = CHR '' ''"
    and run: "writeFields (writeField g) line fs = Inr line'"
    and mem: "(name, d) \<in> set fs"
  shows "slice line' (pos d - 1) (len d) = fieldImage g d"
proof -
  from mem obtain xs ys where fs: "fs = xs @ (name, d) # ys" by (auto dest: split_list)
  from cont fs have cx: "contiguousFrom s (layoutOf xs)"
    and cy0: "contiguousFrom (layoutEnd s (layoutOf xs)) (layoutOf ((name, d) # ys))"
    using contiguous_append by blast+
  from cy0 have pd: "pos d = layoutEnd s (layoutOf xs)"
    and cy: "contiguousFrom (pos d + len d) (layoutOf ys)"
    by (simp_all add: layoutOf_def)
  from run fs obtain l1 l2 where r1: "writeFields (writeField g) line xs = Inr l1"
    and r2: "writeField g l1 d = Inr l2"
    and r3: "writeFields (writeField g) l2 ys = Inr line'"
    by (auto simp: writeFields_append split: sum.splits)
  have len1: "length l1 = length line" using writeFields_length [OF r1] .
  have len2: "length l2 = length line" using writeField_length [OF r2] len1 by simp
  have len3: "length line' = length line" using writeFields_length [OF r3] len2 by simp
  have bnd: "s \<le> pos d" "pos d + len d \<le> layoutEnd s (layoutOf fs)"
    using contiguous_bounds [OF cont mem] by simp_all
  have p1: "1 \<le> pos d" using s1 bnd by simp
  have inside: "pos d - 1 + len d \<le> length line" using bnd fits p1 by simp
  have nth: "line' ! k = fieldImage g d ! (k + 1 - pos d)"
    if lo: "pos d \<le> k + 1" and hi: "k + 1 < pos d + len d" for k
  proof -
    have k: "k < length line" using hi inside p1 by simp
    have before: "\<forall>(n', d') \<in> set xs. k + 1 < pos d' \<or> pos d' + len d' \<le> k + 1"
    proof (clarify)
      fix n' d' assume m: "(n', d') \<in> set xs" and "\<not> pos d' + len d' \<le> k + 1"
      from contiguous_bounds [OF cx m] pd lo have "pos d' + len d' \<le> k + 1" by simp
      with \<open>\<not> pos d' + len d' \<le> k + 1\<close> show "k + 1 < pos d'" by simp
    qed
    have after: "\<forall>(n', d') \<in> set ys. k + 1 < pos d' \<or> pos d' + len d' \<le> k + 1"
    proof (clarify)
      fix n' d' assume m: "(n', d') \<in> set ys" and "\<not> pos d' + len d' \<le> k + 1"
      from contiguous_bounds [OF cy m] hi show "k + 1 < pos d'" by simp
    qed
    have "l1 ! k = line ! k" using writeFields_untouched [OF r1 k before] .
    with blank k have b1: "l1 ! k = CHR '' ''" by simp
    have "line' ! k = l2 ! k" using writeFields_untouched [OF r3 _ after] k len2 by simp
    also have "\<dots> = fieldImage g d ! (k + 1 - pos d)"
      using writeField_nth_inside [OF r2 _ lo hi b1] k len1 by simp
    finally show ?thesis .
  qed
  show ?thesis
  proof (rule nth_equalityI)
    show "length (slice line' (pos d - 1) (len d)) = length (fieldImage g d)"
      using inside len3 by (simp add: slice_def)
  next
    fix i assume "i < length (slice line' (pos d - 1) (len d))"
    then have i: "i < len d" by (simp add: slice_def)
    have "slice line' (pos d - 1) (len d) ! i = line' ! (pos d - 1 + i)"
      using i inside len3 by (simp add: slice_def)
    also have "\<dots> = fieldImage g d ! (pos d - 1 + i + 1 - pos d)"
      using nth [of "pos d - 1 + i"] i p1 by simp
    also have "pos d - 1 + i + 1 - pos d = i" using p1 by simp
    finally show "slice line' (pos d - 1) (len d) ! i = fieldImage g d ! i" .
  qed
qed

lemma layoutEnd_ge:
  "contiguousFrom s (layoutOf fs) \<Longrightarrow> s \<le> layoutEnd s (layoutOf fs)"
proof (induction fs arbitrary: s)
  case Nil
  then show ?case by (simp add: layoutOf_def)
next
  case (Cons f fs)
  obtain n0 d0 where f: "f = (n0, d0)" by (cases f)
  from Cons.prems f have "pos d0 = s" "contiguousFrom (s + len d0) (layoutOf fs)"
    by (simp_all add: layoutOf_def)
  with Cons.IH [of "s + len d0"] f show ?case by (simp add: layoutOf_def)
qed

lemma writeField_shape:
  assumes w: "writeField g line d = Inr l1" and p1: "1 \<le> pos d"
    and fits: "pos d - 1 + len d \<le> length line"
    and blank: "\<forall>k. pos d - 1 \<le> k \<and> k < pos d - 1 + len d \<longrightarrow> line ! k = CHR '' ''"
  shows "l1 = take (pos d - 1) line @ fieldImage g d @ drop (pos d - 1 + len d) line"
proof (rule nth_equalityI)
  define n where "n = pos d - 1"
  define A where "A = take n line"
  define D where "D = drop (n + len d) line"
  have lenA: "length A = n" using fits by (simp add: A_def n_def)
  have lenB: "length (fieldImage g d) = len d" by simp
  have len1: "length l1 = length line" using writeField_length [OF w] .
  have nfits: "n + len d \<le> length line" using fits by (simp add: n_def)
  show "length l1 = length (take (pos d - 1) line @ fieldImage g d @ drop (pos d - 1 + len d) line)"
    using len1 fits by simp
  fix k assume "k < length l1"
  then have k: "k < length line" using len1 by simp
  consider (before) "k < n" | (inside) "n \<le> k" "k < n + len d" | (after) "n + len d \<le> k"
    by linarith
  then have "l1 ! k = (A @ fieldImage g d @ D) ! k"
  proof cases
    case before
    then have "k + 1 < pos d \<or> pos d + len d \<le> k + 1" unfolding n_def by arith
    then have "l1 ! k = line ! k" by (rule writeField_nth_outside [OF w k])
    moreover have "(A @ fieldImage g d @ D) ! k = A ! k" using before lenA by (simp add: nth_append)
    moreover have "A ! k = line ! k" using before by (simp add: A_def)
    ultimately show ?thesis by simp
  next
    case inside
    have lo: "pos d \<le> k + 1" and hi: "k + 1 < pos d + len d" and idx: "k + 1 - pos d = k - n"
      using inside p1 unfolding n_def by arith+
    have b: "line ! k = CHR '' ''" using blank inside unfolding n_def by blast
    have "l1 ! k = fieldImage g d ! (k + 1 - pos d)"
      by (rule writeField_nth_inside [OF w k lo hi b])
    then have "l1 ! k = fieldImage g d ! (k - n)" by (simp only: idx)
    moreover have "k - n < len d" using inside by arith
    then have "(A @ fieldImage g d @ D) ! k = fieldImage g d ! (k - n)"
      using inside lenA lenB by (simp add: nth_append)
    ultimately show ?thesis by simp
  next
    case after
    then have "k + 1 < pos d \<or> pos d + len d \<le> k + 1" using p1 unfolding n_def by arith
    then have "l1 ! k = line ! k" by (rule writeField_nth_outside [OF w k])
    moreover have "\<not> k < n" "\<not> k - n < len d" using after by arith+
    then have "(A @ fieldImage g d @ D) ! k = D ! (k - n - len d)"
      using lenA lenB by (simp add: nth_append)
    moreover have "D ! (k - n - len d) = line ! k" using after k by (simp add: D_def)
    ultimately show ?thesis by simp
  qed
  then show "l1 ! k = (take (pos d - 1) line @ fieldImage g d @ drop (pos d - 1 + len d) line) ! k"
    by (simp only: A_def D_def n_def)
qed

lemma writeFields_shape:
  assumes "contiguousFrom s (layoutOf fs)" and "1 \<le> s"
    and "layoutEnd s (layoutOf fs) \<le> length line + 1"
    and "\<forall>k. s - 1 \<le> k \<and> k < length line \<longrightarrow> line ! k = CHR '' ''"
    and "writeFields (writeField g) line fs = Inr line'"
  shows "line' = take (s - 1) line @ concat (map (\<lambda>(name, d). fieldImage g d) fs)
                 @ drop (layoutEnd s (layoutOf fs) - 1) line"
  using assms
proof (induction fs arbitrary: s line)
  case Nil
  then show ?case by (simp add: layoutOf_def)
next
  case (Cons f fs)
  obtain n0 d0 where f: "f = (n0, d0)" by (cases f)
  from Cons.prems(1) f have p0: "pos d0 = s" and c: "contiguousFrom (s + len d0) (layoutOf fs)"
    by (simp_all add: layoutOf_def)
  have e: "layoutEnd s (layoutOf (f # fs)) = layoutEnd (s + len d0) (layoutOf fs)"
    using f p0 by (simp add: layoutOf_def)
  let ?E = "layoutEnd (s + len d0) (layoutOf fs)"
  have ge: "s + len d0 \<le> ?E" using layoutEnd_ge [OF c] .
  have fits: "s - 1 + len d0 \<le> length line" using ge Cons.prems(2,3) e by simp
  from Cons.prems(5) f obtain l1 where w: "writeField g line d0 = Inr l1"
    and rest: "writeFields (writeField g) l1 fs = Inr line'"
    by (auto split: sum.splits)
  have len1: "length l1 = length line" using writeField_length [OF w] .
  have l1: "l1 = take (s - 1) line @ fieldImage g d0 @ drop (s - 1 + len d0) line"
    using writeField_shape [OF w] p0 Cons.prems(2,4) fits by simp
  have blank1: "\<forall>k. s + len d0 - 1 \<le> k \<and> k < length l1 \<longrightarrow> l1 ! k = CHR '' ''"
  proof (intro allI impI)
    fix k assume k: "s + len d0 - 1 \<le> k \<and> k < length l1"
    then have "k + 1 < pos d0 \<or> pos d0 + len d0 \<le> k + 1" and "k < length line"
      using p0 len1 Cons.prems(2) by arith+
    then have "l1 ! k = line ! k" using writeField_nth_outside [OF w] by blast
    moreover have "s - 1 \<le> k \<and> k < length line" using k len1 by arith
    ultimately show "l1 ! k = CHR '' ''" using Cons.prems(4) by simp
  qed
  have ih: "line' = take (s + len d0 - 1) l1 @ concat (map (\<lambda>(name, d). fieldImage g d) fs)
      @ drop (?E - 1) l1"
    using Cons.IH [OF c _ _ blank1 rest] Cons.prems(2,3) e len1 by simp
  have t: "take (s + len d0 - 1) l1 = take (s - 1) line @ fieldImage g d0"
    using fits Cons.prems(2) by (subst l1) simp
  have d: "drop (?E - 1) l1 = drop (?E - 1) line"
  proof -
    have "drop (?E - 1) l1 = drop (?E - 1 - (s - 1 + len d0)) (drop (s - 1 + len d0) line)"
      using fits ge Cons.prems(2) by (subst l1) simp
    also have "\<dots> = drop (?E - 1) line" using ge Cons.prems(2) by simp
    finally show ?thesis .
  qed
  show ?case unfolding e ih t d using f by simp
qed

lemma layoutOf_jobRecord: "layoutOf (jobRecord e a b c d f g h order) = jobLayout"
  by (simp add: jobRecord_def layoutOf_def jobLayout_def fld_def Let_def)

lemma layoutOf_mapCustomer: "layoutOf (mapCustomer today n customer) = customerLayout"
  by (simp add: mapCustomer_def layoutOf_def customerLayout_def fld_def Let_def)

lemma contiguous_jobLayout: "contiguousFrom 1 jobLayout"
  by (simp add: jobLayout_def)

lemma end_jobLayout: "layoutEnd 1 jobLayout = 561"
  by (simp add: jobLayout_def)

lemma contiguous_customerLayout: "contiguousFrom 1 customerLayout"
  by (simp add: customerLayout_def)

lemma end_customerLayout: "layoutEnd 1 customerLayout = 758"
  by (simp add: customerLayout_def)

lemma length_jobBlankLine [simp]: "length jobBlankLine = 560"
  by (simp add: jobBlankLine_def)

lemma length_customerBlankLine [simp]: "length customerBlankLine = 758"
  by (simp add: customerBlankLine_def)

lemma encodeJob_total: "\<exists>line. encodeJob job = Inr line \<and> length line = 560"
  using writeFields_job_total [of jobBlankLine job] by (simp add: encodeJob_def)

lemma writeWipFields_filter:
  "writeWipFields line fs = writeFields writeJobField line (filter (\<lambda>(name, d). name \<noteq> ''_metadata'') fs)"
  by (induction fs arbitrary: line) (auto split: sum.splits)

lemma encodeWip_total: "\<exists>line. encodeWip job = Inr line \<and> length line = 560"
  using writeFields_job_total [of jobBlankLine]
  by (simp add: encodeWip_def writeWipFields_filter)

lemma writeFields_customer_total:
  "noNull fs \<Longrightarrow> \<exists>line'. writeFields writeCustomerField line fs = Inr line'"
proof (induction fs arbitrary: line)
  case Nil
  show ?case by simp
next
  case (Cons f fs)
  obtain name d where f: "f = (name, d)" by (cases f)
  from Cons.prems f have nn: "val d \<noteq> Null" and rest: "noNull fs" by (simp_all add: noNull_def)
  have "\<exists>l1. writeCustomerField line d = Inr l1"
    using nn by (cases "val d") (simp_all add: writeCustomerField_def)
  then obtain l1 where l1: "writeCustomerField line d = Inr l1" ..
  from Cons.IH [OF rest, of l1] l1 f show ?case by simp
qed

lemma encodeCustomer_total:
  "noNull customer \<Longrightarrow> \<exists>line. encodeCustomer customer = Inr line \<and> length line = 758"
  using writeFields_customer_total [of customer customerBlankLine]
    writeFields_customer_length [of customerBlankLine customer]
  by (auto simp: encodeCustomer_def)

lemma encodeCustomer_length: "encodeCustomer customer = Inr line \<Longrightarrow> length line = 758"
  using writeFields_customer_length [of customerBlankLine customer line]
  by (simp add: encodeCustomer_def)

lemma noNull_mapCustomer: "noNull (mapCustomer today n customer)"
proof -
  have "jsOr v (Str []) \<noteq> Null" for v
    by (cases v) (simp_all add: jsOr_def)
  then show ?thesis
    by (simp add: noNull_def mapCustomer_def fld_def Let_def)
qed

lemma generateFixedWidthFile_total:
  "\<exists>text. generateFixedWidthFile rs = Inr text \<and> length text = 561 * length rs"
  unfolding generateFixedWidthFile_def
proof (induction rs)
  case Nil
  show ?case by simp
next
  case (Cons j js)
  obtain line where l: "encodeJob j = Inr line" "length line = 560"
    using encodeJob_total by blast
  from Cons.IH obtain rest where r: "encodeAll encodeJob js = Inr rest" "length rest = 561 * length js"
    by blast
  from l r show ?case by simp
qed

lemma blank_jobBlankLine: "k < length jobBlankLine \<Longrightarrow> jobBlankLine ! k = CHR '' ''"
  by (simp add: jobBlankLine_def)

lemma blank_customerBlankLine: "k < length customerBlankLine \<Longrightarrow> customerBlankLine ! k = CHR '' ''"
  by (simp add: customerBlankLine_def)

lemma encodeJob_shape:
  assumes "layoutOf job = jobLayout"
  shows "encodeJob job = Inr (concat (map (\<lambda>(name, d). fieldImage truthy d) job))"
proof -
  obtain line where run: "writeFields (writeField truthy) jobBlankLine job = Inr line"
    using encodeJob_total [of job] by (auto simp: encodeJob_def writeJobField_eq)
  have c: "contiguousFrom 1 (layoutOf job)" using assms contiguous_jobLayout by simp
  have e: "layoutEnd 1 (layoutOf job) \<le> length jobBlankLine + 1" using assms end_jobLayout by simp
  have b: "\<forall>k. 1 - 1 \<le> k \<and> k < length jobBlankLine \<longrightarrow> jobBlankLine ! k = CHR '' ''"
    using blank_jobBlankLine by simp
  have "line = take (1 - 1) jobBlankLine @ concat (map (\<lambda>(name, d). fieldImage truthy d) job)
      @ drop (layoutEnd 1 (layoutOf job) - 1) jobBlankLine"
    by (rule writeFields_shape [OF c order_refl e b run])
  moreover have "drop (layoutEnd 1 (layoutOf job) - 1) jobBlankLine = []"
    unfolding assms end_jobLayout by (simp add: jobBlankLine_def)
  ultimately have "line = concat (map (\<lambda>(name, d). fieldImage truthy d) job)"
    by simp
  with run show ?thesis by (simp add: encodeJob_def writeJobField_eq)
qed

lemma encodeJob_slice:
  assumes "layoutOf job = jobLayout" and "(name, d) \<in> set job" and "encodeJob job = Inr line"
  shows "slice line (pos d - 1) (len d) = fieldImage truthy d"
proof -
  have run: "writeFields (writeField truthy) jobBlankLine job = Inr line"
    using assms(3) by (simp add: encodeJob_def writeJobField_eq)
  have c: "contiguousFrom 1 (layoutOf job)" using assms contiguous_jobLayout by simp
  have e: "layoutEnd 1 (layoutOf job) \<le> length jobBlankLine + 1" using assms end_jobLayout by simp
  have b: "\<forall>k < length jobBlankLine. jobBlankLine ! k = CHR '' ''"
    using blank_jobBlankLine by simp
  show ?thesis
    by (rule writeFields_slice [OF c order_refl e b run assms(2)])
qed

lemma no_metadata_field:
  assumes "layoutOf fs = jobLayout"
  shows "filter (\<lambda>(name, d). name \<noteq> ''_metadata'') fs = fs"
proof -
  have "map fst fs = map fst (layoutOf fs)"
    by (simp add: layoutOf_def case_prod_beta comp_def)
  then have "set (map fst fs) = set (map fst jobLayout)" by (simp add: assms)
  then have "''_metadata'' \<notin> fst ` set fs" by (simp add: jobLayout_def)
  then have "\<forall>x \<in> set fs. (\<lambda>(name, d). name \<noteq> ''_metadata'') x" by force
  then show ?thesis by (simp add: filter_id_conv)
qed

lemma encodeWip_encodeJob:
  "layoutOf (wj_fields j) = jobLayout \<Longrightarrow> encodeWip j = encodeJob (wj_fields j)"
  by (simp add: encodeWip_def encodeJob_def writeWipFields_filter no_metadata_field)

lemma encodeCustomer_shape:
  assumes "layoutOf customer = customerLayout" and "encodeCustomer customer = Inr line"
  shows "line = concat (map (\<lambda>(name, d). fieldImage (\<lambda>v. v \<noteq> Undefined) d) customer) @ '' ''"
proof -
  have run: "writeFields (writeField (\<lambda>v. v \<noteq> Undefined)) customerBlankLine customer = Inr line"
    using assms(2) by (simp add: encodeCustomer_def writeCustomerField_eq)
  have c: "contiguousFrom 1 (layoutOf customer)" using assms contiguous_customerLayout by simp
  have e: "layoutEnd 1 (layoutOf customer) \<le> length customerBlankLine + 1"
    using assms end_customerLayout by simp
  have b: "\<forall>k. 1 - 1 \<le> k \<and> k < length customerBlankLine \<longrightarrow> customerBlankLine ! k = CHR '' ''"
    using blank_customerBlankLine by simp
  have "line = take (1 - 1) customerBlankLine
      @ concat (map (\<lambda>(name, d). fieldImage (\<lambda>v. v \<noteq> Undefined) d) customer)
      @ drop (layoutEnd 1 (layoutOf customer) - 1) customerBlankLine"
    by (rule writeFields_shape [OF c order_refl e b run])
  moreover have "drop (layoutEnd 1 (layoutOf customer) - 1) customerBlankLine = '' ''"
    unfolding assms(1) end_customerLayout by (simp add: customerBlankLine_def)
  ultimately show ?thesis by simp
qed

lemma encodeCustomer_slice:
  assumes "layoutOf customer = customerLayout" and "(name, d) \<in> set customer"
    and "encodeCustomer customer = Inr line"
  shows "slice line (pos d - 1) (len d) = fieldImage (\<lambda>v. v \<noteq> Undefined) d"
proof -
  have run: "writeFields (writeField (\<lambda>v. v \<noteq> Undefined)) customerBlankLine customer = Inr line"
    using assms(3) by (simp add: encodeCustomer_def writeCustomerField_eq)
  have c: "contiguousFrom 1 (layoutOf customer)" using assms contiguous_customerLayout by simp
  have e: "layoutEnd 1 (layoutOf customer) \<le> length customerBlankLine + 1"
    using assms end_customerLayout by simp
  have b: "\<forall>k < length customerBlankLine. customerBlankLine ! k = CHR '' ''"
    using blank_customerBlankLine by simp
  show ?thesis
    by (rule writeFields_slice [OF c order_refl e b run assms(2)])
qed

section \<open>C1: the length of an encoded line\<close>

text \<open>
  C1, as amended. Whatever the field values are, the job encoder and the WIP encoder
  return a line of 560 characters (561 with the line feed that ends it in the file),
  and the customer encoder returns a line of 758 characters: always for a record built
  by \<open>mapCustomer\<close>, and for any record with no \<open>null\<close> value, on which alone
  \<open>toString\<close> can fail.
\<close>

theorem encoded_line_length:
  "(\<exists>line. encodeJob job = Inr line \<and> length line = 560) \<and>
   (\<exists>line. encodeWip wjob = Inr line \<and> length line = 560) \<and>
   (\<exists>text. generateFixedWidthFile rs = Inr text \<and> length text = (560 + 1) * length rs) \<and>
   (\<exists>line. encodeCustomer (mapCustomer today n customer) = Inr line \<and> length line = 758) \<and>
   (noNull rcd \<longrightarrow> (\<exists>line. encodeCustomer rcd = Inr line \<and> length line = 758)) \<and>
   (\<forall>line. encodeCustomer rcd = Inr line \<longrightarrow> length line = 758)"
  using encodeJob_total [of job] encodeWip_total [of wjob] generateFixedWidthFile_total [of rs]
    encodeCustomer_total [OF noNull_mapCustomer, of today n customer]
    encodeCustomer_total [of rcd] encodeCustomer_length [of rcd]
  by simp

text \<open>
  C1, witness: a customer record with a number and an empty string, none of them
  \<open>null\<close>, is encoded into 758 characters.
\<close>

theorem encoded_line_length_witness:
  "noNull [(''Cust-code'', fld (Num 7) 1 8), (''Cust-name'', fld (Str []) 9 40)] \<and>
   (\<exists>line. encodeCustomer [(''Cust-code'', fld (Num 7) 1 8), (''Cust-name'', fld (Str []) 9 40)] = Inr line
      \<and> length line = 758)"
proof -
  have h: "noNull [(''Cust-code'', fld (Num 7) 1 8), (''Cust-name'', fld (Str []) 9 40)]"
    by (simp add: noNull_def fld_def)
  with encoded_line_length [where rcd = "[(''Cust-code'', fld (Num 7) 1 8), (''Cust-name'', fld (Str []) 9 40)]"]
  show ?thesis by blast
qed

text \<open>
  C1, counterexample: the main job of invoice 520 is encoded into 560 characters, not
  the 561 of the claim.
\<close>

theorem job_line_is_560_not_561:
  "map_sum id length (encodeJob exampleJob) = Inr 560 \<and>
   map_sum id length (encodeJob exampleJob) \<noteq> Inr 561"
proof -
  obtain line where "encodeJob exampleJob = Inr line" "length line = 560"
    using encodeJob_total by blast
  then show ?thesis by simp
qed

lemma layoutOf_exampleWipJob: "layoutOf (wj_fields exampleWipJob) = jobLayout"
  by (simp add: exampleWipJob_def layoutOf_def jobLayout_def fld_def)

lemma layoutOf_exampleZeroJob: "layoutOf exampleZeroJob = jobLayout"
  by (simp add: exampleZeroJob_def exampleJob_def jobRecord_def layoutOf_def jobLayout_def fld_def Let_def)

lemma fieldImage_unfold:
  "fieldImage g d = (if g (val d) then fixedWidth (len d) (toText (val d)) else replicate (len d) CHR '' '')"
  by (simp add: fieldImage_def)

lemma contiguous_lower:
  "contiguousFrom s fs \<Longrightarrow> (name, p, l) \<in> set fs \<Longrightarrow> s \<le> p"
proof (induction fs arbitrary: s)
  case Nil
  then show ?case by simp
next
  case (Cons f fs)
  obtain n0 p0 l0 where f: "f = (n0, p0, l0)" by (cases f)
  from Cons.prems(1) f have p0: "p0 = s" and c: "contiguousFrom (s + l0) fs" by simp_all
  show ?case
  proof (cases "(name, p, l) = f")
    case True
    with f p0 show ?thesis by simp
  next
    case False
    with Cons.prems(2) have "(name, p, l) \<in> set fs" by simp
    from Cons.IH [OF c this] show ?thesis by simp
  qed
qed

lemma contiguous_nonOverlapping: "contiguousFrom s fs \<Longrightarrow> nonOverlapping fs"
proof (induction fs arbitrary: s)
  case Nil
  show ?case by simp
next
  case (Cons f fs)
  obtain n0 p0 l0 where f: "f = (n0, p0, l0)" by (cases f)
  from Cons.prems f have p0: "p0 = s" and c: "contiguousFrom (s + l0) fs" by simp_all
  have "p0 + l0 \<le> p'" if "(n', p', l') \<in> set fs" for n' p' l'
    using contiguous_lower [OF c that] p0 by simp
  with Cons.IH [OF c] f show ?case by auto
qed

lemma contiguous_cover:
  "contiguousFrom s fs \<Longrightarrow> s \<le> b \<Longrightarrow> b < layoutEnd s fs \<Longrightarrow>
   \<exists>!f. f \<in> set fs \<and> fst (snd f) \<le> b \<and> b < fst (snd f) + snd (snd f)"
proof (induction fs arbitrary: s)
  case Nil
  then show ?case by simp
next
  case (Cons f fs)
  obtain n0 p0 l0 where f: "f = (n0, p0, l0)" by (cases f)
  from Cons.prems(1) f have p0: "p0 = s" and c: "contiguousFrom (s + l0) fs" by simp_all
  have later: "s + l0 \<le> fst (snd g)" if "g \<in> set fs" for g
    using contiguous_lower [OF c, of "fst g" "fst (snd g)" "snd (snd g)"] that by simp
  show ?case
  proof (cases "b < s + l0")
    case True
    show ?thesis
    proof (rule ex1I [of _ f])
      show "f \<in> set (f # fs) \<and> fst (snd f) \<le> b \<and> b < fst (snd f) + snd (snd f)"
        using True Cons.prems(2) f p0 by simp
    next
      fix g assume g: "g \<in> set (f # fs) \<and> fst (snd g) \<le> b \<and> b < fst (snd g) + snd (snd g)"
      show "g = f"
      proof (rule ccontr)
        assume "g \<noteq> f"
        with g have "g \<in> set fs" by simp
        from later [OF this] g True show False by simp
      qed
    qed
  next
    case False
    then have lo: "s + l0 \<le> b" by simp
    have hi: "b < layoutEnd (s + l0) fs" using Cons.prems(3) f p0 by simp
    from Cons.IH [OF c lo hi] obtain g where g: "g \<in> set fs" "fst (snd g) \<le> b"
      "b < fst (snd g) + snd (snd g)"
      and uniq: "\<And>h. h \<in> set fs \<and> fst (snd h) \<le> b \<and> b < fst (snd h) + snd (snd h) \<Longrightarrow> h = g"
      by blast
    show ?thesis
    proof (rule ex1I [of _ g])
      show "g \<in> set (f # fs) \<and> fst (snd g) \<le> b \<and> b < fst (snd g) + snd (snd g)"
        using g by simp
    next
      fix h assume h: "h \<in> set (f # fs) \<and> fst (snd h) \<le> b \<and> b < fst (snd h) + snd (snd h)"
      have "h \<noteq> f" using h False f p0 by auto
      with h have "h \<in> set fs" by simp
      with h uniq show "h = g" by blast
    qed
  qed
qed

lemma layoutOf_mapWipRow:
  "mapWipRow we callNo r = Inr (WipAccepted wjob) \<Longrightarrow> layoutOf (wj_fields wjob) = jobLayout"
  by (auto simp: mapWipRow_def Let_def layoutOf_def jobLayout_def fld_def
      split: search_outcome.splits option.splits list.splits sum.splits)

lemma mapWipRow_example: "mapWipRow exampleWipEnv 0 exampleFilteredRow = Inr (WipAccepted exampleWipJob)"
  by code_simp


section \<open>C6: which values each encoder writes\<close>

text \<open>
  C6. The job and WIP encoders write a field exactly when its value is truthy; the
  customer encoder writes every value that is not \<open>undefined\<close> (\<open>null\<close>, which no
  record built by \<open>mapCustomer\<close> holds, makes \<open>toString\<close> throw). So in a line of the job
  layout a field bound to the empty string, to the number zero or to \<open>null\<close> leaves its
  byte range as spaces, while the string \<open>'0'\<close> is written; and in a customer line every
  value that is not \<open>undefined\<close> is written, the number zero included.
\<close>

theorem encoder_gate_asymmetry:
  "writeJobField ln d =
     (if truthy (val d) then Inr (placeValue ln (pos d) (len d) (toText (val d))) else Inr ln) \<and>
   (val d \<noteq> Null \<longrightarrow>
      writeCustomerField ln d =
        (if val d \<noteq> Undefined then Inr (placeValue ln (pos d) (len d) (toText (val d))) else Inr ln)) \<and>
   (layoutOf job = jobLayout \<longrightarrow> (name, d) \<in> set job \<longrightarrow>
      (\<exists>line. encodeJob job = Inr line \<and>
         (val d = Str [] \<or> val d = Num 0 \<or> val d = Null \<longrightarrow>
            slice line (pos d - 1) (len d) = replicate (len d) CHR '' '') \<and>
         (val d = Str ''0'' \<longrightarrow> slice line (pos d - 1) (len d) = fixedWidth (len d) ''0''))) \<and>
   (layoutOf (wj_fields wjob) = jobLayout \<longrightarrow> (name, d) \<in> set (wj_fields wjob) \<longrightarrow>
      (\<exists>line. encodeWip wjob = Inr line \<and>
         (val d = Str [] \<or> val d = Num 0 \<or> val d = Null \<longrightarrow>
            slice line (pos d - 1) (len d) = replicate (len d) CHR '' '') \<and>
         (val d = Str ''0'' \<longrightarrow> slice line (pos d - 1) (len d) = fixedWidth (len d) ''0''))) \<and>
   (layoutOf customer = customerLayout \<longrightarrow> noNull customer \<longrightarrow> (name, d) \<in> set customer \<longrightarrow>
      (\<exists>line. encodeCustomer customer = Inr line \<and>
         (val d \<noteq> Undefined \<longrightarrow>
            slice line (pos d - 1) (len d) = fixedWidth (len d) (toText (val d)))))"
proof (intro conjI impI)
  show "writeJobField ln d =
     (if truthy (val d) then Inr (placeValue ln (pos d) (len d) (toText (val d))) else Inr ln)"
    by (simp add: writeJobField_def toString_truthy)
next
  assume "val d \<noteq> Null"
  then show "writeCustomerField ln d =
        (if val d \<noteq> Undefined then Inr (placeValue ln (pos d) (len d) (toText (val d))) else Inr ln)"
    by (cases "val d") (simp_all add: writeCustomerField_def)
next
  assume l: "layoutOf job = jobLayout" and m: "(name, d) \<in> set job"
  obtain line where e: "encodeJob job = Inr line" using encodeJob_total by blast
  have "slice line (pos d - 1) (len d) = fieldImage truthy d"
    by (rule encodeJob_slice [OF l m e])
  with e show "\<exists>line. encodeJob job = Inr line \<and>
         (val d = Str [] \<or> val d = Num 0 \<or> val d = Null \<longrightarrow>
            slice line (pos d - 1) (len d) = replicate (len d) CHR '' '') \<and>
         (val d = Str ''0'' \<longrightarrow> slice line (pos d - 1) (len d) = fixedWidth (len d) ''0'')"
    by (auto simp: fieldImage_def)
next
  assume l: "layoutOf (wj_fields wjob) = jobLayout" and m: "(name, d) \<in> set (wj_fields wjob)"
  obtain line where e: "encodeJob (wj_fields wjob) = Inr line" using encodeJob_total by blast
  have "slice line (pos d - 1) (len d) = fieldImage truthy d"
    by (rule encodeJob_slice [OF l m e])
  with e encodeWip_encodeJob [OF l] show "\<exists>line. encodeWip wjob = Inr line \<and>
         (val d = Str [] \<or> val d = Num 0 \<or> val d = Null \<longrightarrow>
            slice line (pos d - 1) (len d) = replicate (len d) CHR '' '') \<and>
         (val d = Str ''0'' \<longrightarrow> slice line (pos d - 1) (len d) = fixedWidth (len d) ''0'')"
    by (auto simp: fieldImage_def)
next
  assume l: "layoutOf customer = customerLayout" and nn: "noNull customer"
    and m: "(name, d) \<in> set customer"
  from encodeCustomer_total [OF nn] obtain line where e: "encodeCustomer customer = Inr line"
    by blast
  have "slice line (pos d - 1) (len d) = fieldImage (\<lambda>v. v \<noteq> Undefined) d"
    by (rule encodeCustomer_slice [OF l m e])
  with e show "\<exists>line. encodeCustomer customer = Inr line \<and>
         (val d \<noteq> Undefined \<longrightarrow>
            slice line (pos d - 1) (len d) = fixedWidth (len d) (toText (val d)))"
    by (auto simp: fieldImage_def)
qed

text \<open>
  C6, witness: in a job record the quantity bound to the number zero leaves spaces and
  the flag \<open>'0'\<close> is written; in a WIP job the empty PO number leaves spaces; in a
  customer record the numeric customer code is written, and the customer encoder
  writes the number zero.
\<close>

theorem encoder_gate_asymmetry_witness:
  "layoutOf exampleZeroJob = jobLayout \<and>
   (''qty_ordered'', fld (Num 0) 365 11) \<in> set exampleZeroJob \<and>
   fieldRange (encodeJob exampleZeroJob) (fld (Num 0) 365 11) = Inr (replicate 11 CHR '' '') \<and>
   (''shop_floor_active'', fld (Str ''0'') 440 1) \<in> set exampleZeroJob \<and>
   fieldRange (encodeJob exampleZeroJob) (fld (Str ''0'') 440 1) = Inr (fixedWidth 1 ''0'') \<and>
   layoutOf (wj_fields exampleWipJob) = jobLayout \<and>
   (''po_number'', fld (Str []) 325 20) \<in> set (wj_fields exampleWipJob) \<and>
   fieldRange (encodeWip exampleWipJob) (fld (Str []) 325 20) = Inr (replicate 20 CHR '' '') \<and>
   layoutOf exampleCustomerRecord = customerLayout \<and> noNull exampleCustomerRecord \<and>
   (''Cust-code'', fld (Num 1) 1 8) \<in> set exampleCustomerRecord \<and>
   fieldRange (encodeCustomer exampleCustomerRecord) (fld (Num 1) 1 8)
     = Inr (fixedWidth 8 (toText (Num 1))) \<and>
   val (fld (Num 0) 1 2) \<noteq> Null \<and>
   writeCustomerField ''  '' (fld (Num 0) 1 2) = Inr (placeValue ''  '' 1 2 (toText (Num 0)))"
proof -
  have j1: "layoutOf exampleZeroJob = jobLayout" by (rule layoutOf_exampleZeroJob)
  have j2: "(''qty_ordered'', fld (Num 0) 365 11) \<in> set exampleZeroJob"
    by (simp add: exampleZeroJob_def exampleJob_def jobRecord_def Let_def fld_def)
  have j3: "(''shop_floor_active'', fld (Str ''0'') 440 1) \<in> set exampleZeroJob"
    by (simp add: exampleZeroJob_def exampleJob_def jobRecord_def Let_def fld_def)
  have w1: "layoutOf (wj_fields exampleWipJob) = jobLayout" by (rule layoutOf_exampleWipJob)
  have w2: "(''po_number'', fld (Str []) 325 20) \<in> set (wj_fields exampleWipJob)"
    by (simp add: exampleWipJob_def)
  have c1: "layoutOf exampleCustomerRecord = customerLayout"
    by (simp add: exampleCustomerRecord_def layoutOf_mapCustomer)
  have c2: "noNull exampleCustomerRecord"
    by (simp add: exampleCustomerRecord_def noNull_mapCustomer)
  have c3: "(''Cust-code'', fld (Num 1) 1 8) \<in> set exampleCustomerRecord"
    by (simp add: exampleCustomerRecord_def mapCustomer_def Let_def)
  note t = encoder_gate_asymmetry
  have r1: "fieldRange (encodeJob exampleZeroJob) (fld (Num 0) 365 11) = Inr (replicate 11 CHR '' '')"
  proof -
    from t [of "[]" "fld (Num 0) 365 11" exampleZeroJob "''qty_ordered''" exampleWipJob "[]"] j1 j2
    obtain line where "encodeJob exampleZeroJob = Inr line"
      and "val (fld (Num 0) 365 11) = Str [] \<or> val (fld (Num 0) 365 11) = Num 0
           \<or> val (fld (Num 0) 365 11) = Null \<longrightarrow>
           slice line (pos (fld (Num 0) 365 11) - 1) (len (fld (Num 0) 365 11))
           = replicate (len (fld (Num 0) 365 11)) CHR '' ''"
      by blast
    then show ?thesis by (simp add: fieldRange_def fld_def)
  qed
  have r2: "fieldRange (encodeJob exampleZeroJob) (fld (Str ''0'') 440 1) = Inr (fixedWidth 1 ''0'')"
  proof -
    from t [of "[]" "fld (Str ''0'') 440 1" exampleZeroJob "''shop_floor_active''" exampleWipJob "[]"]
      j1 j3
    obtain line where "encodeJob exampleZeroJob = Inr line"
      and "val (fld (Str ''0'') 440 1) = Str ''0'' \<longrightarrow>
           slice line (pos (fld (Str ''0'') 440 1) - 1) (len (fld (Str ''0'') 440 1))
           = fixedWidth (len (fld (Str ''0'') 440 1)) ''0''"
      by blast
    then show ?thesis by (simp add: fieldRange_def fld_def)
  qed
  have r3: "fieldRange (encodeWip exampleWipJob) (fld (Str []) 325 20) = Inr (replicate 20 CHR '' '')"
  proof -
    from t [of "[]" "fld (Str []) 325 20" "[]" "''po_number''" exampleWipJob "[]"] w1 w2
    obtain line where "encodeWip exampleWipJob = Inr line"
      and "val (fld (Str []) 325 20) = Str [] \<or> val (fld (Str []) 325 20) = Num 0
           \<or> val (fld (Str []) 325 20) = Null \<longrightarrow>
           slice line (pos (fld (Str []) 325 20) - 1) (len (fld (Str []) 325 20))
           = replicate (len (fld (Str []) 325 20)) CHR '' ''"
      by blast
    then show ?thesis by (simp add: fieldRange_def fld_def)
  qed
  have r4: "fieldRange (encodeCustomer exampleCustomerRecord) (fld (Num 1) 1 8)
      = Inr (fixedWidth 8 (toText (Num 1)))"
  proof -
    from t [of "[]" "fld (Num 1) 1 8" "[]" "''Cust-code''" exampleWipJob exampleCustomerRecord]
      c1 c2 c3
    obtain line where "encodeCustomer exampleCustomerRecord = Inr line"
      and "val (fld (Num 1) 1 8) \<noteq> Undefined \<longrightarrow>
           slice line (pos (fld (Num 1) 1 8) - 1) (len (fld (Num 1) 1 8))
           = fixedWidth (len (fld (Num 1) 1 8)) (toText (val (fld (Num 1) 1 8)))"
      by blast
    then show ?thesis by (simp add: fieldRange_def fld_def)
  qed
  have r5: "writeCustomerField ''  '' (fld (Num 0) 1 2) = Inr (placeValue ''  '' 1 2 (toText (Num 0)))"
  proof -
    from t [of "''  ''" "fld (Num 0) 1 2" "[]" "[]" exampleWipJob "[]"]
    have "val (fld (Num 0) 1 2) \<noteq> Null \<longrightarrow>
      writeCustomerField ''  '' (fld (Num 0) 1 2) =
        (if val (fld (Num 0) 1 2) \<noteq> Undefined
         then Inr (placeValue ''  '' (pos (fld (Num 0) 1 2)) (len (fld (Num 0) 1 2))
                (toText (val (fld (Num 0) 1 2))))
         else Inr ''  '')"
      by blast
    then show ?thesis by (simp add: fld_def)
  qed
  have r6: "val (fld (Num 0) 1 2) \<noteq> Null" by (simp add: fld_def)
  from j1 j2 j3 w1 w2 c1 c2 c3 r1 r2 r3 r4 r5 r6 show ?thesis by simp
qed

lemma customer_last_byte:
  assumes "layoutOf rcd = customerLayout" and "encodeCustomer rcd = Inr line"
  shows "length line = 758 \<and> line ! 757 = CHR '' ''"
proof -
  have len: "length line = 758" by (rule encodeCustomer_length [OF assms(2)])
  from encodeCustomer_shape [OF assms]
  obtain body where line: "line = body @ '' ''" by blast
  with len have "length body = 757" by simp
  with line have "line ! 757 = CHR '' ''" by (simp add: nth_append)
  with len show ?thesis by simp
qed

section \<open>C10: the layouts tile the line\<close>

text \<open>
  C10. In the job layout (main job, sub-job and WIP job alike) and in the customer
  layout every field starts where the one before it ends, the first at byte 1; so no
  two fields overlap and every byte from 1 to the end lies in exactly one field. The
  job layout ends with \<open>forest_type_id\<close> at byte 560 and the customer layout with
  \<open>PointOfTitleTransfer\<close> at byte 757. The records the three mapping functions build
  have these layouts, and byte 758 of every encoded customer line is a space.
\<close>

theorem layouts_contiguous:
  "contiguousFrom 1 jobLayout \<and> layoutEnd 1 jobLayout = 560 + 1 \<and> nonOverlapping jobLayout \<and>
   last jobLayout = (''forest_type_id'', 546, 15) \<and>
   (1 \<le> b \<and> b \<le> 560 \<longrightarrow>
      (\<exists>!f. f \<in> set jobLayout \<and> fst (snd f) \<le> b \<and> b < fst (snd f) + snd (snd f))) \<and>
   contiguousFrom 1 customerLayout \<and> layoutEnd 1 customerLayout = 757 + 1 \<and>
   nonOverlapping customerLayout \<and>
   last customerLayout = (''PointOfTitleTransfer'', 747, 11) \<and>
   (1 \<le> b \<and> b \<le> 757 \<longrightarrow>
      (\<exists>!f. f \<in> set customerLayout \<and> fst (snd f) \<le> b \<and> b < fst (snd f) + snd (snd f))) \<and>
   layoutOf (jobRecord e jobId subJobId monarchCustomerId poNumber dueDate shipDate contactName order)
     = jobLayout \<and>
   layoutOf (mapCustomer today n customer) = customerLayout \<and>
   (mapWipRow we callNo r = Inr (WipAccepted wjob) \<longrightarrow> layoutOf (wj_fields wjob) = jobLayout) \<and>
   (layoutOf rcd = customerLayout \<longrightarrow> encodeCustomer rcd = Inr line \<longrightarrow>
      length line = 758 \<and> line ! 757 = CHR '' '')"
proof -
  have cj: "contiguousFrom 1 jobLayout" by (rule contiguous_jobLayout)
  have cc: "contiguousFrom 1 customerLayout" by (rule contiguous_customerLayout)
  have ej: "layoutEnd 1 jobLayout = 561" by (rule end_jobLayout)
  have ec: "layoutEnd 1 customerLayout = 758" by (rule end_customerLayout)
  have lj: "last jobLayout = (''forest_type_id'', 546, 15)" by (simp add: jobLayout_def)
  have lc: "last customerLayout = (''PointOfTitleTransfer'', 747, 11)" by (simp add: customerLayout_def)
  have pj: "\<exists>!f. f \<in> set jobLayout \<and> fst (snd f) \<le> b \<and> b < fst (snd f) + snd (snd f)"
    if "1 \<le> b \<and> b \<le> 560"
    using contiguous_cover [OF cj, of b] that ej by simp
  have pc: "\<exists>!f. f \<in> set customerLayout \<and> fst (snd f) \<le> b \<and> b < fst (snd f) + snd (snd f)"
    if "1 \<le> b \<and> b \<le> 757"
    using contiguous_cover [OF cc, of b] that ec by simp
  show ?thesis
    using cj cc ej ec lj lc pj pc contiguous_nonOverlapping [OF cj] contiguous_nonOverlapping [OF cc]
      layoutOf_jobRecord [of e jobId subJobId monarchCustomerId poNumber dueDate shipDate contactName order]
      layoutOf_mapCustomer [of today n customer] layoutOf_mapWipRow [of we callNo r wjob]
      customer_last_byte [of rcd line]
    by (simp only: simp_thms) simp
qed

text \<open>
  C10, witness: byte 560 of the job layout and byte 757 of the customer layout lie in
  exactly one field, the WIP job built from a sheet row has the job layout, and the
  line of a customer record ends with a space at byte 758.
\<close>

theorem layouts_contiguous_witness:
  "(\<exists>!f. f \<in> set jobLayout \<and> fst (snd f) \<le> 560 \<and> 560 < fst (snd f) + snd (snd f)) \<and>
   (\<exists>!f. f \<in> set customerLayout \<and> fst (snd f) \<le> 757 \<and> 757 < fst (snd f) + snd (snd f)) \<and>
   mapWipRow exampleWipEnv 0 exampleFilteredRow = Inr (WipAccepted exampleWipJob) \<and>
   layoutOf (wj_fields exampleWipJob) = jobLayout \<and>
   layoutOf exampleCustomerRecord = customerLayout \<and>
   (\<exists>line. encodeCustomer exampleCustomerRecord = Inr line \<and> length line = 758
      \<and> line ! 757 = CHR '' '')"
proof -
  have c1: "layoutOf exampleCustomerRecord = customerLayout"
    by (simp add: exampleCustomerRecord_def layoutOf_mapCustomer)
  have c2: "noNull exampleCustomerRecord"
    by (simp add: exampleCustomerRecord_def noNull_mapCustomer)
  obtain line where e: "encodeCustomer exampleCustomerRecord = Inr line"
    using encodeCustomer_total [OF c2] by blast
  note t = layouts_contiguous [of 560 exampleEnv "[]" "[]" "[]" "[]" "[]" "[]" "[]" "[]" "[]" 1 "[]"
      exampleWipEnv 0 exampleFilteredRow exampleWipJob exampleCustomerRecord line]
  note u = layouts_contiguous [of 757 exampleEnv "[]" "[]" "[]" "[]" "[]" "[]" "[]" "[]" "[]" 1 "[]"
      exampleWipEnv 0 exampleFilteredRow exampleWipJob exampleCustomerRecord line]
  from t have p1: "\<exists>!f. f \<in> set jobLayout \<and> fst (snd f) \<le> 560 \<and> 560 < fst (snd f) + snd (snd f)"
    by simp
  from u have p2: "\<exists>!f. f \<in> set customerLayout \<and> fst (snd f) \<le> 757 \<and> 757 < fst (snd f) + snd (snd f)"
    by simp
  from t mapWipRow_example have p3: "layoutOf (wj_fields exampleWipJob) = jobLayout"
    by blast
  from t c1 e have p4: "length line = 758 \<and> line ! 757 = CHR '' ''"
    by blast
  from p1 p2 p3 p4 c1 e mapWipRow_example show ?thesis by blast
qed

lemma processInvoice_example:
  "processInvoice exampleEnv exampleCustomerData 0 ''520'' exampleOrder [exampleShipping]
     = Inr (Accepted exampleJob [exampleSubJob])"
  by code_simp


lemma length_blankLeadingZeros [simp]: "length (blankLeadingZeros p) = length p"
proof -
  have "length (takeWhile (\<lambda>c. c = CHR ''0'') p) + length (dropWhile (\<lambda>c. c = CHR ''0'') p) = length p"
    by (metis length_append takeWhile_dropWhile_id)
  then show ?thesis by (simp add: blankLeadingZeros_def)
qed






lemma job_id_of_jobRecord:
  "map_of (jobRecord e jobId subId cust po due ship contact order) ''job_id'' = Some (fld (Str jobId) 1 8)"
  by (simp add: jobRecord_def Let_def)

lemma processInvoice_job_ids:
  assumes "processInvoice e cd k invoice firstOrder rest = Inr (Accepted m subs)"
  shows "\<forall>j \<in> set (m # subs). map_of j ''job_id'' = Some (fld (Str (jobIdOfInvoice invoice)) 1 8)"
  using assms
  by (auto simp: processInvoice_def Let_def job_id_of_jobRecord
      split: search_outcome.splits option.splits list.splits sum.splits)


section \<open>C7: the job id\<close>




lemma falsy_text_fails_pattern:
  "\<not> truthy v \<Longrightarrow> \<not> matchesOrderIdPattern (trim (toText v))"
proof (cases v)
  case Undefined
  have "\<not> matchesOrderIdPattern (trim ''undefined'')" by code_simp
  with Undefined show ?thesis by simp
next
  case Null
  have "\<not> matchesOrderIdPattern (trim ''null'')" by code_simp
  with Null show ?thesis by simp
next
  case (Bool b)
  assume "\<not> truthy v"
  with Bool have "b = False" by simp
  moreover have "\<not> matchesOrderIdPattern (trim ''false'')" by code_simp
  ultimately show ?thesis using Bool by simp
next
  case (Num n)
  assume "\<not> truthy v"
  with Num have "n = 0" by simp
  moreover have "\<not> matchesOrderIdPattern (trim (numToString 0))" by code_simp
  ultimately show ?thesis using Num by simp
next
  case (Str s)
  assume "\<not> truthy v"
  with Str have "s = []" by simp
  moreover have "\<not> matchesOrderIdPattern (trim [])" by code_simp
  ultimately show ?thesis using Str by simp
qed

lemma isValidOrderId_iff: "isValidOrderId v = matchesOrderIdPattern (trim (toText v))"
  using falsy_text_fails_pattern [of v] by (auto simp: isValidOrderId_def)

lemma filterRow_cases:
  "filterRow i r =
     (if matchesOrderIdPattern (orderIdText r) then Inr (keptRow r)
      else Inl \<lparr>sk_rowNumber = i + 2,
                sk_orderId = jsOr (findColumn r orderIdColumns) (Str ''(empty)''),
                sk_customerName = jsOr (findColumn r customerNameColumns) (Str []),
                sk_reason = (if truthy (findColumn r orderIdColumns)
                             then ''Invalid Order ID format: '' @ toText (findColumn r orderIdColumns)
                             else ''Missing Order ID'')\<rparr>)"
  by (simp add: filterRow_def Let_def isValidOrderId_iff orderIdText_def keptRow_def)

lemma filterFrom_eq:
  "filterFrom i rs st =
     \<lparr>filteredData = filteredData st @ map keptRow (filter (\<lambda>r. matchesOrderIdPattern (orderIdText r)) rs),
      skippedRows = skippedRows st @
        concat (map (\<lambda>k. case filterRow (i + k) (rs ! k) of Inl sk \<Rightarrow> [sk] | Inr _ \<Rightarrow> [])
                 [0 ..< length rs])\<rparr>"
proof (induction rs arbitrary: i st)
  case Nil
  show ?case by simp
next
  case (Cons r rs)
  have shift: "map (\<lambda>k. case filterRow (i + k) ((r # rs) ! k) of Inl sk \<Rightarrow> [sk] | Inr _ \<Rightarrow> [])
                 [0 ..< length (r # rs)]
      = (case filterRow i r of Inl sk \<Rightarrow> [sk] | Inr _ \<Rightarrow> [])
        # map (\<lambda>k. case filterRow (Suc i + k) (rs ! k) of Inl sk \<Rightarrow> [sk] | Inr _ \<Rightarrow> [])
            [0 ..< length rs]"
    by (simp add: upt_conv_Cons map_Suc_upt [symmetric] del: upt_Suc)
  show ?case
  proof (cases "matchesOrderIdPattern (orderIdText r)")
    case True
    then have f: "filterRow i r = Inr (keptRow r)" by (simp add: filterRow_cases)
    show ?thesis unfolding shift using True f Cons.IH [of "Suc i"] by simp
  next
    case False
    then obtain sk where f: "filterRow i r = Inl sk" by (simp add: filterRow_cases)
    show ?thesis unfolding shift using False f Cons.IH [of "Suc i"] by simp
  qed
qed

lemma getProp_update_same [simp]: "getProp (AList.update k v r) k = v"
  by (simp add: getProp_def update_conv')

lemma customerName_keptRow:
  "getProp (keptRow r) ''_customerName'' = findColumn r customerNameColumns"
  by (simp add: keptRow_def)

lemma mapWipRows_queries:
  "mapWipRows e k rs st = Inr st' \<Longrightarrow>
   queries st' = queries st @ map (\<lambda>r. jsOr (getProp r ''_customerName'') (Str [])) rs"
proof (induction rs arbitrary: k st)
  case Nil
  then show ?case by simp
next
  case (Cons r rs)
  from Cons.prems show ?case
    by (auto simp: Let_def split: sum.splits wip_result.splits dest!: Cons.IH)
qed

lemma filterValidOrders_filtered:
  "filteredData (filterValidOrders wipData)
     = map keptRow (filter (\<lambda>r. matchesOrderIdPattern (orderIdText r)) wipData)"
  by (simp add: filterValidOrders_def filterFrom_eq)

lemma skipped_numbers_aux:
  "map sk_rowNumber
     (concat (map (\<lambda>k. case filterRow (i + k) (rs ! k) of Inl sk \<Rightarrow> [sk] | Inr _ \<Rightarrow> []) ks))
   = map (\<lambda>k. i + k + 2) (filter (\<lambda>k. \<not> matchesOrderIdPattern (orderIdText (rs ! k))) ks)"
  by (induction ks) (simp_all add: filterRow_cases)

lemma filterValidOrders_skipped:
  "map sk_rowNumber (skippedRows (filterValidOrders wipData))
     = map (\<lambda>k. k + 2) (filter (\<lambda>k. \<not> matchesOrderIdPattern (orderIdText (wipData ! k)))
         [0 ..< length wipData])"
  using skipped_numbers_aux [of 0 wipData "[0 ..< length wipData]"]
  by (simp add: filterValidOrders_def filterFrom_eq)

lemma filter_upt_nth:
  "length (filter (\<lambda>k. P (xs ! k)) [0 ..< length xs]) = length (filter P xs)"
proof -
  have "map (\<lambda>k. xs ! k) [0 ..< length xs] = xs" by (rule map_nth)
  then have "filter P xs = filter P (map (\<lambda>k. xs ! k) [0 ..< length xs])" by simp
  also have "\<dots> = map (\<lambda>k. xs ! k) (filter (\<lambda>k. P (xs ! k)) [0 ..< length xs])"
    by (simp add: filter_map comp_def)
  finally show ?thesis by (metis length_map)
qed

lemma filterValidOrders_partition:
  "length (filteredData (filterValidOrders wipData)) + length (skippedRows (filterValidOrders wipData))
     = length wipData"
proof -
  have "length (skippedRows (filterValidOrders wipData))
      = length (map sk_rowNumber (skippedRows (filterValidOrders wipData)))" by simp
  also have "\<dots> = length (filter (\<lambda>r. \<not> matchesOrderIdPattern (orderIdText r)) wipData)"
    unfolding filterValidOrders_skipped
    using filter_upt_nth [of "\<lambda>r. \<not> matchesOrderIdPattern (orderIdText r)" wipData] by simp
  finally show ?thesis
    using sum_length_filter_compl [of "\<lambda>r. matchesOrderIdPattern (orderIdText r)" wipData]
    by (simp add: filterValidOrders_filtered)
qed

lemma filter_example:
  "mapToMonarchFormat exampleWipEnv (filteredData (filterValidOrders exampleWipData))
     = Inr \<lparr>jobs = [exampleWipJob], wipRejected = [], queries = [Str ''Acme Co'']\<rparr>"
  by code_simp

section \<open>C5: the WIP filter\<close>

text \<open>
  C5. \<open>filterValidOrders\<close> puts a row among the skipped rows exactly when its order-id
  field, converted to a string and trimmed, is not four to seven decimal digits, and
  keeps it for the lookup otherwise; every row goes to one of the two lists, the
  skipped ones with their sheet row number. \<open>mapToMonarchFormat\<close> then queries the
  customer directory once for each kept row, in order, with the customer name found in
  that row: no query is made for a skipped row.
\<close>

theorem wip_filter:
  "(\<exists>sk. filterRow i r = Inl sk) = (\<not> matchesOrderIdPattern (orderIdText r)) \<and>
   (filterRow i r = Inr (keptRow r)) = matchesOrderIdPattern (orderIdText r) \<and>
   filteredData (filterValidOrders wipData)
     = map keptRow (filter (\<lambda>r. matchesOrderIdPattern (orderIdText r)) wipData) \<and>
   map sk_rowNumber (skippedRows (filterValidOrders wipData))
     = map (\<lambda>k. k + 2) (filter (\<lambda>k. \<not> matchesOrderIdPattern (orderIdText (wipData ! k)))
         [0 ..< length wipData]) \<and>
   length (filteredData (filterValidOrders wipData)) + length (skippedRows (filterValidOrders wipData))
     = length wipData \<and>
   (mapToMonarchFormat e (filteredData (filterValidOrders wipData)) = Inr st \<longrightarrow>
      queries st = map (\<lambda>r. jsOr (findColumn r customerNameColumns) (Str []))
                     (filter (\<lambda>r. matchesOrderIdPattern (orderIdText r)) wipData))"
proof -
  have q: "queries st = map (\<lambda>r. jsOr (findColumn r customerNameColumns) (Str []))
                     (filter (\<lambda>r. matchesOrderIdPattern (orderIdText r)) wipData)"
    if "mapToMonarchFormat e (filteredData (filterValidOrders wipData)) = Inr st"
    using mapWipRows_queries [OF that [unfolded mapToMonarchFormat_def]]
    by (simp add: filterValidOrders_filtered comp_def customerName_keptRow)
  show ?thesis
    using q filterValidOrders_filtered [of wipData] filterValidOrders_skipped [of wipData]
      filterValidOrders_partition [of wipData]
    by (simp add: filterRow_cases)
qed

text \<open>
  C5, witness: a sheet whose first row has the order number 12345 and whose second has
  the order id ABC12. The first row is kept and looked up, the second is skipped as
  sheet row 3.
\<close>

theorem wip_filter_witness:
  "matchesOrderIdPattern (orderIdText exampleWipRow) \<and>
   \<not> matchesOrderIdPattern (orderIdText (exampleWipData ! 1)) \<and>
   filteredData (filterValidOrders exampleWipData) = [keptRow exampleWipRow] \<and>
   map sk_rowNumber (skippedRows (filterValidOrders exampleWipData)) = [3] \<and>
   mapToMonarchFormat exampleWipEnv (filteredData (filterValidOrders exampleWipData))
     = Inr \<lparr>jobs = [exampleWipJob], wipRejected = [], queries = [Str ''Acme Co'']\<rparr> \<and>
   queries \<lparr>jobs = [exampleWipJob], wipRejected = [], queries = [Str ''Acme Co'']\<rparr>
     = [jsOr (findColumn exampleWipRow customerNameColumns) (Str [])]"
proof -
  have m1: "matchesOrderIdPattern (orderIdText exampleWipRow)" by code_simp
  have m2: "\<not> matchesOrderIdPattern (orderIdText (exampleWipData ! 1))" by code_simp
  have d: "exampleWipData = [exampleWipRow, exampleWipData ! 1]"
    by (simp add: exampleWipData_def)
  note t = wip_filter [of 0 exampleWipRow exampleWipData exampleWipEnv
      "\<lparr>jobs = [exampleWipJob], wipRejected = [], queries = [Str ''Acme Co'']\<rparr>"]
  have f: "filter (\<lambda>r. matchesOrderIdPattern (orderIdText r)) exampleWipData = [exampleWipRow]"
    using m1 m2 by (subst d) simp
  have p1: "filteredData (filterValidOrders exampleWipData) = [keptRow exampleWipRow]"
    using t f by simp
  have g: "filter (\<lambda>k. \<not> matchesOrderIdPattern (orderIdText (exampleWipData ! k))) [0 ..< length exampleWipData]
      = [1]"
  proof -
    have "length exampleWipData = 2" by (simp add: exampleWipData_def)
    moreover have "exampleWipData ! 0 = exampleWipRow" by (simp add: exampleWipData_def)
    ultimately show ?thesis using m1 m2 by (simp add: upt_conv_Cons)
  qed
  have p2: "map sk_rowNumber (skippedRows (filterValidOrders exampleWipData)) = [3]"
    using t g by simp
  have p3: "queries \<lparr>jobs = [exampleWipJob], wipRejected = [], queries = [Str ''Acme Co'']\<rparr>
     = [jsOr (findColumn exampleWipRow customerNameColumns) (Str [])]"
    using t filter_example f by simp
  from m1 m2 p1 p2 p3 filter_example show ?thesis by simp
qed

lemma readQuoted_doubleQuotes:
  assumes "rest = [] \<or> hd rest \<noteq> CHR 0x22"
  shows "readQuoted (doubleQuotes s @ CHR 0x22 # rest) = Some (s, rest)"
proof (induction s)
  case Nil
  show ?case using assms by (cases rest) (simp_all add: doubleQuotes_def)
next
  case (Cons c s)
  have step: "doubleQuotes (x # s) = (if x = CHR 0x22 then [CHR 0x22, CHR 0x22] else [x]) @ doubleQuotes s"
    for x by (simp add: doubleQuotes_def)
  show ?case
  proof (cases "c = CHR 0x22")
    case True
    with Cons.IH show ?thesis by (simp add: step)
  next
    case False
    obtain x xs where x: "doubleQuotes s @ CHR 0x22 # rest = x # xs"
      by (cases "doubleQuotes s @ CHR 0x22 # rest") simp_all
    with Cons.IH False show ?thesis by (simp add: step)
  qed
qed

lemma readQuoted_csvQuote:
  "rest = [] \<or> hd rest \<noteq> CHR 0x22 \<Longrightarrow>
   (case csvQuote s @ rest of c # cs \<Rightarrow> c = CHR 0x22 \<and> readQuoted cs = Some (s, rest) | [] \<Rightarrow> False)"
  by (simp add: csvQuote_def readQuoted_doubleQuotes)

















section \<open>C9: the rejection report\<close>




lemma map_of_distinct_mem:
  "distinct (map fst al) \<Longrightarrow> (map_of al k = Some v) = ((k, v) \<in> set al)"
  by (simp add: map_of_eq_Some_iff)

lemma set_update_distinct:
  assumes "distinct (map fst al)" and "(k, v) \<in> set al"
  shows "set (AList.update k v' al) = insert (k, v') (set al - {(k, v)})"
  using assms
proof (induction al)
  case Nil
  then show ?case by simp
next
  case (Cons p al)
  obtain k0 v0 where p: "p = (k0, v0)" by (cases p)
  show ?case
  proof (cases "k0 = k")
    case True
    with Cons.prems p have v0: "v0 = v" and notin: "k \<notin> fst ` set al"
      by (auto simp: image_iff)
    from notin have "(k, v) \<notin> set al" by (auto simp: image_iff)
    with True p v0 show ?thesis by auto
  next
    case False
    with Cons.prems p have m: "(k, v) \<in> set al" and d: "distinct (map fst al)" by auto
    have "k0 \<notin> fst ` set al" using Cons.prems(1) p by simp
    then have "(k0, v0) \<noteq> (k, v)" "(k0, v0) \<notin> set al" using False by (auto simp: image_iff)
    with Cons.IH [OF d m] False p show ?thesis by auto
  qed
qed

lemma groupOrders_inv:
  "groupsInv groups seen \<Longrightarrow> groupOrders groups orders = Inr groups' \<Longrightarrow>
   groupsInv groups' (seen @ orders)"
proof (induction orders arbitrary: groups seen)
  case Nil
  then show ?case by simp
next
  case (Cons order orders)
  let ?k = "invoiceKey order"
  from Cons.prems(1) have dist: "distinct (map fst groups)"
    and keys: "fst ` set groups = invoiceKey ` set seen"
    and lines: "\<forall>(k, os) \<in> set groups. os = filter (\<lambda>ln. invoiceKey ln = k) seen"
    by (simp_all add: groupsInv_def)
  show ?case
  proof (cases "map_of groups ?k")
    case None
    then have new: "?k \<notin> fst ` set groups" by (simp add: map_of_eq_None_iff)
    with Cons.prems(2) None have run: "groupOrders (groups @ [(?k, [order])]) orders = Inr groups'"
      by (simp add: invoiceKey_def Let_def split: if_splits)
    have "?k \<notin> invoiceKey ` set seen" using new keys by simp
    then have none: "filter (\<lambda>ln. invoiceKey ln = ?k) seen = []"
      by (auto simp: filter_empty_conv image_iff)
    have other: "filter (\<lambda>ln. invoiceKey ln = k) (seen @ [order]) = filter (\<lambda>ln. invoiceKey ln = k) seen"
      if "k \<in> fst ` set groups" for k using that new by auto
    have "groupsInv (groups @ [(?k, [order])]) (seen @ [order])"
      unfolding groupsInv_def
    proof (intro conjI)
      show "distinct (map fst (groups @ [(?k, [order])]))" using dist new by simp
      show "fst ` set (groups @ [(?k, [order])]) = invoiceKey ` set (seen @ [order])"
        using keys by auto
      show "\<forall>(k, os) \<in> set (groups @ [(?k, [order])]).
          os = filter (\<lambda>ln. invoiceKey ln = k) (seen @ [order])"
      proof (clarify)
        fix k os assume "(k, os) \<in> set (groups @ [(?k, [order])])"
        then consider "(k, os) \<in> set groups" | "k = ?k" "os = [order]" by auto
        then show "os = filter (\<lambda>ln. invoiceKey ln = k) (seen @ [order])"
        proof cases
          case 1
          then have "k \<in> fst ` set groups" by force
          with other [OF this] lines 1 show ?thesis by auto
        next
          case 2
          with none show ?thesis by simp
        qed
      qed
    qed
    from Cons.IH [OF this run] show ?thesis by simp
  next
    case (Some os)
    with Cons.prems(2) have run: "groupOrders (AList.update ?k (os @ [order]) groups) orders = Inr groups'"
      by (simp add: invoiceKey_def Let_def)
    from Some dist have mem: "(?k, os) \<in> set groups" by (simp add: map_of_distinct_mem)
    have os: "os = filter (\<lambda>ln. invoiceKey ln = ?k) seen" using lines mem by auto
    have upd: "set (AList.update ?k (os @ [order]) groups)
        = insert (?k, os @ [order]) (set groups - {(?k, os)})"
      by (rule set_update_distinct [OF dist mem])
    have "groupsInv (AList.update ?k (os @ [order]) groups) (seen @ [order])"
      unfolding groupsInv_def
    proof (intro conjI)
      show "distinct (map fst (AList.update ?k (os @ [order]) groups))"
        using dist by (simp add: distinct_update)
      show "fst ` set (AList.update ?k (os @ [order]) groups) = invoiceKey ` set (seen @ [order])"
      proof -
        have in_keys: "?k \<in> fst ` set groups" using mem by force
        have "set (map fst (AList.update ?k (os @ [order]) groups)) = set (map fst groups)"
          using in_keys by (simp add: update_keys)
        then have "fst ` set (AList.update ?k (os @ [order]) groups) = fst ` set groups"
          by simp
        with in_keys show ?thesis using keys by auto
      qed
      show "\<forall>(k, os') \<in> set (AList.update ?k (os @ [order]) groups).
          os' = filter (\<lambda>ln. invoiceKey ln = k) (seen @ [order])"
      proof (clarify)
        fix k os' assume "(k, os') \<in> set (AList.update ?k (os @ [order]) groups)"
        then consider "k = ?k" "os' = os @ [order]" | "(k, os') \<in> set groups" "(k, os') \<noteq> (?k, os)"
          by (auto simp: upd)
        then show "os' = filter (\<lambda>ln. invoiceKey ln = k) (seen @ [order])"
        proof cases
          case 1
          with os show ?thesis by simp
        next
          case 2
          have "k \<noteq> ?k"
          proof
            assume "k = ?k"
            with 2(1) dist mem have "os' = os" by (metis eq_key_imp_eq_value)
            with \<open>k = ?k\<close> 2(2) show False by simp
          qed
          with lines 2(1) show ?thesis by auto
        qed
      qed
    qed
    from Cons.IH [OF this run] show ?thesis by simp
  qed
qed

lemma groupOrders_groups:
  assumes "groupOrders [] orderData = Inr groups"
  shows "distinct (map fst groups) \<and> fst ` set groups = invoiceKey ` set orderData \<and>
     (\<forall>(k, os) \<in> set groups. os = filter (\<lambda>ln. invoiceKey ln = k) orderData \<and> os \<noteq> [])"
proof -
  have "groupsInv [] []" by (simp add: groupsInv_def)
  from groupOrders_inv [OF this assms] have inv: "groupsInv groups orderData" by simp
  have "os \<noteq> []" if "(k, os) \<in> set groups" for k os
  proof -
    from that have "k \<in> fst ` set groups" by force
    with inv have "k \<in> invoiceKey ` set orderData" by (simp add: groupsInv_def)
    moreover from that inv have "os = filter (\<lambda>ln. invoiceKey ln = k) orderData"
      by (auto simp: groupsInv_def)
    ultimately show ?thesis by (auto simp: filter_empty_conv)
  qed
  with inv show ?thesis by (auto simp: groupsInv_def)
qed

lemma set_objectEntries [simp]: "set (objectEntries obj) = set obj"
  by (auto simp: objectEntries_def)

lemma distinct_keys_objectEntries:
  assumes "distinct (map fst obj)"
  shows "distinct (map fst (objectEntries obj))"
proof -
  let ?A = "filter (\<lambda>(k, v). isArrayIndex k) obj" and ?B = "filter (\<lambda>(k, v). \<not> isArrayIndex k) obj"
  have dA: "distinct (map fst ?A)" and dB: "distinct (map fst ?B)"
    using assms by (simp_all add: distinct_map_filter)
  have dS: "distinct (map fst (sort_key (\<lambda>(k, v). natOfDigits k) ?A))"
    using dA by (simp add: distinct_map)
  have disj: "fst ` set ?A \<inter> fst ` set ?B = {}" by auto
  show ?thesis
    unfolding objectEntries_def using dS dB disj by (simp add: image_Un)
qed

lemma processGroups_passes:
  assumes "\<forall>g \<in> set gs. snd g \<noteq> []" and "processGroups e cd k gs st = Inr st'"
  shows "\<exists>rs. length rs = length gs \<and>
           (\<forall>i < length gs. groupPass e cd (k + i) (gs ! i) = Inr (rs ! i)) \<and>
           mainJobs st' = mainJobs st @ concat (map mainOf rs) \<and>
           subJobs st' = subJobs st @ concat (map subsOf rs) \<and>
           rejectedOrders st' = rejectedOrders st @ concat (map rejectedOf rs)"
  using assms
proof (induction gs arbitrary: k st)
  case Nil
  then show ?case by simp
next
  case (Cons g gs)
  obtain invoiceNumber orders where g: "g = (invoiceNumber, orders)" by (cases g)
  from Cons.prems(1) g obtain firstOrder rest where orders: "orders = firstOrder # rest"
    by (cases orders) auto
  from Cons.prems(2) g orders obtain r where
    r: "processInvoice e cd k invoiceNumber firstOrder rest = Inr r"
    by (auto split: sum.splits)
  define st1 where "st1 = (case r of
      Rejected rj \<Rightarrow> st\<lparr>rejectedOrders := rejectedOrders st @ [rj]\<rparr>
    | Accepted m subs \<Rightarrow> st\<lparr>mainJobs := mainJobs st @ [m], subJobs := subJobs st @ subs\<rparr>)"
  have run: "processGroups e cd (Suc k) gs st1 = Inr st'"
    using Cons.prems(2) g orders r by (cases r) (simp_all add: st1_def)
  have ne: "\<forall>g \<in> set gs. snd g \<noteq> []" using Cons.prems(1) by simp
  from Cons.IH [OF ne run] obtain rs where len: "length rs = length gs"
    and pass: "\<forall>i < length gs. groupPass e cd (Suc k + i) (gs ! i) = Inr (rs ! i)"
    and m: "mainJobs st' = mainJobs st1 @ concat (map mainOf rs)"
    and s: "subJobs st' = subJobs st1 @ concat (map subsOf rs)"
    and j: "rejectedOrders st' = rejectedOrders st1 @ concat (map rejectedOf rs)"
    by blast
  have first: "groupPass e cd k g = Inr r" using r g orders by (simp add: groupPass_def)
  have st1m: "mainJobs st1 = mainJobs st @ mainOf r" and st1s: "subJobs st1 = subJobs st @ subsOf r"
    and st1j: "rejectedOrders st1 = rejectedOrders st @ rejectedOf r"
    by (cases r; simp add: st1_def)+
  have all: "\<forall>i < length (g # gs). groupPass e cd (k + i) ((g # gs) ! i) = Inr ((r # rs) ! i)"
  proof (intro allI impI)
    fix i assume i: "i < length (g # gs)"
    show "groupPass e cd (k + i) ((g # gs) ! i) = Inr ((r # rs) ! i)"
    proof (cases i)
      case 0
      with first show ?thesis by simp
    next
      case (Suc i')
      with i pass show ?thesis by simp
    qed
  qed
  show ?case
    by (rule exI [of _ "r # rs"]) (use len all m s j st1m st1s st1j in simp)
qed

lemma processInvoice_accepted:
  assumes "processInvoice e cd i k firstOrder rest = Inr (Accepted m subs)"
  shows "\<exists>cust po due ship contact.
     m = jobRecord e (jobIdOfInvoice k) ''    '' cust po due ship contact firstOrder \<and>
     subs = map (\<lambda>j. jobRecord e (jobIdOfInvoice k) (subJobIdOf (Suc j)) cust po due ship contact (rest ! j))
              [0 ..< length rest]"
proof -
  define po where "po = cellOr firstOrder ''Custom Field 1-po#'' []"
  define due where "due = (if truthy (cell firstOrder ''Due date'')
                    then formatDateOf e (cellOr firstOrder ''Due date'' []) else [])"
  define ship where "ship = (if truthy (cell firstOrder ''Shipping date'')
                     then formatDateOf e (cellOr firstOrder ''Shipping date'' []) else [])"
  define contact where "contact = contactNameOf cd (cellOr firstOrder ''Customer Name'' [])"
  from assms obtain cid others idText where
    "searchCustomers e i (Str (cellOr firstOrder ''Customer Name'' [])) = Returned (Some (cid # others))"
    and "toString cid = Inr idText"
    by (auto simp: processInvoice_def Let_def
        split: search_outcome.splits option.splits list.splits sum.splits)
  with assms have m: "m = jobRecord e (jobIdOfInvoice k) ''    '' (substring0 idText 8) po due ship
      contact firstOrder"
    and subs: "subs = map (\<lambda>i. jobRecord e (jobIdOfInvoice k) (subJobIdOf i) (substring0 idText 8) po due
                   ship contact ((firstOrder # rest) ! i)) [1 ..< length (firstOrder # rest)]"
    by (simp_all add: processInvoice_def Let_def po_def due_def ship_def contact_def)
  have "[1 ..< length (firstOrder # rest)] = map Suc [0 ..< length rest]"
    by (simp add: map_Suc_upt)
  with subs have "subs = map (\<lambda>j. jobRecord e (jobIdOfInvoice k) (subJobIdOf (Suc j))
      (substring0 idText 8) po due ship contact (rest ! j)) [0 ..< length rest]"
    by (simp add: comp_def)
  with m show ?thesis by blast
qed

lemma processInvoice_found:
  assumes "searchCustomers e i (Str (cellOr firstOrder ''Customer Name'' [])) = Returned (Some (cid # others))"
    and "cid \<noteq> Undefined" and "cid \<noteq> Null"
  shows "\<exists>m subs. processInvoice e cd i k firstOrder rest = Inr (Accepted m subs)"
proof -
  from assms(2,3) have "toString cid = Inr (toText cid)" by (cases cid) simp_all
  with assms(1) show ?thesis by (simp add: processInvoice_def Let_def)
qed

lemma sub_job_id_of_jobRecord:
  "map_of (jobRecord e jobId subId cust po due ship contact order) ''sub_job_id'' = Some (fld (Str subId) 9 4)"
  by (simp add: jobRecord_def Let_def)

lemma length_digitsOf: "n < 10000 \<Longrightarrow> length (digitsOf n) \<le> 4"
proof -
  assume n: "n < 10000"
  have d1: "length (digitsOf m) = 1" if "m < 10" for m using that by (simp add: digitsOf.simps)
  have d2: "length (digitsOf m) \<le> 2" if "m < 100" for m
    using that d1 [of "m div 10"] by (subst digitsOf.simps) (auto simp: less_mult_imp_div_less)
  have d3: "length (digitsOf m) \<le> 3" if "m < 1000" for m
    using that d2 [of "m div 10"] by (subst digitsOf.simps) (auto simp: less_mult_imp_div_less)
  show ?thesis
    using n d3 [of "n div 10"] by (subst digitsOf.simps) (auto simp: less_mult_imp_div_less)
qed

lemma subJobIdOf_small:
  "i < 10000 \<Longrightarrow> subJobIdOf i = numToString (int i) @ replicate (4 - length (numToString (int i))) CHR '' ''"
  using length_digitsOf [of i]
  by (simp add: subJobIdOf_def substring0_def padEnd_def numToString_def magnitudeText_def Let_def)

lemma mapOrdersToMonarch_passes:
  assumes "mapOrdersToMonarch e cd orderData = Inr st"
  shows "\<exists>gs rs. distinct (map fst gs) \<and> fst ` set gs = invoiceKey ` set orderData \<and>
         (\<forall>g \<in> set gs. snd g = filter (\<lambda>ln. invoiceKey ln = fst g) orderData \<and> snd g \<noteq> []) \<and>
         length rs = length gs \<and>
         (\<forall>p < length gs. groupPass e cd p (gs ! p) = Inr (rs ! p)) \<and>
         mainJobs st = concat (map mainOf rs) \<and> subJobs st = concat (map subsOf rs) \<and>
         rejectedOrders st = concat (map rejectedOf rs)"
proof -
  from assms obtain groups where g: "groupOrders [] orderData = Inr groups"
    and run: "processGroups e cd 0 (objectEntries groups)
                \<lparr>mainJobs = [], subJobs = [], rejectedOrders = []\<rparr> = Inr st"
    by (auto simp: mapOrdersToMonarch_def split: sum.splits)
  from groupOrders_groups [OF g] have d: "distinct (map fst groups)"
    and k: "fst ` set groups = invoiceKey ` set orderData"
    and l: "\<forall>(k, os) \<in> set groups. os = filter (\<lambda>ln. invoiceKey ln = k) orderData \<and> os \<noteq> []"
    by simp_all
  let ?gs = "objectEntries groups"
  have lines: "\<forall>g \<in> set ?gs. snd g = filter (\<lambda>ln. invoiceKey ln = fst g) orderData \<and> snd g \<noteq> []"
    using l by auto
  then have ne: "\<forall>g \<in> set ?gs. snd g \<noteq> []" by blast
  from processGroups_passes [OF ne run] obtain rs where "length rs = length ?gs"
    and "\<forall>p < length ?gs. groupPass e cd p (?gs ! p) = Inr (rs ! p)"
    and "mainJobs st = concat (map mainOf rs)" and "subJobs st = concat (map subsOf rs)"
    and "rejectedOrders st = concat (map rejectedOf rs)"
    by auto
  note r = this
  have k': "fst ` set ?gs = invoiceKey ` set orderData" using k by simp
  show ?thesis
    using distinct_keys_objectEntries [OF d] k' lines r
    by (intro exI [of _ ?gs] exI [of _ rs]) blast
qed

lemma mapOrders_example:
  "mapOrdersToMonarch exampleEnv exampleCustomerData exampleOrders
     = Inr \<lparr>mainJobs = [exampleJob], subJobs = [exampleSubJob],
            rejectedOrders = [exampleDownRejected, exampleRejected]\<rparr>"
  by code_simp

section \<open>C3: one main job and the sub-jobs of an invoice\<close>

text \<open>
  C3. When the pass for an invoice of \<open>N\<close> order lines ends with jobs, these are one
  main job, built from the first line with the sub-job id of four spaces, and \<open>N - 1\<close>
  sub-jobs, the sub-job at place \<open>j\<close> built from line \<open>j + 1\<close> of the invoice with the
  sub-job id \<open>j + 1\<close> (below 10000 its decimal digits, padded on the right with spaces
  to four characters); all of them carry the job id derived from the invoice number and
  the same customer. The pass ends so whenever the lookup returns an array whose first
  entry has a \<open>customer_id\<close> that is neither \<open>undefined\<close> nor \<open>null\<close>. When
  \<open>mapOrdersToMonarch\<close> returns, its groups are the invoice numbers of the file, each
  once, each with its lines in the order of the file, and the main jobs, the sub-jobs
  and the rejected orders it returns are those of the passes over these groups, in the
  order of the passes.
\<close>

theorem grouping_invariant:
  "(processInvoice e cd i k firstOrder rest = Inr (Accepted m subs) \<longrightarrow>
      (\<exists>cust po due ship contact.
         m = jobRecord e (jobIdOfInvoice k) ''    '' cust po due ship contact firstOrder \<and>
         subs = map (\<lambda>j. jobRecord e (jobIdOfInvoice k) (subJobIdOf (Suc j)) cust po due ship contact
                       (rest ! j)) [0 ..< length rest]) \<and>
      map_of m ''sub_job_id'' = Some (fld (Str ''    '') 9 4) \<and>
      length subs = length rest \<and>
      (\<forall>j < length rest. map_of (subs ! j) ''sub_job_id'' = Some (fld (Str (subJobIdOf (Suc j))) 9 4)) \<and>
      (\<forall>job \<in> set (m # subs). map_of job ''job_id'' = Some (fld (Str (jobIdOfInvoice k)) 1 8))) \<and>
   (searchCustomers e i (Str (cellOr firstOrder ''Customer Name'' [])) = Returned (Some (cid # others)) \<and>
    cid \<noteq> Undefined \<and> cid \<noteq> Null \<longrightarrow>
      (\<exists>m subs. processInvoice e cd i k firstOrder rest = Inr (Accepted m subs))) \<and>
   (n < 10000 \<longrightarrow>
      subJobIdOf n = numToString (int n) @ replicate (4 - length (numToString (int n))) CHR '' '') \<and>
   (mapOrdersToMonarch e cd orderData = Inr st \<longrightarrow>
      (\<exists>gs rs. distinct (map fst gs) \<and> fst ` set gs = invoiceKey ` set orderData \<and>
         (\<forall>g \<in> set gs. snd g = filter (\<lambda>ln. invoiceKey ln = fst g) orderData \<and> snd g \<noteq> []) \<and>
         length rs = length gs \<and>
         (\<forall>p < length gs. groupPass e cd p (gs ! p) = Inr (rs ! p)) \<and>
         mainJobs st = concat (map mainOf rs) \<and> subJobs st = concat (map subsOf rs) \<and>
         rejectedOrders st = concat (map rejectedOf rs)))"
proof (intro conjI impI)
  assume a: "processInvoice e cd i k firstOrder rest = Inr (Accepted m subs)"
  from processInvoice_accepted [OF a] obtain cust po due ship contact where
    m: "m = jobRecord e (jobIdOfInvoice k) ''    '' cust po due ship contact firstOrder"
    and s: "subs = map (\<lambda>j. jobRecord e (jobIdOfInvoice k) (subJobIdOf (Suc j)) cust po due ship contact
                       (rest ! j)) [0 ..< length rest]"
    by blast
  from m s show "\<exists>cust po due ship contact.
         m = jobRecord e (jobIdOfInvoice k) ''    '' cust po due ship contact firstOrder \<and>
         subs = map (\<lambda>j. jobRecord e (jobIdOfInvoice k) (subJobIdOf (Suc j)) cust po due ship contact
                       (rest ! j)) [0 ..< length rest]"
    by blast
  show "map_of m ''sub_job_id'' = Some (fld (Str ''    '') 9 4)"
    by (simp add: m sub_job_id_of_jobRecord)
  show "length subs = length rest" by (simp add: s)
  show "\<forall>j < length rest. map_of (subs ! j) ''sub_job_id'' = Some (fld (Str (subJobIdOf (Suc j))) 9 4)"
    by (simp add: s sub_job_id_of_jobRecord)
  show "\<forall>job \<in> set (m # subs). map_of job ''job_id'' = Some (fld (Str (jobIdOfInvoice k)) 1 8)"
    by (rule processInvoice_job_ids [OF a])
next
  assume "searchCustomers e i (Str (cellOr firstOrder ''Customer Name'' [])) = Returned (Some (cid # others)) \<and>
    cid \<noteq> Undefined \<and> cid \<noteq> Null"
  then show "\<exists>m subs. processInvoice e cd i k firstOrder rest = Inr (Accepted m subs)"
    using processInvoice_found by blast
next
  assume "n < 10000"
  then show "subJobIdOf n = numToString (int n) @ replicate (4 - length (numToString (int n))) CHR '' ''"
    by (rule subJobIdOf_small)
next
  assume "mapOrdersToMonarch e cd orderData = Inr st"
  then show "\<exists>gs rs. distinct (map fst gs) \<and> fst ` set gs = invoiceKey ` set orderData \<and>
         (\<forall>g \<in> set gs. snd g = filter (\<lambda>ln. invoiceKey ln = fst g) orderData \<and> snd g \<noteq> []) \<and>
         length rs = length gs \<and>
         (\<forall>p < length gs. groupPass e cd p (gs ! p) = Inr (rs ! p)) \<and>
         mainJobs st = concat (map mainOf rs) \<and> subJobs st = concat (map subsOf rs) \<and>
         rejectedOrders st = concat (map rejectedOf rs)"
    by (rule mapOrdersToMonarch_passes)
qed

text \<open>
  C3, witness: a file of four lines. Invoice 520 has two lines and a known customer: one
  main job and one sub-job with the sub-job id 1, both with the job id of 520. The two
  other invoices are rejected.
\<close>

theorem grouping_invariant_witness:
  "processInvoice exampleEnv exampleCustomerData 0 ''520'' exampleOrder [exampleShipping]
     = Inr (Accepted exampleJob [exampleSubJob]) \<and>
   map_of exampleJob ''sub_job_id'' = Some (fld (Str ''    '') 9 4) \<and>
   length [exampleSubJob] = length [exampleShipping] \<and>
   map_of exampleSubJob ''sub_job_id'' = Some (fld (Str ''1   '') 9 4) \<and>
   map_of exampleJob ''job_id'' = Some (fld (Str ''520     '') 1 8) \<and>
   map_of exampleSubJob ''job_id'' = Some (fld (Str ''520     '') 1 8) \<and>
   searchCustomers exampleEnv 0 (Str (cellOr exampleOrder ''Customer Name'' []))
     = Returned (Some [Str ''ACME0001XYZ'', Str ''ACME0002'']) \<and>
   (1::nat) < 10000 \<and> subJobIdOf 1 = ''1   '' \<and>
   mapOrdersToMonarch exampleEnv exampleCustomerData exampleOrders
     = Inr \<lparr>mainJobs = [exampleJob], subJobs = [exampleSubJob],
            rejectedOrders = [exampleDownRejected, exampleRejected]\<rparr> \<and>
   (\<exists>(gs :: (string \<times> srow list) list) rs.
      distinct (map fst gs) \<and> fst ` set gs = invoiceKey ` set exampleOrders \<and>
      length rs = length gs \<and> [exampleJob] = concat (map mainOf rs) \<and>
      [exampleSubJob] = concat (map subsOf rs) \<and>
      [exampleDownRejected, exampleRejected] = concat (map rejectedOf rs))"
proof -
  note t = grouping_invariant [of exampleEnv exampleCustomerData 0 "''520''" exampleOrder
      "[exampleShipping]" exampleJob "[exampleSubJob]" "Str ''ACME0001XYZ''" "[Str ''ACME0002'']" 1
      exampleOrders "\<lparr>mainJobs = [exampleJob], subJobs = [exampleSubJob],
            rejectedOrders = [exampleDownRejected, exampleRejected]\<rparr>"]
  have s: "searchCustomers exampleEnv 0 (Str (cellOr exampleOrder ''Customer Name'' []))
     = Returned (Some [Str ''ACME0001XYZ'', Str ''ACME0002''])" by code_simp
  have v1: "subJobIdOf 1 = ''1   ''" and v2: "jobIdOfInvoice ''520'' = ''520     ''" by code_simp+
  note g1 = mp [OF t [THEN conjunct1] processInvoice_example]
  note p1 = g1 [THEN conjunct2, THEN conjunct1]
  note p0 = g1 [THEN conjunct2, THEN conjunct2, THEN conjunct1]
  note p2 = g1 [THEN conjunct2, THEN conjunct2, THEN conjunct2, THEN conjunct1]
  note p3 = g1 [THEN conjunct2, THEN conjunct2, THEN conjunct2, THEN conjunct2]
  from p2 have q2: "map_of exampleSubJob ''sub_job_id'' = Some (fld (Str ''1   '') 9 4)"
    using v1 by simp
  from p3 have q3: "map_of exampleJob ''job_id'' = Some (fld (Str ''520     '') 1 8)"
    and q4: "map_of exampleSubJob ''job_id'' = Some (fld (Str ''520     '') 1 8)"
    using v2 by simp_all
  note g4 = mp [OF t [THEN conjunct2, THEN conjunct2, THEN conjunct2] mapOrders_example]
  from g4 obtain gs rs where h:
    "distinct (map fst gs) \<and> fst ` set gs = invoiceKey ` set exampleOrders \<and>
     (\<forall>g \<in> set gs. snd g = filter (\<lambda>ln. invoiceKey ln = fst g) exampleOrders \<and> snd g \<noteq> []) \<and>
     length rs = length gs \<and>
     (\<forall>p < length gs. groupPass exampleEnv exampleCustomerData p (gs ! p) = Inr (rs ! p)) \<and>
     mainJobs \<lparr>mainJobs = [exampleJob], subJobs = [exampleSubJob],
        rejectedOrders = [exampleDownRejected, exampleRejected]\<rparr> = concat (map mainOf rs) \<and>
     subJobs \<lparr>mainJobs = [exampleJob], subJobs = [exampleSubJob],
        rejectedOrders = [exampleDownRejected, exampleRejected]\<rparr> = concat (map subsOf rs) \<and>
     rejectedOrders \<lparr>mainJobs = [exampleJob], subJobs = [exampleSubJob],
        rejectedOrders = [exampleDownRejected, exampleRejected]\<rparr> = concat (map rejectedOf rs)"
    by blast
  have p5: "\<exists>(gs :: (string \<times> srow list) list) rs.
      distinct (map fst gs) \<and> fst ` set gs = invoiceKey ` set exampleOrders \<and>
      length rs = length gs \<and> [exampleJob] = concat (map mainOf rs) \<and>
      [exampleSubJob] = concat (map subsOf rs) \<and>
      [exampleDownRejected, exampleRejected] = concat (map rejectedOf rs)"
  proof (rule exI [where x = gs], rule exI [where x = rs])
    from h show "distinct (map fst gs) \<and> fst ` set gs = invoiceKey ` set exampleOrders \<and>
      length rs = length gs \<and> [exampleJob] = concat (map mainOf rs) \<and>
      [exampleSubJob] = concat (map subsOf rs) \<and>
      [exampleDownRejected, exampleRejected] = concat (map rejectedOf rs)"
      by simp
  qed
  from processInvoice_example p1 p0 q2 q3 q4 s v1 mapOrders_example p5 show ?thesis by simp
qed

section \<open>C2: the contents of a field's byte range\<close>

lemma fieldImage_truthy_Str:
  "val d = Str s \<Longrightarrow> fieldImage truthy d = fixedWidth (len d) (toText (val d))"
  by (simp add: fieldImage_def fixedWidth_def)

lemma fieldImage_defined:
  "val d \<noteq> Undefined \<Longrightarrow> fieldImage (\<lambda>v. v \<noteq> Undefined) d = fixedWidth (len d) (toText (val d))"
  by (simp add: fieldImage_def)

lemma strings_jobRecord:
  "(name, d) \<in> set (jobRecord e a b c p f g h order) \<Longrightarrow> \<exists>s. val d = Str s"
  by (auto simp: jobRecord_def Let_def fld_def)

lemma strings_mapWipRow:
  "mapWipRow we i r = Inr (WipAccepted wjob) \<Longrightarrow> (name, d) \<in> set (wj_fields wjob) \<Longrightarrow> \<exists>s. val d = Str s"
  by (auto simp: mapWipRow_def Let_def fld_def
      split: search_outcome.splits option.splits list.splits sum.splits)

lemma defined_mapCustomer:
  "(name, d) \<in> set (mapCustomer today n customer) \<Longrightarrow> val d \<noteq> Undefined"
proof -
  have "jsOr v (Str []) \<noteq> Undefined" for v
    by (cases v) (simp_all add: jsOr_def)
  then show "(name, d) \<in> set (mapCustomer today n customer) \<Longrightarrow> val d \<noteq> Undefined"
    by (auto simp: mapCustomer_def fld_def Let_def)
qed

lemma encodeJob_of_strings:
  assumes l: "layoutOf job = jobLayout"
    and s: "\<And>name d. (name, d) \<in> set job \<Longrightarrow> \<exists>s. val d = Str s"
    and m: "(name, d) \<in> set job"
  shows "\<exists>line. encodeJob job = Inr line \<and>
           line = concat (map (\<lambda>(name, d). fixedWidth (len d) (toText (val d))) job) \<and>
           slice line (pos d - 1) (len d) = fixedWidth (len d) (toText (val d))"
proof -
  have img: "map (\<lambda>(name, d). fieldImage truthy d) job
      = map (\<lambda>(name, d). fixedWidth (len d) (toText (val d))) job"
  proof (rule map_cong [OF refl])
    fix x assume x: "x \<in> set job"
    obtain n0 d0 where x0: "x = (n0, d0)" by (cases x)
    from s [of n0 d0] x x0 obtain t where "val d0 = Str t" by blast
    from fieldImage_truthy_Str [OF this] x0
    show "(case x of (name, d) \<Rightarrow> fieldImage truthy d)
        = (case x of (name, d) \<Rightarrow> fixedWidth (len d) (toText (val d)))" by simp
  qed
  from s [OF m] obtain t where t: "val d = Str t" by blast
  from encodeJob_shape [OF l] have e: "encodeJob job
      = Inr (concat (map (\<lambda>(name, d). fixedWidth (len d) (toText (val d))) job))"
    by (simp only: img)
  from encodeJob_slice [OF l m e] fieldImage_truthy_Str [OF t] e show ?thesis by simp
qed

lemma encodeCustomer_of_mapCustomer:
  assumes m: "(name, d) \<in> set (mapCustomer today n c)"
  shows "\<exists>line. encodeCustomer (mapCustomer today n c) = Inr line \<and>
           line = concat (map (\<lambda>(name, d). fixedWidth (len d) (toText (val d))) (mapCustomer today n c)) @ '' '' \<and>
           slice line (pos d - 1) (len d) = fixedWidth (len d) (toText (val d))"
proof -
  let ?r = "mapCustomer today n c"
  have img: "map (\<lambda>(name, d). fieldImage (\<lambda>v. v \<noteq> Undefined) d) ?r
      = map (\<lambda>(name, d). fixedWidth (len d) (toText (val d))) ?r"
  proof (rule map_cong [OF refl])
    fix x assume x: "x \<in> set ?r"
    obtain n0 d0 where x0: "x = (n0, d0)" by (cases x)
    from defined_mapCustomer [of n0 d0 today n c] x x0 have "val d0 \<noteq> Undefined" by simp
    from fieldImage_defined [OF this] x0
    show "(case x of (name, d) \<Rightarrow> fieldImage (\<lambda>v. v \<noteq> Undefined) d)
        = (case x of (name, d) \<Rightarrow> fixedWidth (len d) (toText (val d)))" by simp
  qed
  from encodeCustomer_total [OF noNull_mapCustomer] obtain line
    where e: "encodeCustomer ?r = Inr line" by blast
  have sh: "line = concat (map (\<lambda>(name, d). fixedWidth (len d) (toText (val d))) ?r) @ '' ''"
    using encodeCustomer_shape [OF layoutOf_mapCustomer e] by (simp only: img)
  from encodeCustomer_slice [OF layoutOf_mapCustomer m e] fieldImage_defined [OF defined_mapCustomer [OF m]]
  have "slice line (pos d - 1) (len d) = fixedWidth (len d) (toText (val d))" by simp
  with e sh show ?thesis by blast
qed

lemma processGroups_jobRecords:
  assumes "processGroups e cd k gs st = Inr st'"
    and "\<forall>job \<in> set (mainJobs st @ subJobs st).
           \<exists>jobId sub cust po due ship contact order.
             job = jobRecord e jobId sub cust po due ship contact order"
  shows "\<forall>job \<in> set (mainJobs st' @ subJobs st').
           \<exists>jobId sub cust po due ship contact order.
             job = jobRecord e jobId sub cust po due ship contact order"
  using assms
proof (induction e cd k gs st rule: processGroups.induct)
  case (1 e customerData callNo st)
  then show ?case by simp
next
  case (2 e customerData callNo invoiceNumber orders gs st)
  show ?case
  proof (cases orders)
    case Nil
    with 2 show ?thesis by simp
  next
    case (Cons firstOrder rest)
    show ?thesis
    proof (cases "processInvoice e customerData callNo invoiceNumber firstOrder rest")
      case (Inl err)
      with 2(4) Cons show ?thesis by simp
    next
      case (Inr res)
      show ?thesis
      proof (cases res)
        case (Rejected r)
        with 2(4) Cons Inr have run: "processGroups e customerData (Suc callNo) gs
            (st\<lparr>rejectedOrders := rejectedOrders st @ [r]\<rparr>) = Inr st'" by simp
        from 2(5) have "\<forall>job \<in> set (mainJobs (st\<lparr>rejectedOrders := rejectedOrders st @ [r]\<rparr>)
              @ subJobs (st\<lparr>rejectedOrders := rejectedOrders st @ [r]\<rparr>)).
           \<exists>jobId sub cust po due ship contact order.
             job = jobRecord e jobId sub cust po due ship contact order" by simp
        from 2(2) [OF Cons Inr Rejected run this] show ?thesis .
      next
        case (Accepted m subs)
        with 2(4) Cons Inr have run: "processGroups e customerData (Suc callNo) gs
            (st\<lparr>mainJobs := mainJobs st @ [m], subJobs := subJobs st @ subs\<rparr>) = Inr st'" by simp
        from processInvoice_accepted [of e customerData callNo invoiceNumber firstOrder rest m subs]
          Inr Accepted
        obtain cust po due ship contact where
          m: "m = jobRecord e (jobIdOfInvoice invoiceNumber) ''    '' cust po due ship contact firstOrder"
          and subs: "subs = map (\<lambda>j. jobRecord e (jobIdOfInvoice invoiceNumber) (subJobIdOf (Suc j))
                cust po due ship contact (rest ! j)) [0 ..< length rest]"
          by blast
        have "\<forall>job \<in> set (mainJobs (st\<lparr>mainJobs := mainJobs st @ [m], subJobs := subJobs st @ subs\<rparr>)
              @ subJobs (st\<lparr>mainJobs := mainJobs st @ [m], subJobs := subJobs st @ subs\<rparr>)).
           \<exists>jobId sub cust po due ship contact order.
             job = jobRecord e jobId sub cust po due ship contact order"
        proof
          fix job assume "job \<in> set (mainJobs (st\<lparr>mainJobs := mainJobs st @ [m], subJobs := subJobs st @ subs\<rparr>)
              @ subJobs (st\<lparr>mainJobs := mainJobs st @ [m], subJobs := subJobs st @ subs\<rparr>))"
          then consider "job \<in> set (mainJobs st @ subJobs st)" | "job = m" | "job \<in> set subs"
            by auto
          then show "\<exists>jobId sub cust po due ship contact order.
             job = jobRecord e jobId sub cust po due ship contact order"
          proof cases
            case 1
            with 2(5) show ?thesis by blast
          next
            case 2
            with m show ?thesis by blast
          next
            case 3
            with subs obtain j where "job = jobRecord e (jobIdOfInvoice invoiceNumber) (subJobIdOf (Suc j))
                cust po due ship contact (rest ! j)" by auto
            then show ?thesis by blast
          qed
        qed
        from 2(3) [OF Cons Inr Accepted run this] show ?thesis .
      qed
    qed
  qed
qed

lemma mapOrdersToMonarch_jobRecords:
  assumes "mapOrdersToMonarch e cd od = Inr st" and "job \<in> set (mainJobs st @ subJobs st)"
  shows "\<exists>jobId sub cust po due ship contact order.
           job = jobRecord e jobId sub cust po due ship contact order"
proof -
  from assms(1) obtain groups where
    run: "processGroups e cd 0 (objectEntries groups)
            \<lparr>mainJobs = [], subJobs = [], rejectedOrders = []\<rparr> = Inr st"
    by (auto simp: mapOrdersToMonarch_def split: sum.splits)
  from processGroups_jobRecords [OF run] assms(2) show ?thesis by simp
qed

lemma mapWipRows_jobs:
  assumes "mapWipRows e k rs st = Inr st'"
    and "\<forall>job \<in> set (jobs st). \<exists>i r. mapWipRow e i r = Inr (WipAccepted job)"
  shows "\<forall>job \<in> set (jobs st'). \<exists>i r. mapWipRow e i r = Inr (WipAccepted job)"
  using assms
proof (induction rs arbitrary: k st)
  case Nil
  then show ?case by simp
next
  case (Cons r rs)
  define st1 where "st1 = st\<lparr>queries := queries st @ [jsOr (getProp r ''_customerName'') (Str [])]\<rparr>"
  have j1: "jobs st1 = jobs st" by (simp add: st1_def)
  show ?case
  proof (cases "mapWipRow e k r")
    case (Inl err)
    with Cons.prems(1) show ?thesis by (simp add: Let_def)
  next
    case (Inr res)
    show ?thesis
    proof (cases res)
      case (WipRejected rej)
      with Cons.prems(1) Inr have run: "mapWipRows e (Suc k) rs (st1\<lparr>wipRejected := wipRejected st1 @ [rej]\<rparr>) = Inr st'"
        by (simp add: Let_def st1_def)
      show ?thesis
        by (rule Cons.IH [OF run]) (use Cons.prems(2) j1 in simp)
    next
      case (WipAccepted job)
      with Cons.prems(1) Inr have run: "mapWipRows e (Suc k) rs (st1\<lparr>jobs := jobs st1 @ [job]\<rparr>) = Inr st'"
        by (simp add: Let_def st1_def)
      show ?thesis
      proof (rule Cons.IH [OF run])
        show "\<forall>job\<in>set (jobs (st1\<lparr>jobs := jobs st1 @ [job]\<rparr>)). \<exists>i r. mapWipRow e i r = Inr (WipAccepted job)"
          using Cons.prems(2) j1 Inr WipAccepted by auto
      qed
    qed
  qed
qed

lemma mapToMonarchFormat_jobs:
  assumes "mapToMonarchFormat e filtered = Inr st" and "job \<in> set (jobs st)"
  shows "\<exists>i r. mapWipRow e i r = Inr (WipAccepted job)"
  using mapWipRows_jobs [of e 0 filtered "\<lparr>jobs = [], wipRejected = [], queries = []\<rparr>" st] assms
  by (simp add: mapToMonarchFormat_def)

text \<open>
  C2. For every record the three mappers build, a job or sub-job of
  \<open>mapOrdersToMonarch\<close> (the object literal \<open>jobRecord\<close>), a WIP job of
  \<open>mapToMonarchFormat\<close> (the literal of \<open>mapWipRow\<close>) and a customer record of
  \<open>mapCustomerListToMonarch\<close> (the literal of \<open>mapCustomer\<close>), the encoder returns a line,
  and the range \<open>[pos - 1, pos - 1 + len)\<close> of each field of the record holds the first
  \<open>len\<close> characters of the string form of the field's value, padded on the right with
  spaces. The line is the concatenation of these ranges in the order of the fields
  (followed, for a customer, by the one space of byte 758): it is determined by the
  record, so encoding the record again gives the same line. The job and WIP mappers
  bind strings only, and an empty string and a field left unwritten both give spaces;
  the customer mapper binds no \<open>undefined\<close> and no \<open>null\<close>.
\<close>

theorem field_range_contents:
  "(job = jobRecord e jobId subJobId cust po due ship contact order \<or>
    mapOrdersToMonarch e customerData orderData = Inr st \<and> job \<in> set (mainJobs st @ subJobs st) \<longrightarrow>
    (name, d) \<in> set job \<longrightarrow>
      (\<exists>line. encodeJob job = Inr line \<and>
         line = concat (map (\<lambda>(name, d). fixedWidth (len d) (toText (val d))) job) \<and>
         slice line (pos d - 1) (len d) = fixedWidth (len d) (toText (val d)))) \<and>
   (mapWipRow we i r = Inr (WipAccepted wjob) \<or>
    mapToMonarchFormat we filtered = Inr wst \<and> wjob \<in> set (jobs wst) \<longrightarrow>
    (wname, wd) \<in> set (wj_fields wjob) \<longrightarrow>
      (\<exists>line. encodeWip wjob = Inr line \<and>
         line = concat (map (\<lambda>(name, d). fixedWidth (len d) (toText (val d))) (wj_fields wjob)) \<and>
         slice line (pos wd - 1) (len wd) = fixedWidth (len wd) (toText (val wd)))) \<and>
   (customer = mapCustomer today code c \<or>
    customer \<in> set (mapCustomerListToMonarch clock customerListData) \<longrightarrow>
    (cname, cd) \<in> set customer \<longrightarrow>
      (\<exists>line. encodeCustomer customer = Inr line \<and>
         line = concat (map (\<lambda>(name, d). fixedWidth (len d) (toText (val d))) customer) @ '' '' \<and>
         slice line (pos cd - 1) (len cd) = fixedWidth (len cd) (toText (val cd))))"
proof (intro conjI impI)
  assume b: "job = jobRecord e jobId subJobId cust po due ship contact order \<or>
    mapOrdersToMonarch e customerData orderData = Inr st \<and> job \<in> set (mainJobs st @ subJobs st)"
    and m: "(name, d) \<in> set job"
  from b mapOrdersToMonarch_jobRecords [of e customerData orderData st job]
  obtain a1 a2 a3 a4 a5 a6 a7 a8 where j: "job = jobRecord e a1 a2 a3 a4 a5 a6 a7 a8"
    by blast
  have l: "layoutOf job = jobLayout" unfolding j by (rule layoutOf_jobRecord)
  have s: "\<exists>s. val d' = Str s" if "(name', d') \<in> set job" for name' d'
    using that unfolding j by (rule strings_jobRecord)
  show "\<exists>line. encodeJob job = Inr line \<and>
         line = concat (map (\<lambda>(name, d). fixedWidth (len d) (toText (val d))) job) \<and>
         slice line (pos d - 1) (len d) = fixedWidth (len d) (toText (val d))"
    by (rule encodeJob_of_strings [OF l s m])
next
  assume b: "mapWipRow we i r = Inr (WipAccepted wjob) \<or>
    mapToMonarchFormat we filtered = Inr wst \<and> wjob \<in> set (jobs wst)"
    and m: "(wname, wd) \<in> set (wj_fields wjob)"
  from b mapToMonarchFormat_jobs [of we filtered wst wjob]
  obtain i' r' where w: "mapWipRow we i' r' = Inr (WipAccepted wjob)" by blast
  have l: "layoutOf (wj_fields wjob) = jobLayout" by (rule layoutOf_mapWipRow [OF w])
  have s: "\<exists>s. val d' = Str s" if "(name', d') \<in> set (wj_fields wjob)" for name' d'
    using w that by (rule strings_mapWipRow)
  from encodeJob_of_strings [OF l s m] encodeWip_encodeJob [OF l]
  show "\<exists>line. encodeWip wjob = Inr line \<and>
         line = concat (map (\<lambda>(name, d). fixedWidth (len d) (toText (val d))) (wj_fields wjob)) \<and>
         slice line (pos wd - 1) (len wd) = fixedWidth (len wd) (toText (val wd))"
    by simp
next
  assume b: "customer = mapCustomer today code c \<or>
    customer \<in> set (mapCustomerListToMonarch clock customerListData)"
    and m: "(cname, cd) \<in> set customer"
  from b obtain t n c' where c: "customer = mapCustomer t n c'"
    by (auto simp: mapCustomerListToMonarch_def)
  from m show "\<exists>line. encodeCustomer customer = Inr line \<and>
         line = concat (map (\<lambda>(name, d). fixedWidth (len d) (toText (val d))) customer) @ '' '' \<and>
         slice line (pos cd - 1) (len cd) = fixedWidth (len cd) (toText (val cd))"
    unfolding c by (rule encodeCustomer_of_mapCustomer)
qed

text \<open>
  C2, witness: the PO number and the empty item id of the main job that
  \<open>mapOrdersToMonarch\<close> builds for invoice 520, the job id of a WIP job, and the numeric
  customer code of a customer record, each in its range.
\<close>

theorem field_range_contents_witness:
  "mapOrdersToMonarch exampleEnv exampleCustomerData exampleOrders
     = Inr \<lparr>mainJobs = [exampleJob], subJobs = [exampleSubJob],
            rejectedOrders = [exampleDownRejected, exampleRejected]\<rparr> \<and>
   (''po_number'', fld (Str ''PO-7'') 325 20) \<in> set exampleJob \<and>
   fieldRange (encodeJob exampleJob) (fld (Str ''PO-7'') 325 20) = Inr ''PO-7                '' \<and>
   (''item_id'', fld (Str []) 286 15) \<in> set exampleJob \<and>
   fieldRange (encodeJob exampleJob) (fld (Str []) 286 15) = Inr ''               '' \<and>
   mapWipRow exampleWipEnv 0 exampleFilteredRow = Inr (WipAccepted exampleWipJob) \<and>
   (''job_id'', fld (Str ''N12345  '') 1 8) \<in> set (wj_fields exampleWipJob) \<and>
   fieldRange (encodeWip exampleWipJob) (fld (Str ''N12345  '') 1 8) = Inr ''N12345  '' \<and>
   exampleCustomerRecord = mapCustomer ''11/02/2026'' 1 exampleCustomer \<and>
   (''Cust-code'', fld (Num 1) 1 8) \<in> set exampleCustomerRecord \<and>
   fieldRange (encodeCustomer exampleCustomerRecord) (fld (Num 1) 1 8) = Inr ''1       ''"
proof -
  let ?st = "\<lparr>mainJobs = [exampleJob], subJobs = [exampleSubJob],
            rejectedOrders = [exampleDownRejected, exampleRejected]\<rparr>"
  note run = mapOrders_example
  have j1: "mapOrdersToMonarch exampleEnv exampleCustomerData exampleOrders = Inr ?st \<and>
      exampleJob \<in> set (mainJobs ?st @ subJobs ?st)"
    using run by simp
  have j2: "(''po_number'', fld (Str ''PO-7'') 325 20) \<in> set exampleJob"
    by (simp add: exampleJob_def jobRecord_def Let_def substring0_def)
  have j3: "(''item_id'', fld (Str []) 286 15) \<in> set exampleJob"
    by (simp add: exampleJob_def jobRecord_def Let_def substring0_def)
  note w1 = mapWipRow_example
  have w2: "(''job_id'', fld (Str ''N12345  '') 1 8) \<in> set (wj_fields exampleWipJob)"
    by (simp add: exampleWipJob_def)
  have c1: "exampleCustomerRecord = mapCustomer ''11/02/2026'' 1 exampleCustomer"
    by (rule exampleCustomerRecord_def)
  have c3: "(''Cust-code'', fld (Num 1) 1 8) \<in> set exampleCustomerRecord"
    by (simp add: exampleCustomerRecord_def mapCustomer_def Let_def)
  have f1: "fixedWidth 20 (toText (Str ''PO-7'')) = ''PO-7                ''"
    and f2: "fixedWidth 8 (toText (Str ''N12345  '')) = ''N12345  ''"
    and f3: "fixedWidth 8 (toText (Num 1)) = ''1       ''"
    and f4: "fixedWidth 15 (toText (Str [])) = ''               ''"
    by code_simp+
  note t = field_range_contents [where e = exampleEnv and customerData = exampleCustomerData
      and orderData = exampleOrders and st = ?st and job = exampleJob
      and we = exampleWipEnv and i = 0 and r = exampleFilteredRow and wjob = exampleWipJob
      and wname = "''job_id''" and wd = "fld (Str ''N12345  '') 1 8"
      and customer = exampleCustomerRecord and today = "''11/02/2026''" and code = 1
      and c = exampleCustomer and cname = "''Cust-code''" and cd = "fld (Num 1) 1 8"]
  have r1: "fieldRange (encodeJob exampleJob) (fld (Str ''PO-7'') 325 20) = Inr ''PO-7                ''"
    using mp [OF mp [OF t [where name = "''po_number''" and d = "fld (Str ''PO-7'') 325 20", THEN conjunct1]
          disjI2 [OF j1]] j2]
    by (auto simp: fieldRange_def fld_def f1 simp del: toText.simps)
  have r2: "fieldRange (encodeJob exampleJob) (fld (Str []) 286 15) = Inr ''               ''"
    using mp [OF mp [OF t [where name = "''item_id''" and d = "fld (Str []) 286 15", THEN conjunct1]
          disjI2 [OF j1]] j3]
    by (auto simp: fieldRange_def fld_def f4 simp del: toText.simps)
  have r3: "fieldRange (encodeWip exampleWipJob) (fld (Str ''N12345  '') 1 8) = Inr ''N12345  ''"
    using mp [OF mp [OF t [THEN conjunct2, THEN conjunct1] disjI1 [OF w1]] w2]
    by (auto simp: fieldRange_def fld_def f2 simp del: toText.simps)
  have r4: "fieldRange (encodeCustomer exampleCustomerRecord) (fld (Num 1) 1 8) = Inr ''1       ''"
    using mp [OF mp [OF t [THEN conjunct2, THEN conjunct2] disjI1 [OF c1]] c3]
    by (auto simp: fieldRange_def fld_def f3 simp del: toText.simps)
  show ?thesis
    by (intro conjI) (fact run j2 r1 j3 r2 w1 w2 r3 c1 c3 r4)+
qed

lemma tryCatch_returns:
  "(\<And>err. \<exists>r. handler err = Inr r) \<Longrightarrow> \<exists>r. tryCatch body handler = Inr r"
  by (cases body) (simp_all add: tryCatch_def)

lemma tryCatch_Inl [simp]: "tryCatch (Inl err) handler = handler err"
  by (simp add: tryCatch_def)

lemma bindE_Inl [simp]: "bindE (Inl err) f = Inl err"
  by (simp add: bindE_def)

lemma bindE_Inr [simp]: "bindE (Inr v) f = f v"
  by (simp add: bindE_def)

lemma thenE_None [simp]: "thenE None k = k"
  by (simp add: thenE_def)

lemma thenE_Some [simp]: "thenE (Some err) k = Inl err"
  by (simp add: thenE_def)

section \<open>The customer resolver\<close>

text \<open>
  C4 (resolver invariant). For every record that reaches the customer resolver, exactly one
  of a job record carrying the first search result's \<open>customer_id\<close> cut to 8 characters, or one
  rejection with the reason \<open>Customer not found in Monarch database\<close> or
  \<open>API Error: <message>\<close>, is produced, and the remaining records are still processed.

  The WIP path does not keep this. A sheet row whose Project Name cell is numeric passes the
  Order ID filter, its customer is found by the lookup, and then \<open>projectName.substring\<close>,
  evaluated after the \<open>try\<close> block, throws: the row gives neither a job nor a rejection,
  the loop is left, the second row (which alone gives a job) is never mapped, and
  \<open>processFile\<close> reports a failure. The lemmas after the theorem show what does hold:
  the two rejection reasons, and the customer id of an accepted record.
\<close>

theorem numeric_project_name_aborts:
  "filteredData (filterValidOrders exampleNumericSheet) = [keptRow exampleNumericRow, keptRow exampleWipRow] \<and>
   wipSearchCustomers exampleWipEnv 0 (jsOr (getProp (keptRow exampleNumericRow) ''_customerName'') (Str []))
     = Returned (Some [Str ''ACME0001XYZ'', Str ''ACME0002'']) \<and>
   mapWipRow exampleWipEnv 0 (keptRow exampleNumericRow)
     = Inl (TypeError ''projectName.substring is not a function'') \<and>
   mapToMonarchFormat exampleWipEnv (filteredData (filterValidOrders exampleNumericSheet))
     = Inl (TypeError ''projectName.substring is not a function'') \<and>
   wipProcessFile exampleWipEnv exampleBrowser (Inr (exampleHeaders, exampleNumericSheet))
     = Inr (Failure ''Error processing XLS file: projectName.substring is not a function'') \<and>
   mapToMonarchFormat exampleWipEnv (filteredData (filterValidOrders [exampleWipRow]))
     = Inr \<lparr>jobs = [exampleWipJob], wipRejected = [], queries = [Str ''Acme Co'']\<rparr>"
  by code_simp

lemma processInvoice_outcomes:
  "processInvoice e cd i k firstOrder rest = Inr (Rejected r) \<Longrightarrow>
     rj_invoiceNumber r = k \<and> rj_customerName r = cellOr firstOrder ''Customer Name'' [] \<and>
     (rj_reason r = ''Customer not found in Monarch database'' \<and>
        (searchCustomers e i (Str (cellOr firstOrder ''Customer Name'' [])) = Returned None \<or>
         searchCustomers e i (Str (cellOr firstOrder ''Customer Name'' [])) = Returned (Some []))
      \<or> (\<exists>msg. rj_reason r = ''API Error: '' @ msg \<and>
            searchCustomers e i (Str (cellOr firstOrder ''Customer Name'' [])) = Threw msg))"
  by (auto simp: processInvoice_def Let_def
      split: search_outcome.splits option.splits list.splits sum.splits)

lemma processInvoice_customer_id:
  assumes "processInvoice e cd i k firstOrder rest = Inr (Accepted m subs)"
  shows "\<exists>cid others. searchCustomers e i (Str (cellOr firstOrder ''Customer Name'' []))
            = Returned (Some (cid # others)) \<and>
          (\<forall>job \<in> set (m # subs).
             map_of job ''cust_ordered_by'' = Some (fld (Str (take 8 (toText cid))) 301 8) \<and>
             map_of job ''cust_billed_to'' = Some (fld (Str (take 8 (toText cid))) 309 8))"
proof -
  from assms obtain cid others idText where
    s: "searchCustomers e i (Str (cellOr firstOrder ''Customer Name'' [])) = Returned (Some (cid # others))"
    and ts: "toString cid = Inr idText"
    by (auto simp: processInvoice_def Let_def
        split: search_outcome.splits option.splits list.splits sum.splits)
  from ts have idText: "idText = toText cid" by (rule toString_Inr)
  from assms s ts have
    "\<forall>job \<in> set (m # subs).
       map_of job ''cust_ordered_by'' = Some (fld (Str (take 8 (toText cid))) 301 8) \<and>
       map_of job ''cust_billed_to'' = Some (fld (Str (take 8 (toText cid))) 309 8)"
    by (auto simp: processInvoice_def Let_def jobRecord_def substring0_def idText)
  with s show ?thesis by blast
qed

lemma mapWipRow_outcomes:
  "mapWipRow e i r = Inr (WipRejected rj) \<Longrightarrow>
     (wr_reason rj = ''Customer not found in Monarch database'' \<and>
        (wipSearchCustomers e i (jsOr (getProp r ''_customerName'') (Str [])) = Returned None \<or>
         wipSearchCustomers e i (jsOr (getProp r ''_customerName'') (Str [])) = Returned (Some []))
      \<or> (\<exists>msg. wr_reason rj = ''API Error: '' @ msg \<and>
            wipSearchCustomers e i (jsOr (getProp r ''_customerName'') (Str [])) = Threw msg))"
  by (auto simp: mapWipRow_def Let_def
      split: search_outcome.splits option.splits list.splits sum.splits)

lemma mapWipRow_string_project:
  assumes "findColumn r projectNameColumns = Str p"
    and "wipSearchCustomers e i (jsOr (getProp r ''_customerName'') (Str [])) = Returned (Some (cid # others))"
    and "cid \<noteq> Undefined" and "cid \<noteq> Null"
  shows "\<exists>job. mapWipRow e i r = Inr (WipAccepted job) \<and>
           map_of (wj_fields job) ''cust_ordered_by'' = Some (fld (Str (take 8 (toText cid))) 301 8)"
proof -
  from assms(3,4) have "toString cid = Inr (toText cid)" by (cases cid) simp_all
  with assms(1,2) show ?thesis
    by (simp add: mapWipRow_def Let_def substring0_def)
qed


section \<open>The orchestrators\<close>

lemma processFiles_returns: "\<exists>r. processFiles e b parsed = Inr r"
  unfolding processFiles_def by (rule tryCatch_returns) simp

lemma customerProcessFile_returns: "\<exists>r. customerProcessFile clock b fileName csvParse = Inr r"
  unfolding customerProcessFile_def by (rule tryCatch_returns) simp

lemma wipProcessFile_returns: "\<exists>r. wipProcessFile e b parsed = Inr r"
  unfolding wipProcessFile_def by (rule tryCatch_returns) simp

lemma processFiles_mapping_error:
  "mapOrdersToMonarch e cd od = Inl err \<Longrightarrow>
   processFiles e b (Inr (cd, od)) = Inr (Failure (''Error processing files: '' @ errorMessage err))"
  by (simp add: processFiles_def generateJobImportFiles_def)

lemma processFiles_storage_error:
  "mapOrdersToMonarch e cd od = Inr st \<Longrightarrow>
   (\<forall>c f. downloadTextFile b c f = None) \<Longrightarrow> (\<forall>k v. setItem b k v = Some err) \<Longrightarrow>
   processFiles e b (Inr (cd, od)) = Inr (Failure (''Error processing files: '' @ errorMessage err))"
  using generateFixedWidthFile_total [of "mainJobs st"] generateFixedWidthFile_total [of "subJobs st"]
  by (auto simp add: processFiles_def generateJobImportFiles_def)

lemma wipProcessFile_mapping_error:
  "rows \<noteq> [] \<Longrightarrow> filteredData (filterValidOrders rows) \<noteq> [] \<Longrightarrow>
   mapToMonarchFormat e (filteredData (filterValidOrders rows)) = Inl err \<Longrightarrow>
   wipProcessFile e b (Inr (hs, rows)) = Inr (Failure (''Error processing XLS file: '' @ errorMessage err))"
  by (simp add: wipProcessFile_def generateWIPImportFile_def Let_def)

text \<open>
  C8 (orchestrators never throw). \<open>processFiles\<close> of the order importer and \<open>processFile\<close> of the
  customer-list and WIP importers always return a result object, \<open>Success\<close> with a message and
  a summary or \<open>Failure\<close> with a message, whatever the parsers, the mapping, the download and
  the storage do: each body is one \<open>try\<close> block whose handler returns the failure shape. A
  rejected parse, and an exception of the mapping, become the failure whose message is the
  importer's prefix followed by the exception's message.
\<close>

theorem orchestrators_never_throw:
  "(\<exists>r. processFiles e b parsed = Inr r) \<and>
   (\<exists>r. customerProcessFile clock b fileName csvParse = Inr r) \<and>
   (\<exists>r. wipProcessFile we b wparsed = Inr r) \<and>
   processFiles e b (Inl err) = Inr (Failure (''Error processing files: '' @ errorMessage err)) \<and>
   customerProcessFile clock b (fileName @ ''.csv'') (Inl err)
     = Inr (Failure (''Error processing customer list: '' @ errorMessage err)) \<and>
   wipProcessFile we b (Inl err) = Inr (Failure (''Error processing XLS file: '' @ errorMessage err)) \<and>
   (mapOrdersToMonarch e cd od = Inl err \<longrightarrow>
      processFiles e b (Inr (cd, od)) = Inr (Failure (''Error processing files: '' @ errorMessage err))) \<and>
   (rows \<noteq> [] \<and> filteredData (filterValidOrders rows) \<noteq> [] \<and>
    mapToMonarchFormat we (filteredData (filterValidOrders rows)) = Inl err \<longrightarrow>
      wipProcessFile we b (Inr (hs, rows))
        = Inr (Failure (''Error processing XLS file: '' @ errorMessage err)))"
proof -
  have csv: "endsWith ''.csv'' (fileName @ ''.csv'')"
    by (simp add: endsWith_def)
  have c: "customerProcessFile clock b (fileName @ ''.csv'') (Inl err)
     = Inr (Failure (''Error processing customer list: '' @ errorMessage err))"
    unfolding customerProcessFile_def parseCustomerListFile_def using csv by simp
  have p: "processFiles e b (Inl err) = Inr (Failure (''Error processing files: '' @ errorMessage err))"
    by (simp add: processFiles_def)
  have w: "wipProcessFile we b (Inl err) = Inr (Failure (''Error processing XLS file: '' @ errorMessage err))"
    by (simp add: wipProcessFile_def)
  show ?thesis
    using processFiles_returns [of e b parsed]
      customerProcessFile_returns [of clock b fileName csvParse]
      wipProcessFile_returns [of we b wparsed] c p w
      processFiles_mapping_error [of e cd od err b]
      wipProcessFile_mapping_error [of rows we err b hs]
    by blast
qed


theorem orchestrators_never_throw_witness:
  "mapOrdersToMonarch exampleEnv exampleCustomerData [exampleOrder, exampleProtoOrder]
     = Inl (TypeError ''ordersByInvoice[invoiceNumber].push is not a function'') \<and>
   processFiles exampleEnv exampleBrowser (Inr (exampleCustomerData, [exampleOrder, exampleProtoOrder]))
     = Inr (Failure ''Error processing files: ordersByInvoice[invoiceNumber].push is not a function'') \<and>
   exampleNumericSheet \<noteq> [] \<and>
   filteredData (filterValidOrders exampleNumericSheet) \<noteq> [] \<and>
   mapToMonarchFormat exampleWipEnv (filteredData (filterValidOrders exampleNumericSheet))
     = Inl (TypeError ''projectName.substring is not a function'') \<and>
   wipProcessFile exampleWipEnv fullBrowser (Inr (exampleHeaders, exampleNumericSheet))
     = Inr (Failure ''Error processing XLS file: projectName.substring is not a function'')"
proof -
  have m: "mapOrdersToMonarch exampleEnv exampleCustomerData [exampleOrder, exampleProtoOrder]
     = Inl (TypeError ''ordersByInvoice[invoiceNumber].push is not a function'')"
    by code_simp
  have n1: "exampleNumericSheet \<noteq> []"
    by code_simp
  have n2: "filteredData (filterValidOrders exampleNumericSheet) \<noteq> []"
    by code_simp
  have n3: "mapToMonarchFormat exampleWipEnv (filteredData (filterValidOrders exampleNumericSheet))
     = Inl (TypeError ''projectName.substring is not a function'')"
    by code_simp
  note orders = orchestrators_never_throw [where e = exampleEnv and b = exampleBrowser
      and cd = exampleCustomerData and od = "[exampleOrder, exampleProtoOrder]"
      and err = "TypeError ''ordersByInvoice[invoiceNumber].push is not a function''"]
  note wip = orchestrators_never_throw [where we = exampleWipEnv and b = fullBrowser
      and rows = exampleNumericSheet and hs = exampleHeaders
      and err = "TypeError ''projectName.substring is not a function''"]
  have p: "processFiles exampleEnv exampleBrowser (Inr (exampleCustomerData, [exampleOrder, exampleProtoOrder]))
     = Inr (Failure ''Error processing files: ordersByInvoice[invoiceNumber].push is not a function'')"
    using mp [OF orders [THEN conjunct2, THEN conjunct2, THEN conjunct2, THEN conjunct2,
          THEN conjunct2, THEN conjunct2, THEN conjunct1] m]
    by simp
  have w: "wipProcessFile exampleWipEnv fullBrowser (Inr (exampleHeaders, exampleNumericSheet))
     = Inr (Failure ''Error processing XLS file: projectName.substring is not a function'')"
    using mp [OF wip [THEN conjunct2, THEN conjunct2, THEN conjunct2, THEN conjunct2,
          THEN conjunct2, THEN conjunct2, THEN conjunct2] conjI [OF n1 conjI [OF n2 n3]]]
    by simp
  show ?thesis
    by (intro conjI) (fact m p n1 n2 n3 w)+
qed

end
